(* ===== verification/Prelude.thy ===== *)
theory Prelude
  imports Main "HOL-Library.Word" "HOL-Library.Finite_Map" "HOL-Library.AList" "HOL-Library.Multiset"
begin

text \<open>
  Shared vocabulary of the development: Rust's \<open>Result\<close> and \<open>Poll\<close>, futures as
  awaitable computations over a world, hash maps whose iteration order is observable,
  a generic invariant argument for step relations, and the string operations of the
  Rust standard library that the sources use (\<open>split\<close>, \<open>to_lowercase\<close>,
  \<open>eq_ignore_ascii_case\<close>, \<open>parse::<u16>\<close>, decimal formatting).

  Strings are the bytes of a Rust \<open>String\<close>. Case conversion is modelled on the ASCII
  letters; the strings it is applied to are host names and header values.
\<close>

named_theorems fut_simps \<open>equations of the future combinators\<close>
named_theorems hm_simps \<open>lookup equations of the hash-map operations\<close>

section \<open>Results and polls\<close>

datatype ('a, 'e) result = Ok 'a | Err 'e

datatype 'a poll = Ready 'a | Pending

type_synonym u8 = "8 word"
type_synonym u16 = "16 word"
type_synonym u32 = "32 word"
type_synonym u64 = "64 word"
type_synonym i64 = "64 word"

fun result_ok :: "('a, 'e) result \<Rightarrow> 'a option" where
  "result_ok (Ok a) = Some a"
| "result_ok (Err e) = None"

fun map_ok :: "('a \<Rightarrow> 'b) \<Rightarrow> ('a, 'e) result \<Rightarrow> ('b, 'e) result" where
  "map_ok f (Ok a) = Ok (f a)"
| "map_ok f (Err e) = Err e"

fun map_err :: "('e \<Rightarrow> 'd) \<Rightarrow> ('a, 'e) result \<Rightarrow> ('a, 'd) result" where
  "map_err f (Ok a) = Ok a"
| "map_err f (Err e) = Err (f e)"

fun and_then :: "('a, 'e) result \<Rightarrow> ('a \<Rightarrow> ('b, 'e) result) \<Rightarrow> ('b, 'e) result" where
  "and_then (Ok a) f = f a"
| "and_then (Err e) f = Err e"

text \<open>\<open>collect\<close> into a result: all the values, or the first error.\<close>

fun collect_results :: "('a, 'e) result list \<Rightarrow> ('a list, 'e) result" where
  "collect_results [] = Ok []"
| "collect_results (Err e # rs) = Err e"
| "collect_results (Ok a # rs) = map_ok (\<lambda>as. a # as) (collect_results rs)"

lemma map_ok_Ok: "map_ok f r = Ok b \<longleftrightarrow> (\<exists>a. r = Ok a \<and> b = f a)"
  by (cases r) auto

lemma and_then_Ok: "and_then r f = Ok b \<longleftrightarrow> (\<exists>a. r = Ok a \<and> f a = Ok b)"
  by (cases r) auto

lemma collect_results_Ok: "collect_results rs = Ok as \<longleftrightarrow> rs = map Ok as"
  by (induction rs arbitrary: as rule: collect_results.induct) (auto simp: map_ok_Ok)

section \<open>Futures\<close>

text \<open>
  A future is what awaiting it does: started in a world it either never resolves
  (\<open>None\<close>) or resolves to a value and leaves a changed world. Creating a future is a
  separate, eager step of the function that returns it.
\<close>

type_synonym ('w, 'a) fut = "'w \<Rightarrow> ('a \<times> 'w) option"

definition fut_ready :: "'a \<Rightarrow> ('w, 'a) fut" where
  "fut_ready a = (\<lambda>w. Some (a, w))"

definition fut_map :: "('a \<Rightarrow> 'b) \<Rightarrow> ('w, 'a) fut \<Rightarrow> ('w, 'b) fut" where
  "fut_map f m = (\<lambda>w. case m w of None \<Rightarrow> None | Some (a, w') \<Rightarrow> Some (f a, w'))"

definition fut_bind :: "('w, 'a) fut \<Rightarrow> ('a \<Rightarrow> ('w, 'b) fut) \<Rightarrow> ('w, 'b) fut" where
  "fut_bind m k = (\<lambda>w. case m w of None \<Rightarrow> None | Some (a, w') \<Rightarrow> k a w')"

text \<open>\<open>future::Either\<close> awaits whichever future it holds.\<close>

fun fut_either :: "('w, 'a) fut + ('w, 'a) fut \<Rightarrow> ('w, 'a) fut" where
  "fut_either (Inl f) = f"
| "fut_either (Inr f) = f"

text \<open>
  \<open>join_all\<close> drives its futures concurrently and collects their outputs in the order the
  futures were given. The order in which they complete belongs to the executor: it is the
  argument \<open>sched\<close>, a list of indices; an index that never occurs is a future that is
  never completed.
\<close>

fun run_sched :: "nat list \<Rightarrow> ('w, 'a) fut list \<Rightarrow> 'a option list \<Rightarrow> 'w \<Rightarrow> ('a option list \<times> 'w) option" where
  "run_sched [] fs slots w = Some (slots, w)"
| "run_sched (i # is) fs slots w =
     (if i < length fs then
        (case (fs ! i) w of
           None \<Rightarrow> None
         | Some (a, w') \<Rightarrow> run_sched is fs (slots[i := Some a]) w')
      else run_sched is fs slots w)"

definition join_all :: "nat list \<Rightarrow> ('w, 'a) fut list \<Rightarrow> ('w, 'a list) fut" where
  "join_all sched fs = (\<lambda>w.
     case run_sched sched fs (replicate (length fs) None) w of
       None \<Rightarrow> None
     | Some (slots, w') \<Rightarrow> (if None \<in> set slots then None else Some (map the slots, w')))"

definition resolves :: "('w, 'a) fut \<Rightarrow> bool" where
  "resolves f \<longleftrightarrow> (\<forall>w. f w \<noteq> None)"

definition yields :: "('w, 'a) fut \<Rightarrow> ('a \<Rightarrow> bool) \<Rightarrow> bool" where
  "yields f P \<longleftrightarrow> (\<forall>w a w'. f w = Some (a, w') \<longrightarrow> P a)"

lemma fut_ready_apply [simp, fut_simps]: "fut_ready a w = Some (a, w)"
  by (simp add: fut_ready_def)

lemma fut_map_apply [fut_simps]:
  "fut_map f m w = (case m w of None \<Rightarrow> None | Some (a, w') \<Rightarrow> Some (f a, w'))"
  by (simp add: fut_map_def)

lemma fut_map_ready [simp, fut_simps]: "fut_map f (fut_ready a) = fut_ready (f a)"
  by (simp add: fut_map_def fut_ready_def)

lemma fut_map_map [simp, fut_simps]: "fut_map f (fut_map g m) = fut_map (\<lambda>a. f (g a)) m"
  by (rule ext) (simp add: fut_map_def split: option.splits prod.splits)

lemma fut_either_inverse [simp]:
  "fut_either (case_sum (\<lambda>f. Inl (h f)) (\<lambda>f. Inr (h f)) e) = h (fut_either e)"
  by (cases e) simp_all

lemma resolves_ready [simp, intro]: "resolves (fut_ready a)"
  by (simp add: resolves_def)

lemma resolves_map [simp]: "resolves (fut_map f m) = resolves m"
  by (auto simp: resolves_def fut_map_def split: option.splits prod.splits)

lemma yields_ready [simp]: "yields (fut_ready a) P = P a"
  by (simp add: yields_def)

lemma yields_map [simp]: "yields (fut_map f m) P = yields m (\<lambda>a. P (f a))"
  by (auto simp: yields_def fut_map_def split: option.splits prod.splits)

lemma yields_True [simp]: "yields f (\<lambda>_. True)"
  by (simp add: yields_def)

text \<open>A future that always gives a value, and one with a property.\<close>

definition surely :: "('w, 'a) fut \<Rightarrow> ('a \<Rightarrow> bool) \<Rightarrow> bool" where
  "surely f P \<longleftrightarrow> resolves f \<and> yields f P"

lemma surely_simps [simp]:
  "surely (fut_ready a) P = P a"
  "surely (fut_map g f) P = surely f (\<lambda>a. P (g a))"
  by (simp_all add: surely_def)

text \<open>A future whose run relates the worlds before and after it.\<close>

definition keeps :: "('w, 'a) fut \<Rightarrow> ('w \<Rightarrow> 'w \<Rightarrow> bool) \<Rightarrow> bool" where
  "keeps f Q \<longleftrightarrow> (\<forall>w a w'. f w = Some (a, w') \<longrightarrow> Q w w')"

lemma keeps_simps [simp]:
  "keeps (fut_ready a) Q \<longleftrightarrow> (\<forall>w. Q w w)" "keeps (fut_map g f) Q = keeps f Q"
  by (auto simp: keeps_def fut_map_def split: option.splits prod.splits)

lemma surelyD: "surely f P \<Longrightarrow> \<exists>a w'. f w = Some (a, w') \<and> P a"
  unfolding surely_def resolves_def yields_def by (metis not_Some_eq surj_pair)

lemma surely_mono: "surely f P \<Longrightarrow> (\<And>a. P a \<Longrightarrow> Q a) \<Longrightarrow> surely f Q"
  by (auto simp: surely_def yields_def)

text \<open>Whatever the completion order, slot \<open>i\<close> receives an output of future \<open>i\<close>.\<close>

lemma run_sched_slots:
  assumes "\<forall>f \<in> set fs. resolves f" and "length slots = length fs"
  shows "\<exists>slots' w'. run_sched is fs slots w = Some (slots', w') \<and> length slots' = length fs \<and>
    (\<forall>i < length fs. if i \<in> set is then \<exists>a w1 w2. slots' ! i = Some a \<and> (fs ! i) w1 = Some (a, w2)
                     else slots' ! i = slots ! i)"
  using assms(2)
proof (induction "is" arbitrary: slots w)
  case Nil
  then show ?case by simp
next
  case (Cons j js)
  show ?case
  proof (cases "j < length fs")
    case True
    then have "resolves (fs ! j)" using assms(1) by simp
    then obtain a w1 where a: "(fs ! j) w = Some (a, w1)"
      unfolding resolves_def by (metis option.exhaust surj_pair)
    from Cons.prems have "length (slots[j := Some a]) = length fs" by simp
    from Cons.IH [OF this, of w1] obtain slots' w' where
      r: "run_sched js fs (slots[j := Some a]) w1 = Some (slots', w')" "length slots' = length fs"
      and s: "\<forall>i < length fs. if i \<in> set js then \<exists>a w1 w2. slots' ! i = Some a \<and> (fs ! i) w1 = Some (a, w2)
                     else slots' ! i = slots[j := Some a] ! i"
      by blast
    have "\<forall>i < length fs. if i \<in> set (j # js) then \<exists>a w1 w2. slots' ! i = Some a \<and> (fs ! i) w1 = Some (a, w2)
                     else slots' ! i = slots ! i"
    proof (intro allI impI)
      fix i assume i: "i < length fs"
      show "if i \<in> set (j # js) then \<exists>a w1 w2. slots' ! i = Some a \<and> (fs ! i) w1 = Some (a, w2)
            else slots' ! i = slots ! i"
        using s i a Cons.prems by (cases "i \<in> set js"; cases "i = j") auto
    qed
    with True a r show ?thesis by auto
  next
    case False
    with Cons.IH [OF Cons.prems, of w] show ?thesis by auto
  qed
qed

lemma join_all_outputs:
  assumes res: "\<forall>f \<in> set fs. resolves f" and sched: "set sched \<supseteq> {0..<length fs}"
  shows "\<exists>outs w'. join_all sched fs w = Some (outs, w') \<and> length outs = length fs \<and>
    (\<forall>i < length fs. \<exists>w1 w2. (fs ! i) w1 = Some (outs ! i, w2))"
proof -
  obtain slots' w' where r: "run_sched sched fs (replicate (length fs) None) w = Some (slots', w')"
    and len: "length slots' = length fs"
    and sl: "\<forall>i < length fs. if i \<in> set sched then \<exists>a w1 w2. slots' ! i = Some a \<and> (fs ! i) w1 = Some (a, w2)
              else slots' ! i = replicate (length fs) None ! i"
    using run_sched_slots [OF res, of "replicate (length fs) None" sched w] by auto
  have filled: "\<forall>i < length fs. \<exists>a w1 w2. slots' ! i = Some a \<and> (fs ! i) w1 = Some (a, w2)"
    using sl sched by (metis (full_types) atLeastLessThan_iff le0 subsetD)
  then have "None \<notin> set slots'"
    using len by (metis in_set_conv_nth option.distinct(1))
  moreover have "\<forall>i < length fs. \<exists>w1 w2. (fs ! i) w1 = Some (map the slots' ! i, w2)"
    using filled len by fastforce
  ultimately show ?thesis
    using r len by (auto simp: join_all_def)
qed

lemma join_all_surely:
  assumes "list_all2 (\<lambda>f x. surely f (P x)) fs xs" and "{0..<length fs} \<subseteq> set sched"
  shows "surely (join_all sched fs) (\<lambda>outs. list_all2 P xs outs)"
proof -
  have len: "length fs = length xs" and each: "\<forall>i<length fs. surely (fs ! i) (P (xs ! i))"
    using assms(1) by (simp_all add: list_all2_conv_all_nth)
  have "\<forall>f\<in>set fs. resolves f" using each by (auto simp: in_set_conv_nth surely_def)
  note out = join_all_outputs [OF this assms(2)]
  have "P (xs ! i) a" if "i < length fs" "(fs ! i) u = Some (a, v)" for i u a v
    using each that by (auto simp: surely_def yields_def)
  then have "list_all2 P xs outs" if "join_all sched fs w = Some (outs, w')" for outs w w'
    using out [of w] that len by (auto simp: list_all2_conv_all_nth)
  then show ?thesis using out by (fastforce simp: surely_def resolves_def yields_def)
qed

section \<open>Hash maps with an observable iteration order\<close>

text \<open>
  A \<open>HashMap\<close> that the code iterates over is an association list; the order of the list
  stands for the iteration order, which the language leaves open.
\<close>

type_synonym ('k, 'v) hash_map = "('k \<times> 'v) list"

definition hm_insert :: "'k \<Rightarrow> 'v \<Rightarrow> ('k, 'v) hash_map \<Rightarrow> 'v option \<times> ('k, 'v) hash_map" where
  "hm_insert k v m = (map_of m k, AList.update k v m)"

definition hm_remove :: "'k \<Rightarrow> ('k, 'v) hash_map \<Rightarrow> 'v option \<times> ('k, 'v) hash_map" where
  "hm_remove k m = (map_of m k, AList.delete k m)"

definition hm_wf :: "('k, 'v) hash_map \<Rightarrow> bool" where
  "hm_wf m \<longleftrightarrow> distinct (map fst m)"

lemma hm_insert_fst [simp, hm_simps]: "fst (hm_insert k v m) = map_of m k"
  by (simp add: hm_insert_def)

lemma hm_insert_map_of [simp, hm_simps]: "map_of (snd (hm_insert k v m)) = (map_of m)(k \<mapsto> v)"
  by (simp add: hm_insert_def update_conv')

lemma hm_insert_wf [simp, intro]: "hm_wf m \<Longrightarrow> hm_wf (snd (hm_insert k v m))"
  by (simp add: hm_insert_def hm_wf_def distinct_update)

lemma hm_remove_fst [simp, hm_simps]: "fst (hm_remove k m) = map_of m k"
  by (simp add: hm_remove_def)

lemma hm_remove_map_of [simp, hm_simps]: "map_of (snd (hm_remove k m)) = (map_of m)(k := None)"
  by (simp add: hm_remove_def delete_conv')

lemma hm_remove_wf [simp, intro]: "hm_wf m \<Longrightarrow> hm_wf (snd (hm_remove k m))"
  by (simp add: hm_remove_def hm_wf_def distinct_delete)

lemma hm_wf_Nil [simp, intro]: "hm_wf []"
  by (simp add: hm_wf_def)

lemma hm_wf_lookup: "hm_wf m \<Longrightarrow> (k, v) \<in> set m \<longleftrightarrow> map_of m k = Some v"
  by (simp add: hm_wf_def)

section \<open>Keyed stores\<close>

text \<open>
  The contract of a table that is filled by inserting under a key: method tables and maps of
  pending work. What a sequence of insertions leaves under a key is the last value inserted.
\<close>

locale keyed_store =
  fixes put :: "'s \<Rightarrow> 'k \<Rightarrow> 'v \<Rightarrow> 's"
    and look :: "'s \<Rightarrow> 'k \<Rightarrow> 'v option"
  assumes look_put: "look (put s k v) k' = (if k' = k then Some v else look s k')"
begin

lemma look_foldl:
  "look (foldl (\<lambda>s (k, v). put s k v) s kvs) k =
     (case map_of (rev kvs) k of Some v \<Rightarrow> Some v | None \<Rightarrow> look s k)"
proof (induction kvs arbitrary: s)
  case (Cons kv kvs)
  then show ?case by (cases kv) (simp add: look_put map_add_def split: option.splits)
qed simp

lemma look_foldl_map: "look (foldl (\<lambda>s (k, v). put s k v) s kvs) = look s ++ map_of (rev kvs)"
  by (rule ext) (simp add: look_foldl map_add_def split: option.splits)

end

interpretation hm: keyed_store "\<lambda>m k v. snd (hm_insert k v m)" map_of
  by unfold_locales simp

section \<open>Sources of ids\<close>

text \<open>
  The contract of a counter that hands out ids: a 64-bit word that is incremented, with
  wrap-around, on every draw, and an injective conversion to ids. What it promises is that
  \<open>2 ^ 64\<close> draws in a row are pairwise different.
\<close>

fun draw :: "nat \<Rightarrow> ('s \<Rightarrow> 'i \<times> 's) \<Rightarrow> 's \<Rightarrow> 'i list \<times> 's" where
  "draw 0 nxt s = ([], s)"
| "draw (Suc n) nxt s = (let (i, s1) = nxt s; (is, s2) = draw n nxt s1 in (i # is, s2))"

locale id_source =
  fixes nxt :: "'s \<Rightarrow> 'i \<times> 's"
    and counter :: "'s \<Rightarrow> u64"
    and mk :: "u64 \<Rightarrow> 'i"
  assumes nxt_id: "fst (nxt s) = mk (counter s)"
    and nxt_counter: "counter (snd (nxt s)) = counter s + 1"
    and mk_inj: "inj mk"
begin

lemma draw_ids: "fst (draw n nxt s) = map (\<lambda>k. mk (counter s + of_nat k)) [0..<n]"
proof (induction n arbitrary: s)
  case (Suc n)
  have "fst (draw (Suc n) nxt s) = mk (counter s) # map (\<lambda>k. mk (counter s + 1 + of_nat k)) [0..<n]"
    using Suc [of "snd (nxt s)"] by (simp add: case_prod_beta nxt_id nxt_counter Let_def)
  also have "\<dots> = map (\<lambda>k. mk (counter s + of_nat k)) (0 # map Suc [0..<n])"
    by (simp add: add.assoc)
  also have "0 # map Suc [0..<n] = [0..<Suc n]" by (simp add: map_Suc_upt upt_conv_Cons del: upt_Suc)
  finally show ?case .
qed simp

lemma draw_distinct:
  assumes "n \<le> 2 ^ 64"
  shows "distinct (fst (draw n nxt s))"
proof -
  have "inj_on (\<lambda>k. mk (counter s + of_nat k)) (set [0..<n])"
  proof (rule inj_onI)
    fix j k assume jk: "j \<in> set [0..<n]" "k \<in> set [0..<n]" "mk (counter s + of_nat j) = mk (counter s + of_nat k)"
    then have "(of_nat j :: u64) = of_nat k" using mk_inj by (simp add: inj_eq)
    then have "take_bit 64 j = take_bit 64 k" by (simp add: word_of_nat_eq_iff)
    then have "j mod 2 ^ 64 = k mod 2 ^ 64" by (simp only: take_bit_eq_mod)
    with jk(1,2) assms show "j = k" by simp
  qed
  then show ?thesis by (simp add: draw_ids distinct_map)
qed

end

section \<open>Session statistics\<close>

text \<open>The observer of sessions (\<open>server-utils/src/session.rs\<close>) that the WebSocket and IPC servers
  notify, acting on the environment.\<close>

record 'u session_stats =
  open_session :: "u64 \<Rightarrow> 'u \<Rightarrow> 'u"
  close_session :: "u64 \<Rightarrow> 'u \<Rightarrow> 'u"

section \<open>Invariants of step relations\<close>

text \<open>
  The states a machine reaches from its start, and the argument that a property every
  step keeps holds in all of them. Components with a state machine interpret this locale.
\<close>

inductive reaches :: "('s \<Rightarrow> 's \<Rightarrow> bool) \<Rightarrow> 's \<Rightarrow> 's \<Rightarrow> bool" for step where
  reaches_refl: "reaches step s s"
| reaches_step: "reaches step s t \<Longrightarrow> step t u \<Longrightarrow> reaches step s u"

lemma reaches_one: "step s t \<Longrightarrow> reaches step s t"
  using reaches_step [OF reaches_refl] .

lemma reaches_trans: "reaches step s t \<Longrightarrow> reaches step t u \<Longrightarrow> reaches step s u"
  by (rotate_tac 1, induction rule: reaches.induct) (auto intro: reaches_step)

locale invariant_system =
  fixes start :: "'s \<Rightarrow> bool"
    and step :: "'s \<Rightarrow> 's \<Rightarrow> bool"
    and inv :: "'s \<Rightarrow> bool"
  assumes inv_start: "start s \<Longrightarrow> inv s"
    and inv_step: "inv s \<Longrightarrow> step s t \<Longrightarrow> inv t"
begin

lemma inv_reaches: "inv s \<Longrightarrow> reaches step s t \<Longrightarrow> inv t"
  by (rotate_tac 1, induction rule: reaches.induct) (auto intro: inv_step)

lemma inv_reachable: "start s \<Longrightarrow> reaches step s t \<Longrightarrow> inv t"
  by (blast intro: inv_start inv_reaches)

end

text \<open>
  A machine whose steps use up a weight and that can always step until its work is done: every run
  from a state is shorter than the weight of the state, and some run gets the work done; a run
  that cannot be continued has got it done.
\<close>

locale progress_system =
  fixes step :: "'s \<Rightarrow> 's \<Rightarrow> bool"
    and finished :: "'s \<Rightarrow> bool"
    and weight :: "'s \<Rightarrow> nat"
    and ok :: "'s \<Rightarrow> bool"
  assumes weight_step: "step s t \<Longrightarrow> weight t < weight s"
    and enabled: "ok s \<Longrightarrow> \<not> finished s \<Longrightarrow> \<exists>t. step s t"
    and ok_step: "ok s \<Longrightarrow> step s t \<Longrightarrow> ok t"
begin

lemma run_bounded: "(step ^^ n) s t \<Longrightarrow> n + weight t \<le> weight s"
proof (induction n arbitrary: t)
  case (Suc n)
  then obtain u where "(step ^^ n) s u" "step u t" by auto
  then show ?case using Suc.IH [of u] weight_step [of u t] by simp
qed simp

lemma stuck_finished: "ok s \<Longrightarrow> (\<And>t. \<not> step s t) \<Longrightarrow> finished s"
  using enabled by blast

lemma ok_reaches: "ok s \<Longrightarrow> reaches step s t \<Longrightarrow> ok t"
  by (rotate_tac 1, induction rule: reaches.induct) (auto intro: ok_step)

lemma gets_finished: "ok s \<Longrightarrow> \<exists>t. reaches step s t \<and> finished t"
proof (induction "weight s" arbitrary: s rule: less_induct)
  case less
  show ?case
  proof (cases "finished s")
    case False
    then obtain t where t: "step s t" using enabled less.prems by blast
    then obtain u where "reaches step t u" "finished u" using less ok_step weight_step by blast
    moreover from this(1) have "reaches step s u" using t by (blast intro: reaches_one reaches_trans)
    ultimately show ?thesis by blast
  qed (blast intro: reaches_refl)
qed

end

lemma mset_remove_nth: "i < length xs \<Longrightarrow> mset xs = add_mset (xs ! i) (mset (take i xs @ drop (Suc i) xs))"
  by (metis id_take_nth_drop mset.simps(2) mset_append union_mset_add_mset_right)

section \<open>Strings\<close>

definition is_prefix :: "string \<Rightarrow> string \<Rightarrow> bool" where
  "is_prefix p s \<longleftrightarrow> take (length p) s = p"

lemma is_prefix_shorter: "p \<noteq> [] \<Longrightarrow> is_prefix p s \<Longrightarrow> length s - length p < length s"
  by (cases s; cases p) (auto simp: is_prefix_def)

text \<open>\<open>str::split\<close> with a string pattern: the pieces between the matches, left to right.\<close>

function split_go :: "string \<Rightarrow> string \<Rightarrow> string \<Rightarrow> string list" where
  "split_go pat acc s =
     (if pat \<noteq> [] \<and> is_prefix pat s then rev acc # split_go pat [] (drop (length pat) s)
      else (case s of [] \<Rightarrow> [rev acc] | c # cs \<Rightarrow> split_go pat (c # acc) cs))"
  by pat_completeness auto
termination
  by (relation "measure (\<lambda>(pat, acc, s). length s)") (auto simp: is_prefix_shorter)

declare split_go.simps [simp del]

definition split_str :: "string \<Rightarrow> string \<Rightarrow> string list" where
  "split_str pat s = split_go pat [] s"

fun split_char :: "char \<Rightarrow> string \<Rightarrow> string list" where
  "split_char c [] = [[]]"
| "split_char c (x # xs) =
     (if x = c then [] # split_char c xs
      else (case split_char c xs of [] \<Rightarrow> [[x]] | p # ps \<Rightarrow> (x # p) # ps))"

text \<open>Lower case on the bytes of a text: on ASCII, which hosts, origins and header names are, it is
  \<open>str::to_lowercase\<close>; other letters are left as they are.\<close>

definition lower_char :: "char \<Rightarrow> char" where
  "lower_char c = (if 65 \<le> (of_char c :: nat) \<and> (of_char c :: nat) \<le> 90 then char_of ((of_char c :: nat) + 32) else c)"

definition to_lowercase :: "string \<Rightarrow> string" where
  "to_lowercase s = map lower_char s"

definition eq_ignore_ascii_case :: "string \<Rightarrow> string \<Rightarrow> bool" where
  "eq_ignore_ascii_case s t \<longleftrightarrow> to_lowercase s = to_lowercase t"

definition ends_with :: "string \<Rightarrow> string \<Rightarrow> bool" where
  "ends_with s suf \<longleftrightarrow> is_prefix (rev suf) (rev s)"

fun join_str :: "string \<Rightarrow> string list \<Rightarrow> string" where
  "join_str sep [] = []"
| "join_str sep [s] = s"
| "join_str sep (s # t # ts) = s @ sep @ join_str sep (t # ts)"

lemma split_char_nonempty [simp]: "split_char c s \<noteq> []"
  by (cases s) (auto split: list.splits)

lemma split_char_absent: "c \<notin> set s \<Longrightarrow> split_char c s = [s]"
  by (induction s) auto

lemma split_char_pieces: "p \<in> set (split_char c s) \<Longrightarrow> c \<notin> set p"
  by (induction s arbitrary: p) (auto split: if_splits list.splits)

lemma split_char_piece_set: "p \<in> set (split_char c s) \<Longrightarrow> set p \<subseteq> set s"
proof (induction s arbitrary: p)
  case (Cons x xs)
  then show ?case by (fastforce split: if_splits list.splits)
qed simp

lemma split_char_append:
  "c \<notin> set s \<Longrightarrow> split_char c (s @ c # t) = s # split_char c t"
  by (induction s) auto

lemma lower_char_idem [simp]: "lower_char (lower_char c) = lower_char c"
proof (cases "65 \<le> (of_char c :: nat) \<and> (of_char c :: nat) \<le> 90")
  case True
  then have "(of_char c :: nat) + 32 < 256" by simp
  then have "(of_char (char_of ((of_char c :: nat) + 32)) :: nat) = of_char c + 32"
    by simp
  with True show ?thesis by (simp add: lower_char_def)
next
  case False
  then show ?thesis by (auto simp: lower_char_def)
qed

lemma to_lowercase_idem [simp]: "to_lowercase (to_lowercase s) = to_lowercase s"
  by (simp add: to_lowercase_def)

lemma to_lowercase_append [simp]: "to_lowercase (s @ t) = to_lowercase s @ to_lowercase t"
  by (simp add: to_lowercase_def)

lemma to_lowercase_Nil [simp]: "to_lowercase [] = []"
  by (simp add: to_lowercase_def)

lemma eq_ignore_ascii_case_refl [simp]: "eq_ignore_ascii_case s s"
  by (simp add: eq_ignore_ascii_case_def)

text \<open>Decimal text of an unsigned integer, and \<open>str::parse::<u16>\<close>.\<close>

definition digit_char :: "nat \<Rightarrow> char" where
  "digit_char d = char_of (48 + d)"

fun dec_of_nat :: "nat \<Rightarrow> string" where
  "dec_of_nat n = (if n < 10 then [digit_char n] else dec_of_nat (n div 10) @ [digit_char (n mod 10)])"

declare dec_of_nat.simps [simp del]

definition is_digit :: "char \<Rightarrow> bool" where
  "is_digit c \<longleftrightarrow> 48 \<le> (of_char c :: nat) \<and> (of_char c :: nat) \<le> 57"

definition digit_val :: "char \<Rightarrow> nat" where
  "digit_val c = of_char c - 48"

definition nat_of_dec :: "string \<Rightarrow> nat" where
  "nat_of_dec s = foldl (\<lambda>a c. a * 10 + digit_val c) 0 s"

definition parse_u16 :: "string \<Rightarrow> u16 option" where
  "parse_u16 s =
     (let ds = (case s of [] \<Rightarrow> [] | c # cs \<Rightarrow> if c = CHR ''+'' then cs else s)
      in if ds = [] \<or> \<not> list_all is_digit ds then None
         else if nat_of_dec ds < 65536 then Some (of_nat (nat_of_dec ds)) else None)"

lemma of_char_digit [simp]: "d < 10 \<Longrightarrow> (of_char (digit_char d) :: nat) = 48 + d"
  by (simp add: digit_char_def)

lemma is_digit_digit_char [simp]: "d < 10 \<Longrightarrow> is_digit (digit_char d)"
  by (simp add: is_digit_def)

lemma digit_val_digit_char [simp]: "d < 10 \<Longrightarrow> digit_val (digit_char d) = d"
  by (simp add: digit_val_def)

lemma nat_of_dec_snoc [simp]: "nat_of_dec (s @ [c]) = nat_of_dec s * 10 + digit_val c"
  by (simp add: nat_of_dec_def)

lemma nat_of_dec_of_nat [simp]: "nat_of_dec (dec_of_nat n) = n"
proof (induction n rule: dec_of_nat.induct)
  case (1 n)
  then show ?case
    by (cases "n < 10") (simp_all add: dec_of_nat.simps [of n] nat_of_dec_def [of "[_]"])
qed

lemma dec_of_nat_digits [simp]: "list_all is_digit (dec_of_nat n)"
proof (induction n rule: dec_of_nat.induct)
  case (1 n)
  then show ?case
    by (cases "n < 10") (simp_all add: dec_of_nat.simps [of n])
qed

lemma dec_of_nat_nonempty [simp]: "dec_of_nat n \<noteq> []"
  by (subst dec_of_nat.simps) simp

lemma digit_not_plus: "is_digit c \<Longrightarrow> c \<noteq> CHR ''+''"
  by (auto simp: is_digit_def)

lemma parse_u16_dec [simp]: "n < 65536 \<Longrightarrow> parse_u16 (dec_of_nat n) = Some (of_nat n)"
proof -
  assume n: "n < 65536"
  obtain c cs where c: "dec_of_nat n = c # cs" by (cases "dec_of_nat n") auto
  then have "is_digit c" using dec_of_nat_digits [of n] by simp
  then have "c \<noteq> CHR ''+''" by (rule digit_not_plus)
  then show ?thesis
    using n nat_of_dec_of_nat [of n] dec_of_nat_digits [of n]
    by (simp add: parse_u16_def c Let_def del: nat_of_dec_of_nat dec_of_nat_digits)
qed

lemma lower_char_digit: "is_digit c \<Longrightarrow> lower_char c = c"
  by (auto simp: is_digit_def lower_char_def)

lemma to_lowercase_dec [simp]: "to_lowercase (dec_of_nat n) = dec_of_nat n"
  using dec_of_nat_digits [of n]
  by (auto simp: to_lowercase_def list_all_iff intro!: map_idI lower_char_digit)

end
