(* ===== verification/Core_Types.thy ===== *)
theory Core_Types
  imports Prelude
begin

text \<open>
  The JSON-RPC data model of \<open>core/src/types\<close>: error codes and errors, request ids,
  protocol version, parameters, calls, requests, outputs and responses, with the
  constructors and accessors the sources give them.

  A JSON value has the constructors of \<open>serde_json::Value\<close> that the sources match on.
  The payload of a number is the type parameter \<open>'n\<close>: \<open>serde_json::Number\<close> is not
  part of the repository, and the sources only ask it for \<open>as_u64\<close>, which is an
  argument of the definitions that need it. A JSON object is a finite map; the order of
  its members is not observable in the sources.
\<close>

section \<open>JSON values\<close>

datatype 'n json =
    VNull
  | VBool bool
  | VNumber 'n
  | VString string
  | VArray "'n json list"
  | VObject "(string, 'n json) fmap"

section \<open>Errors\<close>

datatype error_code =
    ParseError
  | InvalidRequest
  | MethodNotFound
  | InvalidParams
  | InternalError
  | ServerError i64

fun ec_code :: "error_code \<Rightarrow> i64" where
  "ec_code ParseError = -32700"
| "ec_code InvalidRequest = -32600"
| "ec_code MethodNotFound = -32601"
| "ec_code InvalidParams = -32602"
| "ec_code InternalError = -32603"
| "ec_code (ServerError c) = c"

fun ec_description :: "error_code \<Rightarrow> string" where
  "ec_description ParseError = ''Parse error''"
| "ec_description InvalidRequest = ''Invalid request''"
| "ec_description MethodNotFound = ''Method not found''"
| "ec_description InvalidParams = ''Invalid params''"
| "ec_description InternalError = ''Internal error''"
| "ec_description (ServerError _) = ''Server error''"

definition ec_from :: "i64 \<Rightarrow> error_code" where
  "ec_from c =
     (if c = -32700 then ParseError
      else if c = -32600 then InvalidRequest
      else if c = -32601 then MethodNotFound
      else if c = -32602 then InvalidParams
      else if c = -32603 then InternalError
      else ServerError c)"

record 'n rpc_error =
  err_code :: error_code
  err_message :: string
  err_data :: "'n json option"

definition error_new :: "error_code \<Rightarrow> 'n rpc_error" where
  "error_new c = \<lparr>err_code = c, err_message = ec_description c, err_data = None\<rparr>"

definition parse_error :: "'n rpc_error" where
  "parse_error = error_new ParseError"

definition invalid_request :: "'n rpc_error" where
  "invalid_request = error_new InvalidRequest"

definition method_not_found :: "'n rpc_error" where
  "method_not_found = error_new MethodNotFound"

definition invalid_params :: "string \<Rightarrow> 'n rpc_error" where
  "invalid_params msg = \<lparr>err_code = InvalidParams, err_message = msg, err_data = None\<rparr>"

text \<open>\<open>debug\<close> is the derived \<open>Debug\<close> text of the details.\<close>

definition invalid_params_with_details :: "string \<Rightarrow> string \<Rightarrow> 'n rpc_error" where
  "invalid_params_with_details msg debug =
     \<lparr>err_code = InvalidParams, err_message = ''Invalid parameters: '' @ msg,
      err_data = Some (VString debug)\<rparr>"

definition internal_error :: "'n rpc_error" where
  "internal_error = error_new InternalError"

definition invalid_version :: "'n rpc_error" where
  "invalid_version =
     \<lparr>err_code = InvalidRequest, err_message = ''Unsupported JSON-RPC protocol version'', err_data = None\<rparr>"

definition error_display :: "'n rpc_error \<Rightarrow> string" where
  "error_display e = ec_description (err_code e) @ '': '' @ err_message e"

section \<open>Ids, versions, parameters\<close>

datatype id = IdNull | IdNum u64 | IdStr string

datatype version = V2

datatype 'n params =
    ParamsNone
  | ParamsArray "'n json list"
  | ParamsMap "(string, 'n json) fmap"

fun params_into_json :: "'n params \<Rightarrow> 'n json" where
  "params_into_json (ParamsArray vec) = VArray vec"
| "params_into_json (ParamsMap m) = VObject m"
| "params_into_json ParamsNone = VNull"

text \<open>\<open>from_value\<close> is the deserializer of the expected type; its error is its display text.\<close>

definition params_parse :: "('n json \<Rightarrow> ('d, string) result) \<Rightarrow> 'n params \<Rightarrow> ('d, 'n rpc_error) result" where
  "params_parse from_value p =
     map_err (\<lambda>e. invalid_params (''Invalid params: '' @ e @ ''.'')) (from_value (params_into_json p))"

fun expect_no_params :: "('n params \<Rightarrow> string) \<Rightarrow> 'n params \<Rightarrow> (unit, 'n rpc_error) result" where
  "expect_no_params debug ParamsNone = Ok ()"
| "expect_no_params debug (ParamsArray []) = Ok ()"
| "expect_no_params debug p = Err (invalid_params_with_details ''No parameters were expected'' (debug p))"

section \<open>Requests\<close>

record 'n method_call =
  mc_jsonrpc :: "version option"
  mc_method :: string
  mc_params :: "'n params"
  mc_id :: id

record 'n notification =
  nt_jsonrpc :: "version option"
  nt_method :: string
  nt_params :: "'n params"

datatype 'n call =
    MethodCall "'n method_call"
  | Notification "'n notification"
  | Invalid id

datatype 'n request = SingleRequest "'n call" | BatchRequest "'n call list"

section \<open>Responses\<close>

record 'n success =
  su_jsonrpc :: "version option"
  su_result :: "'n json"
  su_id :: id

record 'n failure =
  fa_jsonrpc :: "version option"
  fa_error :: "'n rpc_error"
  fa_id :: id

datatype 'n rpc_output = Success "'n success" | Failure "'n failure"

fun output_from :: "('n json, 'n rpc_error) result \<Rightarrow> id \<Rightarrow> version option \<Rightarrow> 'n rpc_output" where
  "output_from (Ok r) i v = Success \<lparr>su_jsonrpc = v, su_result = r, su_id = i\<rparr>"
| "output_from (Err e) i v = Failure \<lparr>fa_jsonrpc = v, fa_error = e, fa_id = i\<rparr>"

definition output_invalid_request :: "id \<Rightarrow> version option \<Rightarrow> 'n rpc_output" where
  "output_invalid_request i v =
     Failure \<lparr>fa_jsonrpc = v, fa_error = error_new InvalidRequest, fa_id = i\<rparr>"

fun output_version :: "'n rpc_output \<Rightarrow> version option" where
  "output_version (Success s) = su_jsonrpc s"
| "output_version (Failure f) = fa_jsonrpc f"

fun output_id :: "'n rpc_output \<Rightarrow> id" where
  "output_id (Success s) = su_id s"
| "output_id (Failure f) = fa_id f"

fun output_into_result :: "'n rpc_output \<Rightarrow> ('n json, 'n rpc_error) result" where
  "output_into_result (Success s) = Ok (su_result s)"
| "output_into_result (Failure f) = Err (fa_error f)"

datatype 'n response = SingleResponse "'n rpc_output" | BatchResponse "'n rpc_output list"

definition response_from :: "'n rpc_error \<Rightarrow> version option \<Rightarrow> 'n response" where
  "response_from e v = SingleResponse (Failure \<lparr>fa_jsonrpc = v, fa_error = e, fa_id = IdNull\<rparr>)"

definition response_from_json ::
    "(string \<Rightarrow> ('n response, 'e) result) \<Rightarrow> string \<Rightarrow> ('n response, 'e) result" where
  "response_from_json serde_from_str s =
     (if s = [] then Ok (BatchResponse []) else serde_from_str s)"

lemma output_from_id [simp]: "output_id (output_from r i v) = i"
  by (cases r) simp_all

lemma output_from_version [simp]: "output_version (output_from r i v) = v"
  by (cases r) simp_all

lemma output_into_from [simp]: "output_into_result (output_from r i v) = r"
  by (cases r) simp_all

lemma output_invalid_request_id [simp]:
  "output_id (output_invalid_request i v) = i"
  "output_version (output_invalid_request i v) = v"
  by (simp_all add: output_invalid_request_def)

lemma ec_code_from: "ec_code (ec_from c) = c"
  by (simp add: ec_from_def)

lemma ec_from_code: "(\<And>c. e \<noteq> ServerError c) \<Longrightarrow> ec_from (ec_code e) = e"
  by (cases e) (simp_all add: ec_from_def)

end
