(* ===== verification/Core_Wire.thy ===== *)
theory Core_Wire
  imports Core_Types
begin

text \<open>
  The JSON form of requests and responses as the \<open>serde\<close> attributes of
  \<open>core/src/types\<close> declare it, on JSON values: which member carries which field,
  which members may be absent (an \<open>Option\<close> field, a \<open>default\<close>), which objects are
  rejected for an unknown member (\<open>deny_unknown_fields\<close>), and the order in which the
  variants of an \<open>untagged\<close> enum are tried. A derived deserializer reads a struct from an
  array of its fields as well; a field with a default may be missing at the end of the array.
  The text of a JSON document belongs to the serializer and is not modelled.

  \<open>as_u64\<close>, \<open>as_i64\<close>, \<open>from_u64\<close> and \<open>from_i64\<close> are the conversions of the JSON
  number type; the round trips rest on the hypotheses that reading back a number written
  from an integer gives that integer.
\<close>

section \<open>Leaves\<close>

fun de_version :: "'n json \<Rightarrow> version option" where
  "de_version (VString s) = (if s = ''2.0'' then Some V2 else None)"
| "de_version _ = None"

fun se_version :: "version \<Rightarrow> 'n json" where
  "se_version V2 = VString ''2.0''"

text \<open>An \<open>Option\<close> field: an absent member and \<open>null\<close> are both \<open>None\<close>.\<close>

fun de_option :: "('n json \<Rightarrow> 'a option) \<Rightarrow> 'n json option \<Rightarrow> 'a option option" where
  "de_option de None = Some None"
| "de_option de (Some VNull) = Some None"
| "de_option de (Some v) = map_option Some (de v)"

fun se_option :: "('a \<Rightarrow> 'n json) \<Rightarrow> 'a option \<Rightarrow> 'n json" where
  "se_option se None = VNull"
| "se_option se (Some a) = se a"

fun de_id :: "('n \<Rightarrow> u64 option) \<Rightarrow> 'n json \<Rightarrow> id option" where
  "de_id as_u64 VNull = Some IdNull"
| "de_id as_u64 (VNumber n) = map_option IdNum (as_u64 n)"
| "de_id as_u64 (VString s) = Some (IdStr s)"
| "de_id as_u64 _ = None"

fun se_id :: "(u64 \<Rightarrow> 'n) \<Rightarrow> id \<Rightarrow> 'n json" where
  "se_id from_u64 IdNull = VNull"
| "se_id from_u64 (IdNum n) = VNumber (from_u64 n)"
| "se_id from_u64 (IdStr s) = VString s"

fun de_string :: "'n json \<Rightarrow> string option" where
  "de_string (VString s) = Some s"
| "de_string _ = None"

fun de_params :: "'n json \<Rightarrow> 'n params option" where
  "de_params VNull = Some ParamsNone"
| "de_params (VArray xs) = Some (ParamsArray xs)"
| "de_params (VObject m) = Some (ParamsMap m)"
| "de_params _ = None"

definition se_params :: "'n params \<Rightarrow> 'n json" where
  "se_params p = params_into_json p"

section \<open>Calls\<close>

text \<open>A required member, and a member with a default.\<close>

definition required :: "('n json \<Rightarrow> 'a option) \<Rightarrow> 'n json option \<Rightarrow> 'a option" where
  "required de m = (case m of None \<Rightarrow> None | Some v \<Rightarrow> de v)"

definition defaulted :: "'a \<Rightarrow> ('n json \<Rightarrow> 'a option) \<Rightarrow> 'n json option \<Rightarrow> 'a option" where
  "defaulted d de m = (case m of None \<Rightarrow> Some d | Some v \<Rightarrow> de v)"

definition known_fields :: "string list \<Rightarrow> (string, 'v) fmap \<Rightarrow> bool" where
  "known_fields ks m \<longleftrightarrow> fset (fmdom m) \<subseteq> set ks"

definition default_params :: "'n params" where
  "default_params = ParamsNone"

definition default_id :: id where
  "default_id = IdNull"

definition de_method_call :: "('n \<Rightarrow> u64 option) \<Rightarrow> (string, 'n json) fmap \<Rightarrow> 'n method_call option" where
  "de_method_call as_u64 m =
     (if known_fields [''jsonrpc'', ''method'', ''params'', ''id''] m then
        (case (de_option de_version (fmlookup m ''jsonrpc''), required de_string (fmlookup m ''method''),
               defaulted default_params de_params (fmlookup m ''params''), required (de_id as_u64) (fmlookup m ''id'')) of
           (Some v, Some f, Some p, Some i) \<Rightarrow>
             Some \<lparr>mc_jsonrpc = v, mc_method = f, mc_params = p, mc_id = i\<rparr>
         | _ \<Rightarrow> None)
      else None)"

definition de_notification :: "(string, 'n json) fmap \<Rightarrow> 'n notification option" where
  "de_notification m =
     (if known_fields [''jsonrpc'', ''method'', ''params''] m then
        (case (de_option de_version (fmlookup m ''jsonrpc''), required de_string (fmlookup m ''method''),
               defaulted default_params de_params (fmlookup m ''params'')) of
           (Some v, Some f, Some p) \<Rightarrow> Some \<lparr>nt_jsonrpc = v, nt_method = f, nt_params = p\<rparr>
         | _ \<Rightarrow> None)
      else None)"

definition de_call :: "('n \<Rightarrow> u64 option) \<Rightarrow> (string, 'n json) fmap \<Rightarrow> 'n call option" where
  "de_call as_u64 m =
     (case de_method_call as_u64 m of
        Some mc \<Rightarrow> Some (MethodCall mc)
      | None \<Rightarrow>
        (case de_notification m of
           Some nt \<Rightarrow> Some (Notification nt)
         | None \<Rightarrow> map_option Invalid (defaulted default_id (de_id as_u64) (fmlookup m ''id''))))"

fun se_call :: "(u64 \<Rightarrow> 'n) \<Rightarrow> 'n call \<Rightarrow> (string, 'n json) fmap" where
  "se_call from_u64 (MethodCall mc) = fmap_of_list
     [(''jsonrpc'', se_option se_version (mc_jsonrpc mc)), (''method'', VString (mc_method mc)),
      (''params'', se_params (mc_params mc)), (''id'', se_id from_u64 (mc_id mc))]"
| "se_call from_u64 (Notification nt) = fmap_of_list
     [(''jsonrpc'', se_option se_version (nt_jsonrpc nt)), (''method'', VString (nt_method nt)),
      (''params'', se_params (nt_params nt))]"
| "se_call from_u64 (Invalid i) = fmap_of_list [(''id'', se_id from_u64 i)]"

section \<open>Outputs\<close>

fun de_error_code :: "('n \<Rightarrow> i64 option) \<Rightarrow> 'n json \<Rightarrow> error_code option" where
  "de_error_code as_i64 (VNumber n) = map_option ec_from (as_i64 n)"
| "de_error_code as_i64 _ = None"

definition se_error_code :: "(i64 \<Rightarrow> 'n) \<Rightarrow> error_code \<Rightarrow> 'n json" where
  "se_error_code from_i64 c = VNumber (from_i64 (ec_code c))"

fun de_error :: "('n \<Rightarrow> i64 option) \<Rightarrow> 'n json \<Rightarrow> 'n rpc_error option" where
  "de_error as_i64 (VObject m) =
     (if known_fields [''code'', ''message'', ''data''] m then
        (case (required (de_error_code as_i64) (fmlookup m ''code''), required de_string (fmlookup m ''message''),
               de_option Some (fmlookup m ''data'')) of
           (Some c, Some msg, Some d) \<Rightarrow> Some \<lparr>err_code = c, err_message = msg, err_data = d\<rparr>
         | _ \<Rightarrow> None)
      else None)"
| "de_error as_i64 (VArray [c, msg, d]) =
     (case (de_error_code as_i64 c, de_string msg, de_option Some (Some d)) of
        (Some c, Some msg, Some d) \<Rightarrow> Some \<lparr>err_code = c, err_message = msg, err_data = d\<rparr>
      | _ \<Rightarrow> None)"
| "de_error as_i64 _ = None"

definition skip_none :: "string \<Rightarrow> 'v option \<Rightarrow> (string \<times> 'v) list" where
  "skip_none k v = (case v of None \<Rightarrow> [] | Some x \<Rightarrow> [(k, x)])"

definition se_error :: "(i64 \<Rightarrow> 'n) \<Rightarrow> 'n rpc_error \<Rightarrow> 'n json" where
  "se_error from_i64 e = VObject (fmap_of_list
     ([(''code'', se_error_code from_i64 (err_code e)), (''message'', VString (err_message e))]
      @ skip_none ''data'' (err_data e)))"

definition de_success :: "('n \<Rightarrow> u64 option) \<Rightarrow> (string, 'n json) fmap \<Rightarrow> 'n success option" where
  "de_success as_u64 m =
     (if known_fields [''jsonrpc'', ''result'', ''id''] m then
        (case (de_option de_version (fmlookup m ''jsonrpc''), required Some (fmlookup m ''result''),
               required (de_id as_u64) (fmlookup m ''id'')) of
           (Some v, Some r, Some i) \<Rightarrow> Some \<lparr>su_jsonrpc = v, su_result = r, su_id = i\<rparr>
         | _ \<Rightarrow> None)
      else None)"

definition de_failure ::
    "('n \<Rightarrow> u64 option) \<Rightarrow> ('n \<Rightarrow> i64 option) \<Rightarrow> (string, 'n json) fmap \<Rightarrow> 'n failure option" where
  "de_failure as_u64 as_i64 m =
     (if known_fields [''jsonrpc'', ''error'', ''id''] m then
        (case (de_option de_version (fmlookup m ''jsonrpc''), required (de_error as_i64) (fmlookup m ''error''),
               required (de_id as_u64) (fmlookup m ''id'')) of
           (Some v, Some e, Some i) \<Rightarrow> Some \<lparr>fa_jsonrpc = v, fa_error = e, fa_id = i\<rparr>
         | _ \<Rightarrow> None)
      else None)"

definition de_output ::
    "('n \<Rightarrow> u64 option) \<Rightarrow> ('n \<Rightarrow> i64 option) \<Rightarrow> (string, 'n json) fmap \<Rightarrow> 'n rpc_output option" where
  "de_output as_u64 as_i64 m =
     (case de_success as_u64 m of
        Some s \<Rightarrow> Some (Success s)
      | None \<Rightarrow> map_option Failure (de_failure as_u64 as_i64 m))"

fun se_output :: "(u64 \<Rightarrow> 'n) \<Rightarrow> (i64 \<Rightarrow> 'n) \<Rightarrow> 'n rpc_output \<Rightarrow> (string, 'n json) fmap" where
  "se_output from_u64 from_i64 (Success s) = fmap_of_list
     (skip_none ''jsonrpc'' (map_option se_version (su_jsonrpc s))
      @ [(''result'', su_result s), (''id'', se_id from_u64 (su_id s))])"
| "se_output from_u64 from_i64 (Failure f) = fmap_of_list
     (skip_none ''jsonrpc'' (map_option se_version (fa_jsonrpc f))
      @ [(''error'', se_error from_i64 (fa_error f)), (''id'', se_id from_u64 (fa_id f))])"

section \<open>Requests and responses\<close>

text \<open>The array form of the structs.\<close>

fun de_method_call_seq :: "('n \<Rightarrow> u64 option) \<Rightarrow> 'n json list \<Rightarrow> 'n method_call option" where
  "de_method_call_seq as_u64 [j, f, p, i] =
     (case (de_option de_version (Some j), de_string f, de_params p, de_id as_u64 i) of
        (Some v, Some f, Some p, Some i) \<Rightarrow> Some \<lparr>mc_jsonrpc = v, mc_method = f, mc_params = p, mc_id = i\<rparr>
      | _ \<Rightarrow> None)"
| "de_method_call_seq as_u64 _ = None"

definition notification_fields :: "'n json \<Rightarrow> 'n json \<Rightarrow> 'n json option \<Rightarrow> 'n notification option" where
  "notification_fields j f p =
     (case (de_option de_version (Some j), de_string f, defaulted default_params de_params p) of
        (Some v, Some f, Some p) \<Rightarrow> Some \<lparr>nt_jsonrpc = v, nt_method = f, nt_params = p\<rparr>
      | _ \<Rightarrow> None)"

fun de_notification_seq :: "'n json list \<Rightarrow> 'n notification option" where
  "de_notification_seq [j, f] = notification_fields j f None"
| "de_notification_seq [j, f, p] = notification_fields j f (Some p)"
| "de_notification_seq _ = None"

fun de_success_seq :: "('n \<Rightarrow> u64 option) \<Rightarrow> 'n json list \<Rightarrow> 'n success option" where
  "de_success_seq as_u64 [j, r, i] =
     (case (de_option de_version (Some j), de_id as_u64 i) of
        (Some v, Some i) \<Rightarrow> Some \<lparr>su_jsonrpc = v, su_result = r, su_id = i\<rparr>
      | _ \<Rightarrow> None)"
| "de_success_seq as_u64 _ = None"

fun de_failure_seq :: "('n \<Rightarrow> u64 option) \<Rightarrow> ('n \<Rightarrow> i64 option) \<Rightarrow> 'n json list \<Rightarrow> 'n failure option" where
  "de_failure_seq as_u64 as_i64 [j, e, i] =
     (case (de_option de_version (Some j), de_error as_i64 e, de_id as_u64 i) of
        (Some v, Some e, Some i) \<Rightarrow> Some \<lparr>fa_jsonrpc = v, fa_error = e, fa_id = i\<rparr>
      | _ \<Rightarrow> None)"
| "de_failure_seq as_u64 as_i64 _ = None"

text \<open>Calls and outputs from any value; the variant \<open>Invalid\<close> is only read from an object.\<close>

fun de_call_value :: "('n \<Rightarrow> u64 option) \<Rightarrow> 'n json \<Rightarrow> 'n call option" where
  "de_call_value as_u64 (VObject m) = de_call as_u64 m"
| "de_call_value as_u64 (VArray vs) =
     (case de_method_call_seq as_u64 vs of
        Some mc \<Rightarrow> Some (MethodCall mc)
      | None \<Rightarrow> map_option Notification (de_notification_seq vs))"
| "de_call_value as_u64 _ = None"

fun de_output_value :: "('n \<Rightarrow> u64 option) \<Rightarrow> ('n \<Rightarrow> i64 option) \<Rightarrow> 'n json \<Rightarrow> 'n rpc_output option" where
  "de_output_value as_u64 as_i64 (VObject m) = de_output as_u64 as_i64 m"
| "de_output_value as_u64 as_i64 (VArray vs) =
     (case de_success_seq as_u64 vs of
        Some s \<Rightarrow> Some (Success s)
      | None \<Rightarrow> map_option Failure (de_failure_seq as_u64 as_i64 vs))"
| "de_output_value as_u64 as_i64 _ = None"

text \<open>An untagged enum of one value or a vector: the one value is tried first.\<close>

definition single_or_batch :: "('n json \<Rightarrow> 'a option) \<Rightarrow> ('a \<Rightarrow> 'b) \<Rightarrow> ('a list \<Rightarrow> 'b) \<Rightarrow> 'n json \<Rightarrow> 'b option" where
  "single_or_batch de single batch v =
     (case de v of
        Some a \<Rightarrow> Some (single a)
      | None \<Rightarrow> (case v of VArray vs \<Rightarrow> map_option batch (those (map de vs)) | _ \<Rightarrow> None))"

definition de_request :: "('n \<Rightarrow> u64 option) \<Rightarrow> 'n json \<Rightarrow> 'n request option" where
  "de_request as_u64 = single_or_batch (de_call_value as_u64) SingleRequest BatchRequest"

fun se_request :: "(u64 \<Rightarrow> 'n) \<Rightarrow> 'n request \<Rightarrow> 'n json" where
  "se_request from_u64 (SingleRequest c) = VObject (se_call from_u64 c)"
| "se_request from_u64 (BatchRequest cs) = VArray (map (\<lambda>c. VObject (se_call from_u64 c)) cs)"

definition de_response :: "('n \<Rightarrow> u64 option) \<Rightarrow> ('n \<Rightarrow> i64 option) \<Rightarrow> 'n json \<Rightarrow> 'n response option" where
  "de_response as_u64 as_i64 = single_or_batch (de_output_value as_u64 as_i64) SingleResponse BatchResponse"

fun se_response :: "(u64 \<Rightarrow> 'n) \<Rightarrow> (i64 \<Rightarrow> 'n) \<Rightarrow> 'n response \<Rightarrow> 'n json" where
  "se_response from_u64 from_i64 (SingleResponse out) = VObject (se_output from_u64 from_i64 out)"
| "se_response from_u64 from_i64 (BatchResponse outs) = VArray (map (\<lambda>out. VObject (se_output from_u64 from_i64 out)) outs)"

section \<open>Lemmas\<close>

lemma de_option_version [simp]: "de_option de_version (Some (se_option se_version v)) = Some v"
  by (cases v; simp; cases "the v"; simp)

lemma de_params_se [simp]: "de_params (se_params p) = Some p"
  by (cases p) (simp_all add: se_params_def)

lemma de_id_se [simp]: "(\<And>x. as_u64 (from_u64 x) = Some x) \<Longrightarrow> de_id as_u64 (se_id from_u64 i) = Some i"
  by (cases i) simp_all

lemma known_fields_empty [simp]: "known_fields ks fmempty"
  by (simp add: known_fields_def)

lemma known_fields_upd [simp]:
  "known_fields ks (fmupd k v m) \<longleftrightarrow> k \<in> set ks \<and> known_fields ks m"
  by (auto simp: known_fields_def)

lemma skip_none_simps [simp]: "skip_none k None = []" "skip_none k (Some v) = [(k, v)]"
  by (simp_all add: skip_none_def)

lemmas member_simps = required_def defaulted_def fmlookup_of_list

lemma de_call_se:
  assumes "\<And>x. as_u64 (from_u64 x) = Some x"
  shows "de_call as_u64 (se_call from_u64 c) = Some c"
  using assms
  by (cases c) (simp_all add: de_call_def de_method_call_def de_notification_def member_simps)

text \<open>The variants read by the untagged enums, as equivalences.\<close>

lemma de_method_call_Some:
  "de_method_call as_u64 m = Some mc \<longleftrightarrow>
     known_fields [''jsonrpc'', ''method'', ''params'', ''id''] m \<and>
     de_option de_version (fmlookup m ''jsonrpc'') = Some (mc_jsonrpc mc) \<and>
     fmlookup m ''method'' = Some (VString (mc_method mc)) \<and>
     defaulted default_params de_params (fmlookup m ''params'') = Some (mc_params mc) \<and>
     required (de_id as_u64) (fmlookup m ''id'') = Some (mc_id mc)"
  by (cases mc) (auto simp: de_method_call_def required_def elim!: de_string.elims
      split: if_splits option.splits)

lemma de_notification_Some:
  "de_notification m = Some nt \<longleftrightarrow>
     known_fields [''jsonrpc'', ''method'', ''params''] m \<and>
     de_option de_version (fmlookup m ''jsonrpc'') = Some (nt_jsonrpc nt) \<and>
     fmlookup m ''method'' = Some (VString (nt_method nt)) \<and>
     defaulted default_params de_params (fmlookup m ''params'') = Some (nt_params nt)"
  by (cases nt) (auto simp: de_notification_def required_def elim!: de_string.elims
      split: if_splits option.splits)

lemma de_success_Some:
  "de_success as_u64 m = Some s \<longleftrightarrow>
     known_fields [''jsonrpc'', ''result'', ''id''] m \<and>
     de_option de_version (fmlookup m ''jsonrpc'') = Some (su_jsonrpc s) \<and>
     fmlookup m ''result'' = Some (su_result s) \<and>
     required (de_id as_u64) (fmlookup m ''id'') = Some (su_id s)"
  by (cases s) (auto simp: de_success_def required_def split: if_splits option.splits)

lemma de_failure_Some:
  "de_failure as_u64 as_i64 m = Some f \<longleftrightarrow>
     known_fields [''jsonrpc'', ''error'', ''id''] m \<and>
     de_option de_version (fmlookup m ''jsonrpc'') = Some (fa_jsonrpc f) \<and>
     required (de_error as_i64) (fmlookup m ''error'') = Some (fa_error f) \<and>
     required (de_id as_u64) (fmlookup m ''id'') = Some (fa_id f)"
  by (cases f) (auto simp: de_failure_def required_def split: if_splits option.splits)

lemma known_fields_absent: "known_fields ks m \<Longrightarrow> k \<notin> set ks \<Longrightarrow> fmlookup m k = None"
  by (metis fmdom_notD known_fields_def subsetD)

lemma de_option_se_data:
  "d \<noteq> Some VNull \<Longrightarrow> de_option Some d = Some d"
  by (cases d; simp; cases "the d"; simp)

lemma de_option_se_version [simp]: "de_option de_version (Some (se_version v)) = Some (Some v)"
  by (cases v) simp

lemma de_error_se:
  assumes "\<And>x. as_i64 (from_i64 x) = Some x"
    and "ec_from (ec_code (err_code e)) = err_code e" and "err_data e \<noteq> Some VNull"
  shows "de_error as_i64 (se_error from_i64 e) = Some e"
  using assms de_option_se_data [of "err_data e"]
  by (cases e; cases "err_data e") (simp_all add: se_error_def se_error_code_def member_simps)

text \<open>Outputs that survive being written and read: the error code is not a \<open>ServerError\<close> carrying one of the
  five reserved codes, and the error data is not an explicit \<open>null\<close>.\<close>

fun survives :: "'n rpc_output \<Rightarrow> bool" where
  "survives (Success s) \<longleftrightarrow> True"
| "survives (Failure f) \<longleftrightarrow>
     ec_from (ec_code (err_code (fa_error f))) = err_code (fa_error f) \<and> err_data (fa_error f) \<noteq> Some VNull"

lemma de_output_se:
  assumes "\<And>x. as_u64 (from_u64 x) = Some x" and "\<And>x. as_i64 (from_i64 x) = Some x"
    and "survives out"
  shows "de_output as_u64 as_i64 (se_output from_u64 from_i64 out) = Some out"
proof (cases out)
  case (Success s)
  then show ?thesis
    using assms(1)
    by (cases "su_jsonrpc s") (simp_all add: de_output_def de_success_def member_simps)
next
  case (Failure f)
  then show ?thesis
    using assms(1) assms(2) de_error_se [of as_i64 from_i64 "fa_error f"] assms(3)
    by (cases "fa_jsonrpc f") (simp_all add: de_output_def de_success_def de_failure_def member_simps)
qed

lemma those_map_Some: "(\<And>x. x \<in> set xs \<Longrightarrow> f x = Some (g x)) \<Longrightarrow> those (map f xs) = Some (map g xs)"
  by (induction xs) auto

text \<open>An array of objects is never the array form of a struct: its first element would be a version.\<close>

lemma object_not_seq:
  "de_method_call_seq as_u64 (VObject m # vs) = None" "de_notification_seq (VObject m # vs) = None"
  "de_success_seq as_u64 (VObject m # vs) = None" "de_failure_seq as_u64 as_i64 (VObject m # vs) = None"
proof -
  show "de_method_call_seq as_u64 (VObject m # vs) = None"
    by (cases "(as_u64, VObject m # vs)" rule: de_method_call_seq.cases) auto
  show "de_notification_seq (VObject m # vs) = None"
    by (cases "VObject m # vs" rule: de_notification_seq.cases) (auto simp: notification_fields_def)
  show "de_success_seq as_u64 (VObject m # vs) = None"
    by (cases "(as_u64, VObject m # vs)" rule: de_success_seq.cases) auto
  show "de_failure_seq as_u64 as_i64 (VObject m # vs) = None"
    by (cases "(as_u64, as_i64, VObject m # vs)" rule: de_failure_seq.cases) auto
qed

lemma objects_not_seq:
  "de_method_call_seq as_u64 (map (\<lambda>x. VObject (f x)) xs) = None" "de_notification_seq (map (\<lambda>x. VObject (f x)) xs) = None"
  "de_success_seq as_u64 (map (\<lambda>x. VObject (f x)) xs) = None" "de_failure_seq as_u64 as_i64 (map (\<lambda>x. VObject (f x)) xs) = None"
  by (cases xs; simp add: object_not_seq)+

text \<open>C39: what the server reads back from the JSON of a request is that request: method calls,
  notifications and invalid calls, alone or in a batch of any length; a batch is never mistaken for a
  single call.\<close>

theorem request_roundtrip:
  assumes "\<And>x. as_u64 (from_u64 x) = Some x"
  shows "de_request as_u64 (se_request from_u64 r) = Some r"
  using de_call_se [of as_u64 from_u64, OF assms]
  by (cases r) (simp_all add: de_request_def single_or_batch_def objects_not_seq comp_def those_map_Some [where g = "\<lambda>c. c"])

theorem request_roundtrip_witness:
  "de_request Some (se_request (\<lambda>x::u64. x)
     (BatchRequest [MethodCall \<lparr>mc_jsonrpc = Some V2, mc_method = ''update'', mc_params = ParamsArray [VNumber 1], mc_id = IdNum 7\<rparr>,
        Invalid IdNull]))
   = Some (BatchRequest [MethodCall \<lparr>mc_jsonrpc = Some V2, mc_method = ''update'', mc_params = ParamsArray [VNumber 1], mc_id = IdNum 7\<rparr>,
        Invalid IdNull])"
  by (rule request_roundtrip) simp

text \<open>C38: a response read back from its JSON is the response that was sent, alone or in a batch, provided
  that no error code in it is a \<open>ServerError\<close> carrying one of the five reserved codes and no error data is
  an explicit \<open>null\<close>; those two do not survive.\<close>

theorem response_roundtrip:
  assumes "\<And>x. as_u64 (from_u64 x) = Some x" and "\<And>x. as_i64 (from_i64 x) = Some x"
    and "case r of SingleResponse out \<Rightarrow> survives out | BatchResponse outs \<Rightarrow> list_all survives outs"
  shows "de_response as_u64 as_i64 (se_response from_u64 from_i64 r) = Some r"
proof (cases r)
  case (SingleResponse out)
  then show ?thesis
    using assms by (simp add: de_response_def single_or_batch_def de_output_se)
next
  case (BatchResponse outs)
  have "those (map (\<lambda>out. de_output as_u64 as_i64 (se_output from_u64 from_i64 out)) outs) = Some outs"
    using those_map_Some [of outs _ "\<lambda>out. out"] assms BatchResponse by (simp add: de_output_se list_all_iff)
  then show ?thesis
    using BatchResponse by (simp add: de_response_def single_or_batch_def objects_not_seq comp_def)
qed

theorem response_roundtrip_witness:
  "de_response Some Some (se_response (\<lambda>x. x) (\<lambda>x. x)
     (BatchResponse [Failure \<lparr>fa_jsonrpc = Some V2, fa_error = error_new (ServerError 2), fa_id = IdNum 1\<rparr>]))
   = Some (BatchResponse [Failure \<lparr>fa_jsonrpc = Some V2, fa_error = error_new (ServerError 2), fa_id = IdNum 1\<rparr>])"
  by (rule response_roundtrip) (auto simp: error_new_def ec_from_def)

text \<open>What is not a request: a value that is neither an object nor an array, and an array with an element
  that is neither. Such a batch is refused as a whole. An array of four fields, on the other hand, is
  read as a call.\<close>

lemma scalar_not_call: "\<not> (\<exists>m. v = VObject m) \<Longrightarrow> \<not> (\<exists>vs. v = VArray vs) \<Longrightarrow> de_call_value as_u64 v = None"
  by (cases v) auto

lemma those_None: "None \<in> set xs \<Longrightarrow> those xs = None"
  by (induction xs) (auto split: option.splits)

theorem scalar_in_batch_rejects:
  assumes "v \<in> set vs" and "\<not> (\<exists>m. v = VObject m)" and "\<not> (\<exists>us. v = VArray us)" and "5 \<le> length vs"
  shows "de_request as_u64 (VArray vs) = None"
proof -
  have "de_method_call_seq as_u64 vs = None" "de_notification_seq vs = None"
    using assms(4) by (cases "(as_u64, vs)" rule: de_method_call_seq.cases; cases vs rule: de_notification_seq.cases; simp)+
  moreover have "those (map (de_call_value as_u64) vs) = None"
    using assms scalar_not_call [of v as_u64] by (intro those_None) force
  ultimately show ?thesis by (simp add: de_request_def single_or_batch_def)
qed

lemma array_read_as_call:
  "de_request Some (VArray [VString ''2.0'', VString ''update'', VArray [], VNumber 7]) =
     Some (SingleRequest (MethodCall \<lparr>mc_jsonrpc = Some V2, mc_method = ''update'', mc_params = ParamsArray [], mc_id = IdNum 7\<rparr>))"
  by (simp add: de_request_def single_or_batch_def)

text \<open>How an incoming object is classified. A notification has no \<open>id\<close> member and a method
  call has one that it carries; an object that is neither, but whose \<open>id\<close> can be read, is an
  invalid call that keeps that id, so that the error response can be correlated.\<close>

theorem call_classification:
  assumes "de_call as_u64 m = Some c"
  shows "case c of
      Notification n \<Rightarrow> fmlookup m ''id'' = None \<and> fmlookup m ''method'' = Some (VString (nt_method n))
    | MethodCall mc \<Rightarrow> (\<exists>v. fmlookup m ''id'' = Some v \<and> de_id as_u64 v = Some (mc_id mc)) \<and>
        fmlookup m ''method'' = Some (VString (mc_method mc))
    | Invalid i \<Rightarrow> de_method_call as_u64 m = None \<and> de_notification m = None \<and>
        (case fmlookup m ''id'' of None \<Rightarrow> i = IdNull | Some v \<Rightarrow> de_id as_u64 v = Some i)"
  using assms
  by (auto simp: de_call_def de_method_call_Some de_notification_Some required_def defaulted_def
      default_id_def known_fields_absent split: option.splits)

theorem call_classification_witness:
  "case (Invalid (IdNum 3)) of
      Notification n \<Rightarrow> fmlookup (fmap_of_list [(''id'', VNumber 3), (''x'', VNull)]) ''id'' = None
    | MethodCall mc \<Rightarrow> True
    | Invalid i \<Rightarrow> de_method_call Some (fmap_of_list [(''id'', VNumber 3), (''x'', VNull)]) = None"
  using call_classification [of Some "fmap_of_list [(''id'', VNumber (3::u64)), (''x'', VNull)]" "Invalid (IdNum 3)"]
  by (simp add: de_call_def de_method_call_def de_notification_def defaulted_def)

text \<open>An object is accepted as a response only when exactly one of \<open>result\<close> and \<open>error\<close> is
  present, that member decides between success and failure, and the output carries the id
  of the object.\<close>

theorem output_result_xor_error:
  assumes "de_output as_u64 as_i64 m = Some out"
  shows "(fmlookup m ''result'' = None) \<noteq> (fmlookup m ''error'' = None) \<and>
    (\<exists>v. fmlookup m ''id'' = Some v \<and> de_id as_u64 v = Some (output_id out)) \<and>
    (case output_into_result out of
       Ok r \<Rightarrow> fmlookup m ''result'' = Some r
     | Err e \<Rightarrow> (\<exists>v. fmlookup m ''error'' = Some v \<and> de_error as_i64 v = Some e))"
  using assms
  by (auto simp: de_output_def de_success_Some de_failure_Some required_def known_fields_absent
      split: option.splits)

theorem output_result_xor_error_witness:
  "(\<exists>v. fmlookup (fmap_of_list [(''result'', VBool True), (''id'', VNumber 3)]) ''id'' = Some v \<and>
      de_id Some v = Some (output_id (Success \<lparr>su_jsonrpc = None, su_result = VBool True, su_id = IdNum 3\<rparr>)))"
  using output_result_xor_error [of Some Some "fmap_of_list [(''result'', VBool True), (''id'', VNumber 3)]"
      "Success \<lparr>su_jsonrpc = None, su_result = VBool True, su_id = IdNum 3\<rparr>"]
  by (simp add: de_output_def de_success_def required_def)

end
