(* ===== verification/Core_Middleware.thy ===== *)
theory Core_Middleware
  imports Core_Types
begin

text \<open>
  Middlewares (\<open>core/src/middleware.rs\<close>). A hook (\<open>on_request\<close>, \<open>on_call\<close>) gets a
  request, the metadata and the continuation \<open>next\<close>. It answers with a future of its own
  (\<open>Inl\<close>, Rust's \<open>Either::Left\<close>) or with what \<open>next\<close> returned (\<open>Inr\<close>). The trait
  methods are generic in the continuation's type; here that is the type variable \<open>'x\<close>, so a
  middleware can be used below another one, whose continuation type is larger. Hooks run
  eagerly and may change the world.
\<close>

type_synonym ('w, 'q, 'm, 'x) cont = "'q \<Rightarrow> 'm \<Rightarrow> 'w \<Rightarrow> 'x \<times> 'w"

type_synonym ('w, 'q, 'm, 'f, 'x) hook = "'q \<Rightarrow> 'm \<Rightarrow> ('w, 'q, 'm, 'x) cont \<Rightarrow> 'w \<Rightarrow> ('f + 'x) \<times> 'w"

record ('n, 'm, 'w, 'f, 'g, 'x, 'y) middleware =
  mw_on_request :: "('w, 'n request, 'm, 'f, 'x) hook"
  mw_on_call :: "('w, 'n call, 'm, 'g, 'y) hook"

text \<open>The default methods of the trait: pass everything on.\<close>

definition default_hook :: "('w, 'q, 'm, 'f, 'x) hook" where
  "default_hook q m next w = apfst Inr (next q m w)"

definition Noop :: "('n, 'm, 'w, 'f, 'g, 'x, 'y) middleware" where
  "Noop = \<lparr>mw_on_request = default_hook, mw_on_call = default_hook\<rparr>"

fun repack :: "'a + ('b + 'x) \<Rightarrow> ('a + 'b) + 'x" where
  "repack (Inl a) = Inl (Inl a)"
| "repack (Inr (Inl b)) = Inl (Inr b)"
| "repack (Inr (Inr x)) = Inr x"

definition hook2 ::
    "('w, 'q, 'm, 'f, 'g + 'x) hook \<Rightarrow> ('w, 'q, 'm, 'g, 'x) hook \<Rightarrow> ('w, 'q, 'm, 'f + 'g, 'x) hook" where
  "hook2 a b q m process w = apfst repack (a q m (\<lambda>q m. b q m process) w)"

definition hook3 ::
    "('w, 'q, 'm, 'f, ('g + 'h) + 'x) hook \<Rightarrow> ('w, 'q, 'm, 'g, 'h + 'x) hook \<Rightarrow> ('w, 'q, 'm, 'h, 'x) hook
     \<Rightarrow> ('w, 'q, 'm, 'f + ('g + 'h), 'x) hook" where
  "hook3 a b c q m process w =
     apfst repack (a q m (\<lambda>q m w. apfst repack (b q m (\<lambda>q m. c q m process) w)) w)"

definition hook4 ::
    "('w, 'q, 'm, 'f, ('g + ('h + 'i)) + 'x) hook \<Rightarrow> ('w, 'q, 'm, 'g, ('h + 'i) + 'x) hook
     \<Rightarrow> ('w, 'q, 'm, 'h, 'i + 'x) hook \<Rightarrow> ('w, 'q, 'm, 'i, 'x) hook
     \<Rightarrow> ('w, 'q, 'm, 'f + ('g + ('h + 'i)), 'x) hook" where
  "hook4 a b c d q m process w =
     apfst repack (a q m (\<lambda>q m w. apfst repack (b q m (\<lambda>q m w.
       apfst repack (c q m (\<lambda>q m. d q m process) w)) w)) w)"

definition middleware2 ::
    "('n, 'm, 'w, 'f1, 'g1, 'f2 + 'x, 'g2 + 'y) middleware \<Rightarrow> ('n, 'm, 'w, 'f2, 'g2, 'x, 'y) middleware
     \<Rightarrow> ('n, 'm, 'w, 'f1 + 'f2, 'g1 + 'g2, 'x, 'y) middleware" where
  "middleware2 a b =
     \<lparr>mw_on_request = hook2 (mw_on_request a) (mw_on_request b),
      mw_on_call = hook2 (mw_on_call a) (mw_on_call b)\<rparr>"

definition middleware3 ::
    "('n, 'm, 'w, 'f1, 'g1, ('f2 + 'f3) + 'x, ('g2 + 'g3) + 'y) middleware
     \<Rightarrow> ('n, 'm, 'w, 'f2, 'g2, 'f3 + 'x, 'g3 + 'y) middleware
     \<Rightarrow> ('n, 'm, 'w, 'f3, 'g3, 'x, 'y) middleware
     \<Rightarrow> ('n, 'm, 'w, 'f1 + ('f2 + 'f3), 'g1 + ('g2 + 'g3), 'x, 'y) middleware" where
  "middleware3 a b c =
     \<lparr>mw_on_request = hook3 (mw_on_request a) (mw_on_request b) (mw_on_request c),
      mw_on_call = hook3 (mw_on_call a) (mw_on_call b) (mw_on_call c)\<rparr>"

definition middleware4 ::
    "('n, 'm, 'w, 'f1, 'g1, ('f2 + ('f3 + 'f4)) + 'x, ('g2 + ('g3 + 'g4)) + 'y) middleware
     \<Rightarrow> ('n, 'm, 'w, 'f2, 'g2, ('f3 + 'f4) + 'x, ('g3 + 'g4) + 'y) middleware
     \<Rightarrow> ('n, 'm, 'w, 'f3, 'g3, 'f4 + 'x, 'g4 + 'y) middleware
     \<Rightarrow> ('n, 'm, 'w, 'f4, 'g4, 'x, 'y) middleware
     \<Rightarrow> ('n, 'm, 'w, 'f1 + ('f2 + ('f3 + 'f4)), 'g1 + ('g2 + ('g3 + 'g4)), 'x, 'y) middleware" where
  "middleware4 a b c d =
     \<lparr>mw_on_request = hook4 (mw_on_request a) (mw_on_request b) (mw_on_request c) (mw_on_request d),
      mw_on_call = hook4 (mw_on_call a) (mw_on_call b) (mw_on_call c) (mw_on_call d)\<rparr>"

section \<open>Lemmas\<close>

lemma Noop_simps [simp]:
  "mw_on_request Noop q m next w = apfst Inr (next q m w)"
  "mw_on_call Noop c m next' w = apfst Inr (next' c m w)"
  by (simp_all add: Noop_def default_hook_def)

lemma repack_bij: "bij (repack :: 'a + ('b + 'x) \<Rightarrow> _)"
proof (rule bijI)
  show "inj (repack :: 'a + ('b + 'x) \<Rightarrow> _)"
  proof (rule injI)
    fix u v :: "'a + ('b + 'x)" assume "repack u = repack v"
    then show "u = v" by (cases u rule: repack.cases; cases v rule: repack.cases) simp_all
  qed
  show "surj (repack :: 'a + ('b + 'x) \<Rightarrow> _)"
    unfolding surj_def by (metis repack.simps obj_sumE)
qed

lemma apfst_case: "apfst f p = (case p of (a, w) \<Rightarrow> (f a, w))"
  by (cases p) simp

text \<open>A hook that passes on what \<open>next\<close> does, possibly for a changed request and metadata
  and after a change of the world. \<open>Noop\<close> is one, and tuples of such hooks are.\<close>

definition passes :: "('w, 'q, 'm, 'f, 'x) hook \<Rightarrow> ('q \<Rightarrow> 'm \<Rightarrow> 'w \<Rightarrow> ('q \<times> 'm) \<times> 'w) \<Rightarrow> bool" where
  "passes h rewrite \<longleftrightarrow> (\<forall>q m next w.
     h q m next w = (case rewrite q m w of ((q', m'), w') \<Rightarrow> apfst Inr (next q' m' w')))"

definition compose_rewrite where
  "compose_rewrite r1 r2 q m w = (case r1 q m w of ((q', m'), w') \<Rightarrow> r2 q' m' w')"

lemma passes_hook2:
  assumes "passes a ra" and "passes b rb"
  shows "passes (hook2 a b) (compose_rewrite ra rb)"
  using assms
  by (auto simp: passes_def hook2_def compose_rewrite_def apfst_case split: prod.splits)

text \<open>The larger tuples nest the pair to the right.\<close>

lemma hook3_nest: "hook3 a b c = hook2 a (hook2 b c)"
  by (intro ext) (simp add: hook3_def hook2_def [abs_def])

lemma hook4_nest: "hook4 a b c d = hook2 a (hook2 b (hook2 c d))"
  by (intro ext) (simp add: hook4_def hook2_def [abs_def])

text \<open>A tuple of passing middlewares rewrites the request from left to right, each
  member seeing what the members before it made of it, and hands the last version to the
  handler exactly once.\<close>

theorem middleware4_left_to_right:
  assumes "passes (mw_on_call a) ra" "passes (mw_on_call b) rb" "passes (mw_on_call c) rc" "passes (mw_on_call d) rd"
  shows "passes (mw_on_call (middleware4 a b c d))
           (compose_rewrite ra (compose_rewrite rb (compose_rewrite rc rd)))"
  using assms by (simp add: middleware4_def hook4_nest passes_hook2)

text \<open>Two rewriting hooks for the witness: one counts the call in the world, the other
  replaces it by an invalid call.\<close>

theorem middleware4_left_to_right_witness:
  "passes (mw_on_call (middleware4 Noop
        \<lparr>mw_on_request = default_hook, mw_on_call = (\<lambda>q m next w. apfst Inr (next q m (Suc w)))\<rparr>
        \<lparr>mw_on_request = default_hook, mw_on_call = (\<lambda>q m next w. apfst Inr (next (Invalid (IdNum (of_nat w))) m w))\<rparr>
        Noop))
     (compose_rewrite (\<lambda>q m w. ((q, m), w)) (compose_rewrite (\<lambda>q m w. ((q, m), Suc w))
       (compose_rewrite (\<lambda>q m w. ((Invalid (IdNum (of_nat w)), m), w)) (\<lambda>q m w. ((q, m), w)))))"
  by (rule middleware4_left_to_right) (simp_all add: passes_def)

text \<open>A middleware that answers a call itself keeps it from the members after it and from
  the handler: whatever those are, the tuple's answer is that middleware's future, and the
  world is the one it left.\<close>

theorem middleware_answer_stops:
  assumes "passes (mw_on_call a) ra" and "ra call m w = ((call', m'), w1)"
    and "\<And>next. mw_on_call b call' m' next w1 = (Inl f, w2)"
  shows "mw_on_call (middleware3 a b c) call m process w = (Inl (Inr (Inl f)), w2)"
  using assms by (simp add: middleware3_def hook3_nest hook2_def passes_def)

theorem middleware_answer_stops_witness:
  "mw_on_call (middleware3 Noop
      \<lparr>mw_on_request = default_hook, mw_on_call = (\<lambda>q m next w. (Inl ''denied'', Suc w))\<rparr> Noop)
     (Invalid IdNull) () (\<lambda>q m w. ((), w)) 0 = (Inl (Inr (Inl ''denied'')), Suc 0)"
  by (rule middleware_answer_stops [where ra = "\<lambda>q m w. ((q, m), w)"]) (simp_all add: passes_def)

end
