(* ===== verification/Core_Handler.thy ===== *)
theory Core_Handler
  imports Core_Middleware
begin

text \<open>
  Request handling (\<open>core/src/calls.rs\<close>, \<open>core/src/io.rs\<close>): remote procedures, the
  registry of \<open>MetaIoHandler\<close>, and \<open>handle_call\<close>, \<open>handle_rpc_request\<close> and
  \<open>handle_request\<close>.

  Calling a method runs its body up to the returned future (which may change the world) and
  the future is awaited later; executing a notification only changes the world. The method
  table is a map, since the code never depends on its iteration order. The JSON text reader
  and writer of \<open>serde_json\<close> are the arguments \<open>serde_from_str\<close> and \<open>to_string\<close>, and
  the executor's completion order of a batch is the argument \<open>sched\<close>.
\<close>

section \<open>Remote procedures\<close>

type_synonym ('n, 'w) rpc_result = "('w, ('n json, 'n rpc_error) result) fut"

type_synonym ('n, 'm, 'w) rpc_method = "'n params \<Rightarrow> 'm \<Rightarrow> 'w \<Rightarrow> ('n, 'w) rpc_result \<times> 'w"

type_synonym ('n, 'm, 'w) rpc_notification = "'n params \<Rightarrow> 'm \<Rightarrow> 'w \<Rightarrow> 'w"

datatype ('n, 'm, 'w) remote_procedure =
    Method "('n, 'm, 'w) rpc_method"
  | NotificationProc "('n, 'm, 'w) rpc_notification"
  | Alias string

text \<open>\<open>WrapFuture\<close>: a plain result becomes a future that is ready; a boxed future is itself.\<close>

datatype ('n, 'w) wrap_future = WrapResult "('n json, 'n rpc_error) result" | WrapBox "('n, 'w) rpc_result"

fun into_future :: "('n, 'w) wrap_future \<Rightarrow> ('n, 'w) rpc_result" where
  "into_future (WrapResult r) = fut_ready r"
| "into_future (WrapBox f) = f"

definition sync_call ::
    "('n params \<Rightarrow> 'w \<Rightarrow> ('n, 'w) wrap_future \<times> 'w) \<Rightarrow> 'n params \<Rightarrow> 'w \<Rightarrow> ('n, 'w) rpc_result \<times> 'w" where
  "sync_call f params w = apfst into_future (f params w)"

section \<open>The handler\<close>

datatype compatibility = CompatV1 | CompatV2 | CompatBoth

definition default_compatibility :: compatibility where
  "default_compatibility = CompatV2"

fun is_version_valid :: "compatibility \<Rightarrow> version option \<Rightarrow> bool" where
  "is_version_valid CompatV1 None = True"
| "is_version_valid CompatV2 (Some V2) = True"
| "is_version_valid CompatBoth v = True"
| "is_version_valid c v = False"

fun default_version :: "compatibility \<Rightarrow> version option" where
  "default_version CompatV1 = None"
| "default_version CompatV2 = Some V2"
| "default_version CompatBoth = Some V2"

type_synonym ('n, 'w) output_fut = "('w, 'n rpc_output option) fut"
type_synonym ('n, 'w) response_fut = "('w, 'n response option) fut"

type_synonym ('n, 'm, 'w) handler_middleware =
  "('n, 'm, 'w, ('n, 'w) response_fut, ('n, 'w) output_fut,
    ('n, 'w) response_fut + ('n, 'w) response_fut, ('n, 'w) output_fut + ('n, 'w) output_fut) middleware"

record ('n, 'm, 'w) meta_io_handler =
  middleware :: "('n, 'm, 'w) handler_middleware"
  compatibility :: compatibility
  methods :: "string \<rightharpoonup> ('n, 'm, 'w) remote_procedure"

definition with_compatibility :: "compatibility \<Rightarrow> ('n, 'm, 'w) meta_io_handler" where
  "with_compatibility c = \<lparr>middleware = Noop, compatibility = c, methods = Map.empty\<rparr>"

definition default_handler :: "('n, 'm, 'w) meta_io_handler" where
  "default_handler = with_compatibility default_compatibility"

definition new_handler :: "compatibility \<Rightarrow> ('n, 'm, 'w) handler_middleware \<Rightarrow> ('n, 'm, 'w) meta_io_handler" where
  "new_handler c s = \<lparr>middleware = s, compatibility = c, methods = Map.empty\<rparr>"

definition with_middleware :: "('n, 'm, 'w) handler_middleware \<Rightarrow> ('n, 'm, 'w) meta_io_handler" where
  "with_middleware s = \<lparr>middleware = s, compatibility = default_compatibility, methods = Map.empty\<rparr>"

definition methods_insert ::
    "('n, 'm, 'w) meta_io_handler \<Rightarrow> string \<Rightarrow> ('n, 'm, 'w) remote_procedure \<Rightarrow> ('n, 'm, 'w) meta_io_handler" where
  "methods_insert h name p = h\<lparr>methods := (methods h)(name \<mapsto> p)\<rparr>"

definition add_alias :: "string \<Rightarrow> string \<Rightarrow> ('n, 'm, 'w) meta_io_handler \<Rightarrow> ('n, 'm, 'w) meta_io_handler" where
  "add_alias als other h = methods_insert h als (Alias other)"

definition add_method_with_meta ::
    "string \<Rightarrow> ('n, 'm, 'w) rpc_method \<Rightarrow> ('n, 'm, 'w) meta_io_handler \<Rightarrow> ('n, 'm, 'w) meta_io_handler" where
  "add_method_with_meta name f h = methods_insert h name (Method f)"

definition add_method ::
    "string \<Rightarrow> ('n params \<Rightarrow> 'w \<Rightarrow> ('n, 'w) rpc_result \<times> 'w) \<Rightarrow> ('n, 'm, 'w) meta_io_handler
     \<Rightarrow> ('n, 'm, 'w) meta_io_handler" where
  "add_method name f h = add_method_with_meta name (\<lambda>params _. f params) h"

definition add_sync_method ::
    "string \<Rightarrow> ('n params \<Rightarrow> 'w \<Rightarrow> ('n, 'w) wrap_future \<times> 'w) \<Rightarrow> ('n, 'm, 'w) meta_io_handler
     \<Rightarrow> ('n, 'm, 'w) meta_io_handler" where
  "add_sync_method name f h = add_method name (sync_call f) h"

definition add_notification_with_meta ::
    "string \<Rightarrow> ('n, 'm, 'w) rpc_notification \<Rightarrow> ('n, 'm, 'w) meta_io_handler \<Rightarrow> ('n, 'm, 'w) meta_io_handler" where
  "add_notification_with_meta name f h = methods_insert h name (NotificationProc f)"

definition add_notification ::
    "string \<Rightarrow> ('n params \<Rightarrow> 'w \<Rightarrow> 'w) \<Rightarrow> ('n, 'm, 'w) meta_io_handler \<Rightarrow> ('n, 'm, 'w) meta_io_handler" where
  "add_notification name f h = add_notification_with_meta name (\<lambda>params _. f params) h"

text \<open>\<open>HashMap::extend\<close> inserts the pairs one after the other.\<close>

definition extend_with ::
    "(string \<times> ('n, 'm, 'w) remote_procedure) list \<Rightarrow> ('n, 'm, 'w) meta_io_handler \<Rightarrow> ('n, 'm, 'w) meta_io_handler" where
  "extend_with ps h = foldl (\<lambda>h (name, p). methods_insert h name p) h ps"

section \<open>Handling calls\<close>

text \<open>The closure that \<open>handle_call\<close> passes to the middleware.\<close>

fun process_call ::
    "('n, 'm, 'w) meta_io_handler \<Rightarrow> 'n call \<Rightarrow> 'm \<Rightarrow> 'w \<Rightarrow> (('n, 'w) output_fut + ('n, 'w) output_fut) \<times> 'w" where
  "process_call h (MethodCall mc) meta w =
     (let params = mc_params mc; i = mc_id mc; jsonrpc = mc_jsonrpc mc;
          valid_version = is_version_valid (compatibility h) jsonrpc;
          call_method = (\<lambda>f. f params meta w);
          r = (case (valid_version, methods h (mc_method mc)) of
                 (False, _) \<Rightarrow> Err invalid_version
               | (True, Some (Method f)) \<Rightarrow> Ok (call_method f)
               | (True, Some (Alias als)) \<Rightarrow>
                   (case methods h als of Some (Method f) \<Rightarrow> Ok (call_method f) | _ \<Rightarrow> Err method_not_found)
               | (True, _) \<Rightarrow> Err method_not_found)
      in case r of
           Ok (f, w') \<Rightarrow> (Inl (fut_map (\<lambda>r. Some (output_from r i jsonrpc)) f), w')
         | Err e \<Rightarrow> (Inr (fut_ready (Some (output_from (Err e) i jsonrpc))), w))"
| "process_call h (Notification nt) meta w =
     (if \<not> is_version_valid (compatibility h) (nt_jsonrpc nt) then (Inr (fut_ready None), w)
      else
        (Inr (fut_ready None),
         (case methods h (nt_method nt) of
            Some (NotificationProc f) \<Rightarrow> f (nt_params nt) meta w
          | Some (Alias als) \<Rightarrow>
              (case methods h als of Some (NotificationProc f) \<Rightarrow> f (nt_params nt) meta w | _ \<Rightarrow> w)
          | _ \<Rightarrow> w)))"
| "process_call h (Invalid i) meta w =
     (Inr (fut_ready (Some (output_invalid_request i (default_version (compatibility h))))), w)"

fun fut_rpc :: "('w, 'a) fut + (('w, 'a) fut + ('w, 'a) fut) \<Rightarrow> ('w, 'a) fut" where
  "fut_rpc (Inl f) = f"
| "fut_rpc (Inr e) = fut_either e"

definition handle_call ::
    "('n, 'm, 'w) meta_io_handler \<Rightarrow> 'n call \<Rightarrow> 'm \<Rightarrow> 'w \<Rightarrow> ('n, 'w) output_fut \<times> 'w" where
  "handle_call h c meta w = apfst fut_rpc (mw_on_call (middleware h) c meta (process_call h) w)"

fun handle_calls ::
    "('n, 'm, 'w) meta_io_handler \<Rightarrow> 'n call list \<Rightarrow> 'm \<Rightarrow> 'w \<Rightarrow> ('n, 'w) output_fut list \<times> 'w" where
  "handle_calls h [] meta w = ([], w)"
| "handle_calls h (c # cs) meta w =
     (let (f, w1) = handle_call h c meta w; (fs, w2) = handle_calls h cs meta w1 in (f # fs, w2))"

definition output_as_response :: "'n rpc_output option \<Rightarrow> 'n response option" where
  "output_as_response = map_option SingleResponse"

definition outputs_as_batch :: "'n rpc_output option list \<Rightarrow> 'n response option" where
  "outputs_as_batch outs =
     (let outs = List.map_filter (\<lambda>x. x) outs in if outs = [] then None else Some (BatchResponse outs))"

fun process_request ::
    "nat list \<Rightarrow> ('n, 'm, 'w) meta_io_handler \<Rightarrow> 'n request \<Rightarrow> 'm \<Rightarrow> 'w
     \<Rightarrow> (('n, 'w) response_fut + ('n, 'w) response_fut) \<times> 'w" where
  "process_request sched h (SingleRequest c) meta w =
     (let (f, w') = handle_call h c meta w in (Inl (fut_map output_as_response f), w'))"
| "process_request sched h (BatchRequest cs) meta w =
     (let (fs, w') = handle_calls h cs meta w in (Inr (fut_map outputs_as_batch (join_all sched fs)), w'))"

definition handle_rpc_request ::
    "nat list \<Rightarrow> ('n, 'm, 'w) meta_io_handler \<Rightarrow> 'n request \<Rightarrow> 'm \<Rightarrow> 'w \<Rightarrow> ('n, 'w) response_fut \<times> 'w" where
  "handle_rpc_request sched h r meta w =
     apfst fut_rpc (mw_on_request (middleware h) r meta (process_request sched h) w)"

definition read_request :: "(string \<Rightarrow> ('n request, 'e) result) \<Rightarrow> string \<Rightarrow> ('n request, 'n rpc_error) result" where
  "read_request serde_from_str s = map_err (\<lambda>_. error_new ParseError) (serde_from_str s)"

definition write_response :: "('n response \<Rightarrow> string) \<Rightarrow> 'n response \<Rightarrow> string" where
  "write_response to_string r = to_string r"

definition as_string :: "('n response \<Rightarrow> string) \<Rightarrow> 'n response option \<Rightarrow> string option" where
  "as_string to_string = map_option (write_response to_string)"

definition handle_request ::
    "(string \<Rightarrow> ('n request, 'e) result) \<Rightarrow> ('n response \<Rightarrow> string) \<Rightarrow> nat list
     \<Rightarrow> ('n, 'm, 'w) meta_io_handler \<Rightarrow> string \<Rightarrow> 'm \<Rightarrow> 'w \<Rightarrow> ('w, string option) fut \<times> 'w" where
  "handle_request serde_from_str to_string sched h s meta w =
     (let (f, w') = (case read_request serde_from_str s of
                Err e \<Rightarrow> (fut_ready (Some (response_from e (default_version (compatibility h)))), w)
              | Ok r \<Rightarrow> handle_rpc_request sched h r meta w)
      in (fut_map (as_string to_string) f, w'))"

text \<open>\<open>block_on\<close> runs the returned future to its end.\<close>

definition handle_request_sync ::
    "(string \<Rightarrow> ('n request, 'e) result) \<Rightarrow> ('n response \<Rightarrow> string) \<Rightarrow> nat list
     \<Rightarrow> ('n, 'm, 'w) meta_io_handler \<Rightarrow> string \<Rightarrow> 'm \<Rightarrow> ('w, string option) fut" where
  "handle_request_sync serde_from_str to_string sched h s meta w =
     (let (f, w') = handle_request serde_from_str to_string sched h s meta w in f w')"

section \<open>Extensions\<close>

text \<open>The implementations of \<open>IoHandlerExtension\<close>: tuples, vectors of pairs, hash maps,
  handlers (their method table) and options.\<close>

datatype ('n, 'm, 'w) extension =
    ExtTuple "('n, 'm, 'w) extension list"
  | ExtVec "(string \<times> ('n, 'm, 'w) remote_procedure) list"
  | ExtMap "string \<rightharpoonup> ('n, 'm, 'w) remote_procedure"
  | ExtOption "('n, 'm, 'w) extension option"

definition ext_handler :: "('n, 'm, 'w) meta_io_handler \<Rightarrow> ('n, 'm, 'w) extension" where
  "ext_handler h = ExtMap (methods h)"

primrec augment :: "('n, 'm, 'w) extension \<Rightarrow> ('n, 'm, 'w) meta_io_handler \<Rightarrow> ('n, 'm, 'w) meta_io_handler" where
  "augment (ExtTuple xs) = (\<lambda>h. foldl (\<lambda>h f. f h) h (map augment xs))"
| "augment (ExtVec ps) = extend_with ps"
| "augment (ExtMap m) = (\<lambda>h. h\<lparr>methods := methods h ++ m\<rparr>)"
| "augment (ExtOption x) = (case map_option augment x of None \<Rightarrow> (\<lambda>h. h) | Some f \<Rightarrow> f)"

section \<open>\<open>IoHandler\<close>: a handler whose metadata is the default value\<close>

type_synonym ('n, 'm, 'w) io_handler = "('n, 'm, 'w) meta_io_handler"

definition ext_io_handler :: "('n, 'm, 'w) io_handler \<Rightarrow> ('n, 'm, 'w) extension" where
  "ext_io_handler io = ExtMap (methods io)"

definition io_new :: "('n, unit, 'w) io_handler" where
  "io_new = default_handler"

definition io_handle_request ::
    "'m \<Rightarrow> (string \<Rightarrow> ('n request, 'e) result) \<Rightarrow> ('n response \<Rightarrow> string) \<Rightarrow> nat list
     \<Rightarrow> ('n, 'm, 'w) io_handler \<Rightarrow> string \<Rightarrow> 'w \<Rightarrow> ('w, string option) fut \<times> 'w" where
  "io_handle_request dflt serde_from_str to_string sched h s w =
     handle_request serde_from_str to_string sched h s dflt w"

definition io_handle_rpc_request ::
    "'m \<Rightarrow> nat list \<Rightarrow> ('n, 'm, 'w) io_handler \<Rightarrow> 'n request \<Rightarrow> 'w \<Rightarrow> ('n, 'w) response_fut \<times> 'w" where
  "io_handle_rpc_request dflt sched h r w = handle_rpc_request sched h r dflt w"

definition io_handle_call :: "'m \<Rightarrow> ('n, 'm, 'w) io_handler \<Rightarrow> 'n call \<Rightarrow> 'w \<Rightarrow> ('n, 'w) output_fut \<times> 'w" where
  "io_handle_call dflt h c w = handle_call h c dflt w"

definition io_handle_request_sync ::
    "'m \<Rightarrow> (string \<Rightarrow> ('n request, 'e) result) \<Rightarrow> ('n response \<Rightarrow> string) \<Rightarrow> nat list
     \<Rightarrow> ('n, 'm, 'w) io_handler \<Rightarrow> string \<Rightarrow> ('w, string option) fut" where
  "io_handle_request_sync dflt serde_from_str to_string sched h s =
     handle_request_sync serde_from_str to_string sched h s dflt"

section \<open>What the handler promises\<close>

text \<open>A name resolves directly or through one alias to a procedure of the wanted kind.\<close>

definition resolve_method ::
    "(string \<rightharpoonup> ('n, 'm, 'w) remote_procedure) \<Rightarrow> string \<Rightarrow> ('n, 'm, 'w) rpc_method option" where
  "resolve_method ms name =
     (case ms name of
        Some (Method f) \<Rightarrow> Some f
      | Some (Alias als) \<Rightarrow> (case ms als of Some (Method f) \<Rightarrow> Some f | _ \<Rightarrow> None)
      | _ \<Rightarrow> None)"

definition resolve_notification ::
    "(string \<rightharpoonup> ('n, 'm, 'w) remote_procedure) \<Rightarrow> string \<Rightarrow> ('n, 'm, 'w) rpc_notification option" where
  "resolve_notification ms name =
     (case ms name of
        Some (NotificationProc f) \<Rightarrow> Some f
      | Some (Alias als) \<Rightarrow> (case ms als of Some (NotificationProc f) \<Rightarrow> Some f | _ \<Rightarrow> None)
      | _ \<Rightarrow> None)"

fun expects_response :: "'n call \<Rightarrow> bool" where
  "expects_response (Notification _) = False"
| "expects_response _ = True"

text \<open>The id and version a response to a call carries.\<close>

fun reply_tag :: "compatibility \<Rightarrow> 'n call \<Rightarrow> id \<times> version option" where
  "reply_tag c (MethodCall mc) = (mc_id mc, mc_jsonrpc mc)"
| "reply_tag c (Notification nt) = (IdNull, nt_jsonrpc nt)"
| "reply_tag c (Invalid i) = (i, default_version c)"

definition output_tag :: "'n rpc_output \<Rightarrow> id \<times> version option" where
  "output_tag out = (output_id out, output_version out)"

definition procs_resolve :: "('n, 'm, 'w) meta_io_handler \<Rightarrow> bool" where
  "procs_resolve h \<longleftrightarrow>
     (\<forall>name f. methods h name = Some (Method f) \<longrightarrow> (\<forall>p m w. resolves (fst (f p m w))))"

lemma output_from_tag [simp]:
  "output_tag (output_from r i v) = (i, v)"
  "output_tag (output_invalid_request i v) = (i, v)"
  by (simp_all add: output_tag_def)

lemma process_call_method:
  "process_call h (MethodCall mc) meta w =
     (if is_version_valid (compatibility h) (mc_jsonrpc mc) then
        (case resolve_method (methods h) (mc_method mc) of
           Some f \<Rightarrow> (case f (mc_params mc) meta w of (r, w') \<Rightarrow>
             (Inl (fut_map (\<lambda>r. Some (output_from r (mc_id mc) (mc_jsonrpc mc))) r), w'))
         | None \<Rightarrow> (Inr (fut_ready (Some (output_from (Err method_not_found) (mc_id mc) (mc_jsonrpc mc)))), w))
      else (Inr (fut_ready (Some (output_from (Err invalid_version) (mc_id mc) (mc_jsonrpc mc)))), w))"
  by (simp add: resolve_method_def Let_def split: option.splits remote_procedure.splits)

lemma process_call_notification:
  "process_call h (Notification nt) meta w =
     (Inr (fut_ready None),
      if is_version_valid (compatibility h) (nt_jsonrpc nt) then
        (case resolve_notification (methods h) (nt_method nt) of
           Some f \<Rightarrow> f (nt_params nt) meta w | None \<Rightarrow> w)
      else w)"
  by (simp add: resolve_notification_def split: option.splits remote_procedure.splits)

lemmas process_call_spec = process_call_method process_call_notification process_call.simps(3)
declare process_call.simps [simp del]

lemma handle_call_noop:
  "middleware h = Noop \<Longrightarrow> handle_call h c meta w = apfst fut_either (process_call h c meta w)"
  by (simp add: handle_call_def apfst_compose)

lemma handle_rpc_request_noop:
  "middleware h = Noop \<Longrightarrow> handle_rpc_request sched h r meta w = apfst fut_either (process_request sched h r meta w)"
  by (simp add: handle_rpc_request_def apfst_compose)

lemma resolve_method_resolves:
  "procs_resolve h \<Longrightarrow> resolve_method (methods h) name = Some f \<Longrightarrow> resolves (fst (f p m w))"
  by (auto simp: procs_resolve_def resolve_method_def split: option.splits remote_procedure.splits)

text \<open>What awaiting a call may give: one tagged output, or nothing for a notification.\<close>

definition answers :: "compatibility \<Rightarrow> 'n call \<Rightarrow> 'n rpc_output option \<Rightarrow> bool" where
  "answers cmpt c out \<longleftrightarrow>
     (if expects_response c then (\<exists>x. out = Some x \<and> output_tag x = reply_tag cmpt c) else out = None)"

lemma handle_call_answers:
  assumes "middleware h = Noop"
  shows "yields (fst (handle_call h c meta w)) (answers (compatibility h) c)"
  using assms
  by (cases c) (auto simp: handle_call_noop process_call_spec answers_def
      simp del: output_from.simps split: option.splits prod.splits)

lemma handle_call_resolves:
  assumes "middleware h = Noop" "procs_resolve h"
  shows "resolves (fst (handle_call h c meta w))"
proof (cases c)
  case (MethodCall mc)
  then show ?thesis
    using assms resolve_method_resolves [OF assms(2), of "mc_method mc" _ "mc_params mc" meta w]
    by (auto simp: handle_call_noop process_call_spec split: option.splits prod.splits)
qed (use assms in \<open>simp_all add: handle_call_noop process_call_spec\<close>)

lemma handle_calls_futures:
  assumes "middleware h = Noop" "procs_resolve h"
  shows "list_all2 (\<lambda>f c. resolves f \<and> yields f (answers (compatibility h) c)) (fst (handle_calls h cs meta w)) cs"
proof (induction cs arbitrary: w)
  case (Cons c cs)
  show ?case
    using handle_call_resolves [OF assms, of c meta w] handle_call_answers [OF assms(1), of c meta w]
      Cons.IH [of "snd (handle_call h c meta w)"]
    by (auto simp: Let_def split: prod.splits)
qed simp

text \<open>The outputs kept from a batch are those of the calls that expect a response.\<close>

lemma map_filter_outputs:
  "list_all2 (answers cmpt) cs outs \<Longrightarrow>
   map output_tag (List.map_filter (\<lambda>x. x) outs) = map (reply_tag cmpt) (filter expects_response cs)"
  by (induction rule: list_all2_induct) (auto simp: map_filter_simps answers_def)

text \<open>What a request may be answered: one tagged output per call that expects one, in the order of the
  calls, and no response at all where no call expects one.\<close>

fun response_to :: "compatibility \<Rightarrow> 'n request \<Rightarrow> 'n response option \<Rightarrow> bool" where
  "response_to cmpt (SingleRequest c) resp \<longleftrightarrow>
     (if expects_response c then (\<exists>x. resp = Some (SingleResponse x) \<and> output_tag x = reply_tag cmpt c) else resp = None)"
| "response_to cmpt (BatchRequest cs) resp \<longleftrightarrow>
     (if filter expects_response cs = [] then resp = None
      else \<exists>outs. resp = Some (BatchResponse outs) \<and> map output_tag outs = map (reply_tag cmpt) (filter expects_response cs))"

fun sched_covers :: "nat list \<Rightarrow> 'n request \<Rightarrow> bool" where
  "sched_covers sched (SingleRequest c) = True"
| "sched_covers sched (BatchRequest cs) = ({0..<length cs} \<subseteq> set sched)"

lemma batch_future:
  assumes "middleware h = Noop" and "procs_resolve h" and "sched_covers sched (BatchRequest cs)"
  shows "surely (fst (handle_rpc_request sched h (BatchRequest cs) meta w)) (response_to (compatibility h) (BatchRequest cs))"
proof -
  obtain fs w1 where fs: "handle_calls h cs meta w = (fs, w1)" by fastforce
  have each: "list_all2 (\<lambda>f c. surely f (answers (compatibility h) c)) fs cs"
    using handle_calls_futures [OF assms(1,2), of cs meta w] fs by (simp add: surely_def)
  then have "length fs = length cs" by (rule list_all2_lengthD)
  then have "surely (join_all sched fs) (list_all2 (answers (compatibility h)) cs)"
    using join_all_surely [OF each] assms(3) by simp
  then have "surely (join_all sched fs) (\<lambda>outs. response_to (compatibility h) (BatchRequest cs) (outputs_as_batch outs))"
  proof (rule surely_mono)
    fix outs assume "list_all2 (answers (compatibility h)) cs outs"
    then have tags: "map output_tag (List.map_filter (\<lambda>x. x) outs) =
        map (reply_tag (compatibility h)) (filter expects_response cs)"
      by (rule map_filter_outputs)
    then have "List.map_filter (\<lambda>x. x) outs = [] \<longleftrightarrow> filter expects_response cs = []"
      by (metis map_is_Nil_conv)
    with tags show "response_to (compatibility h) (BatchRequest cs) (outputs_as_batch outs)"
      by (simp add: outputs_as_batch_def Let_def)
  qed
  then show ?thesis using assms(1) fs by (simp add: handle_rpc_request_noop)
qed

lemma single_future:
  assumes "middleware h = Noop" and "procs_resolve h"
  shows "surely (fst (handle_rpc_request sched h (SingleRequest c) meta w)) (response_to (compatibility h) (SingleRequest c))"
proof -
  obtain f w1 where f: "handle_call h c meta w = (f, w1)" by fastforce
  then have "surely f (answers (compatibility h) c)"
    using handle_call_resolves [OF assms, of c meta w] handle_call_answers [OF assms(1), of c meta w] by (simp add: surely_def)
  then have "surely f (\<lambda>out. response_to (compatibility h) (SingleRequest c) (output_as_response out))"
    by (rule surely_mono) (auto simp: answers_def output_as_response_def split: if_splits)
  then show ?thesis using f assms(1) by (simp add: handle_rpc_request_noop)
qed

lemma request_future:
  assumes "middleware h = Noop" and "procs_resolve h" and "sched_covers sched r"
  shows "surely (fst (handle_rpc_request sched h r meta w)) (response_to (compatibility h) r)"
  using single_future [OF assms(1,2)] batch_future [OF assms(1,2)] assms(3) by (cases r) blast+

text \<open>The text a request text may be answered: that of a response to the request, the parse error for a
  text that is no request, and none where no call expects a response.\<close>

definition text_answer ::
    "(string \<Rightarrow> ('n request, 'e) result) \<Rightarrow> ('n response \<Rightarrow> string) \<Rightarrow> compatibility \<Rightarrow> string \<Rightarrow> string option \<Rightarrow> bool" where
  "text_answer serde_from_str to_string cmpt s t \<longleftrightarrow>
     (\<exists>resp. t = map_option to_string resp \<and>
       (case serde_from_str s of
          Ok r \<Rightarrow> response_to cmpt r resp
        | Err e \<Rightarrow> resp = Some (response_from (error_new ParseError) (default_version cmpt))))"

lemma handle_request_future:
  assumes "middleware h = Noop" and "procs_resolve h"
    and "\<And>r. serde_from_str s = Ok r \<Longrightarrow> sched_covers sched r"
  shows "surely (fst (handle_request serde_from_str to_string sched h s meta w)) (text_answer serde_from_str to_string (compatibility h) s)"
proof (cases "serde_from_str s")
  case (Ok r)
  obtain f w1 where f: "handle_rpc_request sched h r meta w = (f, w1)" by fastforce
  then have "surely f (response_to (compatibility h) r)"
    using request_future [OF assms(1,2) assms(3) [OF Ok], of meta w] by simp
  then have "surely f (\<lambda>resp. text_answer serde_from_str to_string (compatibility h) s (as_string to_string resp))"
    by (rule surely_mono) (auto simp: text_answer_def Ok as_string_def write_response_def [abs_def])
  then show ?thesis using Ok f by (simp add: handle_request_def read_request_def)
next
  case (Err e)
  then show ?thesis
    by (simp add: handle_request_def read_request_def text_answer_def as_string_def write_response_def)
qed

lemma handle_request_answers:
  assumes "middleware h = Noop" and "procs_resolve h"
    and "\<And>r. serde_from_str s = Ok r \<Longrightarrow> sched_covers sched r"
  shows "\<exists>t w'. (case handle_request serde_from_str to_string sched h s meta w of (f, w1) \<Rightarrow> f w1) = Some (t, w') \<and>
    text_answer serde_from_str to_string (compatibility h) s t"
  using surelyD [OF handle_request_future [OF assms], where w = "snd (handle_request serde_from_str to_string sched h s meta w)"]
  by (auto simp: case_prod_beta)

text \<open>C1: a batch is answered completely and in order. Whatever the order in which the
  executor completes its calls, a batch whose procedures resolve gets one response per call
  that expects one, in the order of the calls, each carrying the id and the version of its
  call; a batch of notifications gets no response at all.\<close>

theorem batch_response_order:
  assumes "middleware h = Noop" and "procs_resolve h" and "{0..<length cs} \<subseteq> set sched"
  shows "\<exists>resp w'. (case handle_rpc_request sched h (BatchRequest cs) meta w of (f, w1) \<Rightarrow> f w1) = Some (resp, w') \<and>
    (if filter expects_response cs = [] then resp = None
     else \<exists>outs. resp = Some (BatchResponse outs) \<and>
            map output_tag outs = map (reply_tag (compatibility h)) (filter expects_response cs))"
  using surelyD [OF batch_future [OF assms(1,2)], where w = "snd (handle_rpc_request sched h (BatchRequest cs) meta w)"] assms(3)
  by (simp add: case_prod_beta del: split_paired_Ex)

definition say_handler :: "(nat, unit, nat) meta_io_handler" where
  "say_handler = add_notification ''tick'' (\<lambda>p w. Suc w)
     (add_sync_method ''say'' (\<lambda>p w. (WrapResult (Ok (VString ''hello'')), w)) default_handler)"

definition say_call :: "nat call" where
  "say_call = MethodCall \<lparr>mc_jsonrpc = Some V2, mc_method = ''say'', mc_params = ParamsNone, mc_id = IdNum 1\<rparr>"

definition tick_call :: "nat call" where
  "tick_call = Notification \<lparr>nt_jsonrpc = Some V2, nt_method = ''tick'', nt_params = ParamsNone\<rparr>"

lemmas say_defs = say_handler_def add_notification_def add_sync_method_def add_method_def
  add_method_with_meta_def add_notification_with_meta_def methods_insert_def default_handler_def
  with_compatibility_def default_compatibility_def sync_call_def

lemma say_handler_ok: "middleware say_handler = Noop" "procs_resolve say_handler"
  by (auto simp: say_defs procs_resolve_def)

theorem batch_response_order_witness:
  "\<exists>resp w'. (case handle_rpc_request [2, 0, 1] say_handler (BatchRequest [say_call, tick_call, Invalid (IdNum 3)]) () 0
      of (f, w1) \<Rightarrow> f w1) = Some (resp, w') \<and>
    (\<exists>outs. resp = Some (BatchResponse outs) \<and> map output_tag outs = [(IdNum 1, Some V2), (IdNum 3, Some V2)])"
  using batch_response_order [OF say_handler_ok, of "[say_call, tick_call, Invalid (IdNum 3)]" "[2, 0, 1]" "()" 0]
  by (simp add: say_call_def tick_call_def say_defs atLeastLessThan_upt)

text \<open>Awaiting the future of a call right after the call was handled.\<close>

definition run_call ::
    "('n, 'm, 'w) meta_io_handler \<Rightarrow> 'n call \<Rightarrow> 'm \<Rightarrow> 'w \<Rightarrow> ('n rpc_output option \<times> 'w) option" where
  "run_call h c meta w = (case handle_call h c meta w of (f, w') \<Rightarrow> f w')"

lemma run_call_noop:
  assumes "middleware h = Noop"
  shows "run_call h (MethodCall mc) meta w =
     (if is_version_valid (compatibility h) (mc_jsonrpc mc) then
        (case resolve_method (methods h) (mc_method mc) of
           Some f \<Rightarrow> (case f (mc_params mc) meta w of (fr, w1) \<Rightarrow>
             map_option (apfst (\<lambda>r. Some (output_from r (mc_id mc) (mc_jsonrpc mc)))) (fr w1))
         | None \<Rightarrow> Some (Some (output_from (Err method_not_found) (mc_id mc) (mc_jsonrpc mc)), w))
      else Some (Some (output_from (Err invalid_version) (mc_id mc) (mc_jsonrpc mc)), w))"
    and "run_call h (Notification nt) meta w =
     Some (None, if is_version_valid (compatibility h) (nt_jsonrpc nt) then
        (case resolve_notification (methods h) (nt_method nt) of
           Some f \<Rightarrow> f (nt_params nt) meta w | None \<Rightarrow> w)
      else w)"
    and "run_call h (Invalid i) meta w =
     Some (Some (output_invalid_request i (default_version (compatibility h))), w)"
  using assms
  by (auto simp: run_call_def handle_call_noop process_call_spec fut_map_apply split: option.splits prod.splits)

lemma handle_single_call:
  assumes "middleware h = Noop" "is_version_valid (compatibility h) (mc_jsonrpc mc)"
    and "serde_from_str s = Ok (SingleRequest (MethodCall mc))"
    and "resolve_method (methods h) (mc_method mc) = Some f"
    and "f (mc_params mc) meta w = (fr, w1)" "fr w1 = Some (r, w2)"
  shows "handle_request_sync serde_from_str to_string sched h s meta w =
    Some (Some (to_string (SingleResponse (output_from r (mc_id mc) (mc_jsonrpc mc)))), w2)"
  using assms
  by (simp add: handle_request_sync_def handle_request_def read_request_def handle_rpc_request_noop handle_call_noop
      process_call_spec fut_map_apply output_as_response_def as_string_def write_response_def Let_def)

text \<open>The result of a call: what the future of the registered method gives, polled in a world that the world in which the
  method left it may have become (\<open>E\<close>), or the error for a wrong version or an unknown method.\<close>

abbreviation any_time :: "'w \<Rightarrow> 'w \<Rightarrow> bool" where
  "any_time \<equiv> \<lambda>_ _. True"

definition call_result ::
    "('w \<Rightarrow> 'w \<Rightarrow> bool) \<Rightarrow> ('n, 'm, 'w) meta_io_handler \<Rightarrow> 'm \<Rightarrow> 'n method_call \<Rightarrow> ('n json, 'n rpc_error) result \<Rightarrow> bool" where
  "call_result E h meta mc r \<longleftrightarrow>
     (if \<not> is_version_valid (compatibility h) (mc_jsonrpc mc) then r = Err invalid_version
      else case resolve_method (methods h) (mc_method mc) of
             None \<Rightarrow> r = Err method_not_found
           | Some f \<Rightarrow> (\<exists>w fr w1 w2 w3. f (mc_params mc) meta w = (fr, w1) \<and> E w1 w2 \<and> fr w2 = Some (r, w3)))"

lemma call_result_known:
  assumes "is_version_valid (compatibility h) (mc_jsonrpc mc)" "resolve_method (methods h) (mc_method mc) = Some f"
    and "f (mc_params mc) meta w = (fr, w1)" "E w1 w2" "fr w2 = Some (r, w3)"
  shows "call_result E h meta mc r"
  using assms(1,2) unfolding call_result_def by simp (use assms(3-5) in blast)

fun handler_reply ::
    "('w \<Rightarrow> 'w \<Rightarrow> bool) \<Rightarrow> ('n response \<Rightarrow> string) \<Rightarrow> ('n, 'm, 'w) meta_io_handler \<Rightarrow> 'm \<Rightarrow> 'n call \<Rightarrow> string option \<Rightarrow> bool" where
  "handler_reply E reply h meta (MethodCall mc) t =
     (\<exists>r. call_result E h meta mc r \<and> t = Some (reply (SingleResponse (output_from r (mc_id mc) (mc_jsonrpc mc)))))"
| "handler_reply E reply h meta (Notification n) t = (t = None)"
| "handler_reply E reply h meta (Invalid i) t = True"

lemmas handle_single_simps = handle_request_def read_request_def handle_rpc_request_noop handle_call_noop process_call_spec
  output_as_response_def as_string_def write_response_def

lemma handler_reply_future:
  assumes "middleware h = Noop" and "server_read s = Ok (SingleRequest c)"
    and "procs_resolve h"
  shows "surely (fst (handle_request server_read reply sched h s meta w)) (handler_reply any_time reply h meta c)"
proof (cases c)
  case (MethodCall mc)
  consider (version) "\<not> is_version_valid (compatibility h) (mc_jsonrpc mc)"
    | (unknown) "is_version_valid (compatibility h) (mc_jsonrpc mc)" "resolve_method (methods h) (mc_method mc) = None"
    | (known) f where "is_version_valid (compatibility h) (mc_jsonrpc mc)" "resolve_method (methods h) (mc_method mc) = Some f"
    by fastforce
  then show ?thesis
  proof cases
    case known
    define fr where "fr = fst (f (mc_params mc) meta w)"
    have "resolves fr" using resolve_method_resolves [OF assms(3) known(2)] by (simp add: fr_def)
    moreover have "yields fr (call_result any_time h meta mc)"
      using call_result_known [OF known, of meta w fr "snd (f (mc_params mc) meta w)" any_time] by (auto simp: yields_def fr_def)
    ultimately have "surely fr (call_result any_time h meta mc)" by (simp add: surely_def)
    then show ?thesis using MethodCall known assms(1,2)
      by (auto simp: handle_single_simps case_prod_beta fr_def [symmetric] simp del: output_from.simps elim!: surely_mono)
  qed (use MethodCall assms(1,2) in \<open>simp_all add: handle_single_simps call_result_def del: output_from.simps\<close>)
qed (use assms(1,2) in \<open>simp_all add: handle_single_simps\<close>)

text \<open>A weaker requirement than \<open>procs_resolve\<close>: the future of a method resolves in the world in which the
  method left it, whatever happens to that world meanwhile (\<open>E\<close>). And what procedures do to the world.\<close>

definition procs_answer :: "('w \<Rightarrow> 'w \<Rightarrow> bool) \<Rightarrow> ('n, 'm, 'w) meta_io_handler \<Rightarrow> bool" where
  "procs_answer E h \<longleftrightarrow>
     (\<forall>name f. methods h name = Some (Method f) \<longrightarrow>
        (\<forall>p m w fr w1 w2. f p m w = (fr, w1) \<longrightarrow> E w1 w2 \<longrightarrow> fr w2 \<noteq> None))"

definition procs_keep :: "('w \<Rightarrow> 'w \<Rightarrow> bool) \<Rightarrow> ('n, 'm, 'w) meta_io_handler \<Rightarrow> bool" where
  "procs_keep Q h \<longleftrightarrow>
     (\<forall>name f. methods h name = Some (Method f) \<longrightarrow> (\<forall>p m w. Q w (snd (f p m w)) \<and> keeps (fst (f p m w)) Q)) \<and>
     (\<forall>name g. methods h name = Some (NotificationProc g) \<longrightarrow> (\<forall>p m w. Q w (g p m w)))"

lemma procs_resolve_answer: "procs_resolve h \<Longrightarrow> procs_answer E h"
  unfolding procs_resolve_def procs_answer_def resolves_def by (metis fst_conv)

lemma procs_keep_True: "procs_keep (\<lambda>_ _. True) h"
  by (simp add: procs_keep_def keeps_def)

lemma resolve_method_answers:
  "procs_answer E h \<Longrightarrow> resolve_method (methods h) name = Some f \<Longrightarrow> f p m w = (fr, w1) \<Longrightarrow> E w1 w2 \<Longrightarrow> fr w2 \<noteq> None"
  by (fastforce simp: procs_answer_def resolve_method_def split: option.splits remote_procedure.splits)

lemma resolve_keeps:
  "procs_keep Q h \<Longrightarrow> resolve_method (methods h) name = Some f \<Longrightarrow> Q w (snd (f p m w)) \<and> keeps (fst (f p m w)) Q"
  "procs_keep Q h \<Longrightarrow> resolve_notification (methods h) name = Some g \<Longrightarrow> Q w (g p m w)"
  by (auto simp: procs_keep_def resolve_method_def resolve_notification_def split: option.splits remote_procedure.splits)

lemma handler_reply_now:
  assumes "middleware h = Noop" and "server_read s = Ok (SingleRequest c)" and "procs_answer E h"
    and "handle_request server_read reply sched h s meta w = (f, w1)" and "E w1 w2"
  shows "\<exists>t w3. f w2 = Some (t, w3) \<and> handler_reply E reply h meta c t"
proof (cases c)
  case (MethodCall mc)
  consider (version) "\<not> is_version_valid (compatibility h) (mc_jsonrpc mc)"
    | (unknown) "is_version_valid (compatibility h) (mc_jsonrpc mc)" "resolve_method (methods h) (mc_method mc) = None"
    | (known) m where "is_version_valid (compatibility h) (mc_jsonrpc mc)" "resolve_method (methods h) (mc_method mc) = Some m"
    by fastforce
  then show ?thesis
  proof cases
    case known
    obtain fr w1' where fr: "m (mc_params mc) meta w = (fr, w1')" by fastforce
    have f: "w1 = w1'" "f = fut_map (\<lambda>r. Some (reply (SingleResponse (output_from r (mc_id mc) (mc_jsonrpc mc))))) fr"
      using MethodCall known assms(1,2,4) fr by (auto simp: handle_single_simps simp del: output_from.simps)
    obtain r w3 where r: "fr w2 = Some (r, w3)"
      using resolve_method_answers [OF assms(3) known(2) fr, of w2] assms(5) f(1) by auto
    have "call_result E h meta mc r" by (rule call_result_known [OF known fr _ r]) (use assms(5) f(1) in simp)
    then show ?thesis using MethodCall f(2) r by (simp add: fut_map_apply del: output_from.simps) blast
  qed (use MethodCall assms(1,2,4) in \<open>auto simp: handle_single_simps call_result_def simp del: output_from.simps\<close>)
qed (use assms(1,2,4) in \<open>auto simp: handle_single_simps\<close>)

lemma handle_single_keeps:
  assumes "middleware h = Noop" and "server_read s = Ok (SingleRequest c)" and "procs_keep Q h" and refl: "\<And>w. Q w w"
    and "handle_request server_read reply sched h s meta w = (f, w1)"
  shows "Q w w1" and "keeps f Q"
proof -
  have "Q w w1 \<and> keeps f Q"
    using assms(1,2,5) refl resolve_keeps [OF assms(3)]
    by (cases c) (auto simp: handle_single_simps case_prod_beta simp del: output_from.simps split: if_splits option.splits)
  then show "Q w w1" and "keeps f Q" by blast+
qed

text \<open>C2: a registered method answers calls to its name and to an alias of it: the response
  carries the result of the method's future with the id and version of the call, and the
  method is applied once, to the call's parameters and metadata.\<close>

theorem registered_method_answers:
  assumes "middleware h = Noop" and "is_version_valid (compatibility h) (mc_jsonrpc mc)"
    and "als \<noteq> name" and "mc_method mc \<in> {name, als}"
    and "f (mc_params mc) meta w = (fr, w1)" and "fr w1 = Some (r, w2)"
  shows "run_call (add_alias als name (add_method_with_meta name f h)) (MethodCall mc) meta w =
    Some (Some (output_from r (mc_id mc) (mc_jsonrpc mc)), w2)"
  using assms
  by (auto simp: run_call_noop add_alias_def add_method_with_meta_def methods_insert_def resolve_method_def)

theorem registered_method_answers_witness:
  "run_call (add_alias ''hi'' ''greet'' (add_method_with_meta ''greet''
      (\<lambda>p m w. (fut_ready (Ok (params_into_json p)), w + 1)) (default_handler :: (nat, unit, nat) meta_io_handler)))
     (MethodCall \<lparr>mc_jsonrpc = Some V2, mc_method = ''hi'', mc_params = ParamsArray [VBool True], mc_id = IdStr ''x''\<rparr>) () 4
   = Some (Some (Success \<lparr>su_jsonrpc = Some V2, su_result = VArray [VBool True], su_id = IdStr ''x''\<rparr>), 5)"
  using registered_method_answers [of "default_handler :: (nat, unit, nat) meta_io_handler"
      "\<lparr>mc_jsonrpc = Some V2, mc_method = ''hi'', mc_params = ParamsArray [VBool True], mc_id = IdStr ''x''\<rparr>"
      "''hi''" "''greet''" "\<lambda>p m w. (fut_ready (Ok (params_into_json p)), w + 1)" "()" 4 _ 5]
  by (simp add: default_handler_def with_compatibility_def default_compatibility_def)

text \<open>Aliases are not transitive: a call or a notification whose name is an alias of an
  alias runs nothing; the call is answered with \<open>method_not_found\<close>.\<close>

theorem alias_of_alias_not_found:
  assumes "middleware h = Noop" and "methods h name = Some (Alias als)" and "methods h als = Some (Alias other)"
    and "is_version_valid (compatibility h) v"
  shows "run_call h (MethodCall \<lparr>mc_jsonrpc = v, mc_method = name, mc_params = p, mc_id = i\<rparr>) meta w =
      Some (Some (Failure \<lparr>fa_jsonrpc = v, fa_error = method_not_found, fa_id = i\<rparr>), w) \<and>
    run_call h (Notification \<lparr>nt_jsonrpc = v, nt_method = name, nt_params = p\<rparr>) meta w = Some (None, w)"
  using assms by (simp add: run_call_noop resolve_method_def resolve_notification_def)

theorem alias_of_alias_not_found_witness:
  "run_call (add_alias ''c'' ''b'' (add_alias ''b'' ''say'' say_handler))
     (MethodCall \<lparr>mc_jsonrpc = Some V2, mc_method = ''c'', mc_params = ParamsNone, mc_id = IdNull\<rparr>) () 0 =
   Some (Some (Failure \<lparr>fa_jsonrpc = Some V2, fa_error = method_not_found, fa_id = IdNull\<rparr>), 0)"
  using alias_of_alias_not_found [of "add_alias ''c'' ''b'' (add_alias ''b'' ''say'' say_handler)" "''c''" "''b''" "''say''"
      "Some V2" ParamsNone IdNull "()" 0]
  by (simp add: say_defs add_alias_def)

lemma default_version_valid [simp]: "is_version_valid c (default_version c)"
  by (cases c) simp_all

text \<open>C37: a call in a protocol version the handler is not compatible with never reaches a
  procedure: the world is unchanged, a method call is answered with \<open>invalid_version\<close> and a
  notification not at all.\<close>

theorem wrong_version_runs_nothing:
  assumes "middleware h = Noop" and "\<not> is_version_valid (compatibility h) (snd (reply_tag (compatibility h) c))"
  shows "\<exists>out. run_call h c meta w = Some (out, w) \<and>
    (if expects_response c then \<exists>x. out = Some x \<and> output_into_result x = Err invalid_version \<and>
       output_tag x = reply_tag (compatibility h) c
     else out = None)"
  using assms by (cases c) (simp_all add: run_call_noop output_tag_def)

theorem wrong_version_runs_nothing_witness:
  "\<exists>out. run_call say_handler (MethodCall \<lparr>mc_jsonrpc = None, mc_method = ''say'', mc_params = ParamsNone, mc_id = IdNum 9\<rparr>) () 0
      = Some (out, 0) \<and>
    (\<exists>x. out = Some x \<and> output_into_result x = Err invalid_version \<and> output_tag x = (IdNum 9, None))"
  using wrong_version_runs_nothing [of say_handler
      "MethodCall \<lparr>mc_jsonrpc = None, mc_method = ''say'', mc_params = ParamsNone, mc_id = IdNum 9\<rparr>" "()" 0]
  by (simp add: say_defs)

text \<open>Text that is not a JSON-RPC request is answered with the \<open>Parse error\<close> object with
  id \<open>null\<close> in the handler's default version; no middleware and no procedure runs.\<close>

theorem unparsable_request_answer:
  assumes "serde_from_str s = Err e"
  shows "handle_request_sync serde_from_str to_string sched h s meta w =
    Some (Some (to_string (SingleResponse (Failure
      \<lparr>fa_jsonrpc = default_version (compatibility h),
       fa_error = \<lparr>err_code = ParseError, err_message = ''Parse error'', err_data = None\<rparr>, fa_id = IdNull\<rparr>))), w)"
  using assms
  by (simp add: handle_request_sync_def handle_request_def read_request_def response_from_def as_string_def
      write_response_def error_new_def)

theorem unparsable_request_answer_witness:
  "handle_request_sync (\<lambda>s. Err ()) (\<lambda>r. ''r'') [] say_handler ''{'' () 3 = Some (Some ''r'', 3)"
  using unparsable_request_answer [of "\<lambda>s. Err ()" "''{''" "()" "\<lambda>r. ''r''" "[]" say_handler "()" 3] by simp

section \<open>Registration\<close>

interpretation meta: keyed_store methods_insert methods
  by unfold_locales (simp add: methods_insert_def)

lemma methods_extend_with: "methods (extend_with ps h) = methods h ++ map_of (rev ps)"
  unfolding extend_with_def by (rule meta.look_foldl_map)

text \<open>The table an extension contributes: in a tuple, later members override earlier ones.\<close>

primrec ext_methods :: "('n, 'm, 'w) extension \<Rightarrow> (string \<rightharpoonup> ('n, 'm, 'w) remote_procedure)" where
  "ext_methods (ExtTuple xs) = foldl (++) Map.empty (map ext_methods xs)"
| "ext_methods (ExtVec ps) = map_of (rev ps)"
| "ext_methods (ExtMap m) = m"
| "ext_methods (ExtOption x) = (case map_option ext_methods x of None \<Rightarrow> Map.empty | Some m \<Rightarrow> m)"

lemma foldl_map_add: "foldl (++) m ms = m ++ foldl (++) Map.empty ms"
proof (induction ms arbitrary: m)
  case (Cons a ms)
  show ?case using Cons [of "m ++ a"] Cons [of a] by simp
qed simp

lemma augment_tuple_methods:
  assumes "\<And>x h. x \<in> set xs \<Longrightarrow> methods (augment x h) = methods h ++ ext_methods x"
  shows "methods (foldl (\<lambda>h f. f h) h (map augment xs)) = methods h ++ foldl (++) Map.empty (map ext_methods xs)"
  using assms
proof (induction xs arbitrary: h)
  case (Cons x xs)
  then show ?case by (simp add: foldl_map_add [of "ext_methods x"])
qed simp

lemma methods_augment: "methods (augment x h) = methods h ++ ext_methods x"
proof (induction x arbitrary: h)
  case (ExtTuple xs)
  then show ?case by (simp add: augment_tuple_methods)
next
  case (ExtOption x)
  then show ?case by (cases x) simp_all
qed (simp_all add: methods_extend_with)

lemma augment_keeps: "middleware (augment x h) = middleware h \<and> compatibility (augment x h) = compatibility h"
proof (induction x arbitrary: h)
  case (ExtTuple xs)
  then show ?case by (induction xs arbitrary: h) auto
next
  case (ExtVec ps)
  show ?case
    unfolding augment.simps extend_with_def by (induction ps arbitrary: h) (auto simp: methods_insert_def)
next
  case (ExtOption x)
  then show ?case by (cases x) simp_all
qed simp

text \<open>Extending a handler adds exactly the procedures of the extension: a name the
  extension defines gets the extension's last definition of it, every other name keeps its
  procedure, and the middleware and the protocol compatibility stay as they were.\<close>

theorem augment_last_definition_wins:
  "methods (augment x h) = methods h ++ ext_methods x \<and>
   middleware (augment x h) = middleware h \<and> compatibility (augment x h) = compatibility h \<and>
   (\<forall>ps. methods (extend_with ps h) = methods h ++ map_of (rev ps))"
  by (simp add: methods_augment augment_keeps methods_extend_with)

end
