(* ===== verification/Core_Delegates.thy ===== *)
theory Core_Delegates
  imports Core_Handler
begin

text \<open>
  Delegates (\<open>core/src/delegates.rs\<close>): a method table whose closures all receive one shared
  delegate value. The delegate is an argument of the closures; state it guards with interior
  mutability is part of the world.
\<close>

definition delegate_async_method ::
    "'t \<Rightarrow> ('t \<Rightarrow> 'n params \<Rightarrow> 'w \<Rightarrow> ('n, 'w) rpc_result \<times> 'w) \<Rightarrow> ('n, 'm, 'w) rpc_method" where
  "delegate_async_method d closure = (\<lambda>params _. closure d params)"

definition delegate_method_with_meta ::
    "'t \<Rightarrow> ('t \<Rightarrow> 'n params \<Rightarrow> 'm \<Rightarrow> 'w \<Rightarrow> ('n, 'w) rpc_result \<times> 'w) \<Rightarrow> ('n, 'm, 'w) rpc_method" where
  "delegate_method_with_meta d closure = (\<lambda>params meta. closure d params meta)"

definition delegate_notification ::
    "'t \<Rightarrow> ('t \<Rightarrow> 'n params \<Rightarrow> 'w \<Rightarrow> 'w) \<Rightarrow> ('n, 'm, 'w) rpc_notification" where
  "delegate_notification d closure = (\<lambda>params _. closure d params)"

definition delegate_notification_with_meta ::
    "'t \<Rightarrow> ('t \<Rightarrow> 'n params \<Rightarrow> 'm \<Rightarrow> 'w \<Rightarrow> 'w) \<Rightarrow> ('n, 'm, 'w) rpc_notification" where
  "delegate_notification_with_meta d closure = (\<lambda>params meta. closure d params meta)"

record ('t, 'n, 'm, 'w) io_delegate =
  io_delegate_of :: 't
  io_methods :: "string \<rightharpoonup> ('n, 'm, 'w) remote_procedure"

definition delegate_new :: "'t \<Rightarrow> ('t, 'n, 'm, 'w) io_delegate" where
  "delegate_new d = \<lparr>io_delegate_of = d, io_methods = Map.empty\<rparr>"

definition io_insert ::
    "('t, 'n, 'm, 'w) io_delegate \<Rightarrow> string \<Rightarrow> ('n, 'm, 'w) remote_procedure \<Rightarrow> ('t, 'n, 'm, 'w) io_delegate" where
  "io_insert io name p = io\<lparr>io_methods := (io_methods io)(name \<mapsto> p)\<rparr>"

definition delegate_add_alias ::
    "string \<Rightarrow> string \<Rightarrow> ('t, 'n, 'm, 'w) io_delegate \<Rightarrow> ('t, 'n, 'm, 'w) io_delegate" where
  "delegate_add_alias als target io = io_insert io als (Alias target)"

definition delegate_add_method ::
    "string \<Rightarrow> ('t \<Rightarrow> 'n params \<Rightarrow> 'w \<Rightarrow> ('n, 'w) rpc_result \<times> 'w) \<Rightarrow> ('t, 'n, 'm, 'w) io_delegate
     \<Rightarrow> ('t, 'n, 'm, 'w) io_delegate" where
  "delegate_add_method name f io = io_insert io name (Method (delegate_async_method (io_delegate_of io) f))"

definition delegate_add_method_with_meta ::
    "string \<Rightarrow> ('t \<Rightarrow> 'n params \<Rightarrow> 'm \<Rightarrow> 'w \<Rightarrow> ('n, 'w) rpc_result \<times> 'w) \<Rightarrow> ('t, 'n, 'm, 'w) io_delegate
     \<Rightarrow> ('t, 'n, 'm, 'w) io_delegate" where
  "delegate_add_method_with_meta name f io =
     io_insert io name (Method (delegate_method_with_meta (io_delegate_of io) f))"

definition delegate_add_notification ::
    "string \<Rightarrow> ('t \<Rightarrow> 'n params \<Rightarrow> 'w \<Rightarrow> 'w) \<Rightarrow> ('t, 'n, 'm, 'w) io_delegate \<Rightarrow> ('t, 'n, 'm, 'w) io_delegate" where
  "delegate_add_notification name f io =
     io_insert io name (NotificationProc (delegate_notification (io_delegate_of io) f))"

definition delegate_add_notification_with_meta ::
    "string \<Rightarrow> ('t \<Rightarrow> 'n params \<Rightarrow> 'm \<Rightarrow> 'w \<Rightarrow> 'w) \<Rightarrow> ('t, 'n, 'm, 'w) io_delegate \<Rightarrow> ('t, 'n, 'm, 'w) io_delegate" where
  "delegate_add_notification_with_meta name f io =
     io_insert io name (NotificationProc (delegate_notification_with_meta (io_delegate_of io) f))"

text \<open>A delegate extends a handler through its method table.\<close>

definition delegate_augment ::
    "('t, 'n, 'm, 'w) io_delegate \<Rightarrow> ('n, 'm, 'w) meta_io_handler \<Rightarrow> ('n, 'm, 'w) meta_io_handler" where
  "delegate_augment io h = augment (ExtMap (io_methods io)) h"

section \<open>Lemmas\<close>

interpretation dlg: keyed_store io_insert io_methods
  by unfold_locales (simp add: io_insert_def)

lemma delegate_of_insert [simp]: "io_delegate_of (io_insert io name p) = io_delegate_of io"
  by (simp add: io_insert_def)

lemma delegate_augment_methods: "methods (delegate_augment io h) = methods h ++ io_methods io"
  by (simp add: delegate_augment_def)

lemma run_call_delegate:
  assumes "middleware h = Noop" and "is_version_valid (compatibility h) (mc_jsonrpc mc)"
    and "io_methods io (mc_method mc) = Some (Method g)"
    and "g (mc_params mc) meta w = (fr, w1)" and "fr w1 = Some (r, w2)"
  shows "run_call (delegate_augment io h) (MethodCall mc) meta w =
    Some (Some (output_from r (mc_id mc) (mc_jsonrpc mc)), w2)"
  using assms by (simp add: run_call_noop delegate_augment_def resolve_method_def)

text \<open>A method added to a delegate and not overridden by a later addition answers calls on
  the handler the delegate is installed in, and its closure receives the delegate, the
  parameters of the call and the metadata of the connection.\<close>

theorem delegate_method_answers:
  assumes "middleware h = Noop" and "is_version_valid (compatibility h) (mc_jsonrpc mc)"
    and "mc_method mc \<notin> fst ` set later"
    and "f (io_delegate_of io) (mc_params mc) meta w = (fr, w1)" and "fr w1 = Some (r, w2)"
  shows "run_call (delegate_augment
      (foldl (\<lambda>io (name, p). io_insert io name p) (delegate_add_method_with_meta (mc_method mc) f io) later) h)
      (MethodCall mc) meta w =
    Some (Some (output_from r (mc_id mc) (mc_jsonrpc mc)), w2)"
proof -
  let ?io = "foldl (\<lambda>io (name, p). io_insert io name p) (delegate_add_method_with_meta (mc_method mc) f io) later"
  have "map_of (rev later) (mc_method mc) = None"
    using assms(3) by (simp add: map_of_eq_None_iff)
  then have "io_methods ?io (mc_method mc) = Some (Method (delegate_method_with_meta (io_delegate_of io) f))"
    by (simp add: dlg.look_foldl delegate_add_method_with_meta_def dlg.look_put)
  then show ?thesis
    using assms run_call_delegate [of h mc ?io _ meta w fr w1 r w2]
    by (simp add: delegate_method_with_meta_def)
qed

theorem delegate_method_answers_witness:
  "run_call (delegate_augment
      (foldl (\<lambda>io (name, p). io_insert io name p)
        (delegate_add_method_with_meta ''get'' (\<lambda>d p m w. (fut_ready (Ok (VNumber (d + m + w))), w)) (delegate_new 40))
        [(''other'', Alias ''get'')]) default_handler)
      (MethodCall \<lparr>mc_jsonrpc = Some V2, mc_method = ''get'', mc_params = ParamsNone, mc_id = IdNum 1\<rparr>) 1 (1::nat) =
    Some (Some (Success \<lparr>su_jsonrpc = Some V2, su_result = VNumber 42, su_id = IdNum 1\<rparr>), 1)"
  using delegate_method_answers [of default_handler
      "\<lparr>mc_jsonrpc = Some V2, mc_method = ''get'', mc_params = ParamsNone, mc_id = IdNum 1\<rparr>"
      "[(''other'', Alias ''get'')]" "\<lambda>d p m w. (fut_ready (Ok (VNumber (d + m + w))), w)" "delegate_new 40"
      1 "1::nat" "fut_ready (Ok (VNumber 42))" 1 "Ok (VNumber 42)" 1]
  by (simp add: default_handler_def with_compatibility_def default_compatibility_def delegate_new_def)

end
