(* ===== verification/Hosts.thy ===== *)
theory Hosts
  imports Prelude
begin

text \<open>
  Host patterns and validation of the \<open>Host\<close> header (\<open>server-utils/src/matcher.rs\<close>,
  \<open>server-utils/src/hosts.rs\<close>). The glob engine is not part of the repository: building a
  case-insensitive matcher (\<open>GlobBuilder\<close>) and asking it (\<open>is_match\<close>) are the arguments
  \<open>glob_build\<close> and \<open>is_match\<close>, and a compiled matcher is a value of the type \<open>'g\<close>.
  An IPv6 socket address is represented by the display text of its IP part.
\<close>

section \<open>Matchers\<close>

datatype 'g matcher = Matcher "'g option" string

definition matcher_new :: "(string \<Rightarrow> 'g option) \<Rightarrow> string \<Rightarrow> 'g matcher" where
  "matcher_new glob_build s = Matcher (glob_build s) s"

fun matcher_matches :: "('g \<Rightarrow> string \<Rightarrow> bool) \<Rightarrow> 'g matcher \<Rightarrow> string \<Rightarrow> bool" where
  "matcher_matches is_match (Matcher (Some g) pat) s = is_match g s"
| "matcher_matches is_match (Matcher None pat) s = eq_ignore_ascii_case pat s"

text \<open>Matchers are compared by their pattern text only.\<close>

fun matcher_eq :: "'g matcher \<Rightarrow> 'g matcher \<Rightarrow> bool" where
  "matcher_eq (Matcher _ s) (Matcher _ t) \<longleftrightarrow> s = t"

section \<open>Hosts\<close>

datatype port = PortNone | PortPattern string | PortFixed u16

fun port_from_option :: "u16 option \<Rightarrow> port" where
  "port_from_option (Some p) = PortFixed p"
| "port_from_option None = PortNone"

record 'g host =
  hostname :: string
  host_port :: port
  host_as_string :: string
  host_matcher :: "'g matcher"

definition u16_text :: "u16 \<Rightarrow> string" where
  "u16_text p = dec_of_nat (unat p)"

definition pre_process :: "string \<Rightarrow> string" where
  "pre_process s =
     (let s = (case split_str ''://'' s of protocol # data # _ \<Rightarrow> data | [protocol] \<Rightarrow> protocol | [] \<Rightarrow> [])
      in to_lowercase (hd (split_char (CHR ''/'') s)))"

fun host_to_string :: "string \<Rightarrow> port \<Rightarrow> string" where
  "host_to_string h (PortFixed p) = h @ '':'' @ u16_text p"
| "host_to_string h (PortPattern p) = h @ '':'' @ p"
| "host_to_string h PortNone = h"

definition host_new :: "(string \<Rightarrow> 'g option) \<Rightarrow> string \<Rightarrow> port \<Rightarrow> 'g host" where
  "host_new glob_build h p =
     (let h = pre_process h; s = host_to_string h p
      in \<lparr>hostname = h, host_port = p, host_as_string = s, host_matcher = matcher_new glob_build s\<rparr>)"

definition host_parse :: "(string \<Rightarrow> 'g option) \<Rightarrow> string \<Rightarrow> 'g host" where
  "host_parse glob_build s =
     (case split_char (CHR '':'') (pre_process s) of
        h # rest \<Rightarrow>
          host_new glob_build h
            (case rest of
               [] \<Rightarrow> PortNone
             | p # _ \<Rightarrow> (case parse_u16 p of Some n \<Rightarrow> PortFixed n | None \<Rightarrow> PortPattern p))
      | [] \<Rightarrow> host_new glob_build [] PortNone)"

definition host_matches :: "('g \<Rightarrow> string \<Rightarrow> bool) \<Rightarrow> 'g host \<Rightarrow> string \<Rightarrow> bool" where
  "host_matches is_match h s = matcher_matches is_match (host_matcher h) s"

definition host_eq :: "'g host \<Rightarrow> 'g host \<Rightarrow> bool" where
  "host_eq h k \<longleftrightarrow> hostname h = hostname k \<and> host_port h = host_port k \<and>
     host_as_string h = host_as_string k \<and> matcher_eq (host_matcher h) (host_matcher k)"

datatype 'a domains_validation = AllowOnly "'a list" | ValidationDisabled

fun domains_into_option :: "'a domains_validation \<Rightarrow> 'a list option" where
  "domains_into_option (AllowOnly xs) = Some xs"
| "domains_into_option ValidationDisabled = None"

fun domains_from_option :: "'a list option \<Rightarrow> 'a domains_validation" where
  "domains_from_option (Some xs) = AllowOnly xs"
| "domains_from_option None = ValidationDisabled"

fun is_host_valid :: "('g \<Rightarrow> string \<Rightarrow> bool) \<Rightarrow> string option \<Rightarrow> 'g host list option \<Rightarrow> bool" where
  "is_host_valid is_match h None = True"
| "is_host_valid is_match None (Some allowed) = False"
| "is_host_valid is_match (Some h) (Some allowed) = list_ex (\<lambda>a. host_matches is_match a h) allowed"

section \<open>Updating the list with the server's address\<close>

datatype socket_addr = SocketV4 u8 u8 u8 u8 u16 | SocketV6 string u16

definition u8_text :: "u8 \<Rightarrow> string" where
  "u8_text n = dec_of_nat (unat n)"

definition ipv4_text :: "u8 \<Rightarrow> u8 \<Rightarrow> u8 \<Rightarrow> u8 \<Rightarrow> string" where
  "ipv4_text a b c d = u8_text a @ ''.'' @ u8_text b @ ''.'' @ u8_text c @ ''.'' @ u8_text d"

fun socket_addr_text :: "socket_addr \<Rightarrow> string" where
  "socket_addr_text (SocketV4 a b c d p) = ipv4_text a b c d @ '':'' @ u16_text p"
| "socket_addr_text (SocketV6 t p) = ''['' @ t @ '']:'' @ u16_text p"

definition replace_str :: "string \<Rightarrow> string \<Rightarrow> string \<Rightarrow> string" where
  "replace_str s pat t = join_str t (split_str pat s)"

text \<open>A \<open>HashSet<Host>\<close>, in insertion order; the code does not depend on the order.\<close>

definition hosts_insert :: "'g host \<Rightarrow> 'g host list \<Rightarrow> 'g host list" where
  "hosts_insert h hs = (if list_ex (host_eq h) hs then hs else hs @ [h])"

fun ip_is :: "u8 \<Rightarrow> u8 \<Rightarrow> u8 \<Rightarrow> u8 \<Rightarrow> socket_addr \<Rightarrow> bool" where
  "ip_is a b c d (SocketV4 a' b' c' d' _) \<longleftrightarrow> a' = a \<and> b' = b \<and> c' = c \<and> d' = d"
| "ip_is a b c d (SocketV6 _ _) \<longleftrightarrow> False"

definition hosts_update ::
    "(string \<Rightarrow> 'g option) \<Rightarrow> 'g host list option \<Rightarrow> socket_addr \<Rightarrow> 'g host list option" where
  "hosts_update glob_build hosts address = map_option (\<lambda>current.
     let new_hosts = foldl (\<lambda>hs h. hosts_insert h hs) [] current;
         s = socket_addr_text address;
         new_hosts =
           (if ip_is 0 0 0 0 address then
              hosts_insert (host_parse glob_build (replace_str s ''0.0.0.0'' ''localhost''))
                (hosts_insert (host_parse glob_build (replace_str s ''0.0.0.0'' ''127.0.0.1'')) new_hosts)
            else if ip_is 127 0 0 1 address then
              hosts_insert (host_parse glob_build (replace_str s ''127.0.0.1'' ''localhost'')) new_hosts
            else new_hosts)
     in hosts_insert (host_parse glob_build s) new_hosts) hosts"

section \<open>Lemmas\<close>

lemma is_prefix_set: "is_prefix p s \<Longrightarrow> set p \<subseteq> set s"
  unfolding is_prefix_def by (metis set_take_subset)

lemma split_go_absent: "c \<in> set pat \<Longrightarrow> c \<notin> set s \<Longrightarrow> split_go pat acc s = [rev acc @ s]"
proof (induction s arbitrary: acc)
  case Nil
  then show ?case by (subst split_go.simps) (auto dest: is_prefix_set)
next
  case (Cons x xs)
  then have "\<not> is_prefix pat (x # xs)" using is_prefix_set [of pat "x # xs"] by auto
  with Cons show ?case by (subst split_go.simps) simp
qed

lemma split_str_absent: "c \<in> set pat \<Longrightarrow> c \<notin> set s \<Longrightarrow> split_str pat s = [s]"
  by (simp add: split_str_def split_go_absent)

lemma lower_char_slash: "lower_char c = CHR ''/'' \<longleftrightarrow> c = CHR ''/''"
proof
  assume *: "lower_char c = CHR ''/''"
  show "c = CHR ''/''"
  proof (cases "65 \<le> (of_char c :: nat) \<and> (of_char c :: nat) \<le> 90")
    case True
    with * have "(of_char (char_of ((of_char c :: nat) + 32)) :: nat) = of_char (CHR ''/'')"
      by (simp add: lower_char_def)
    with True show ?thesis by simp
  next
    case False
    with * show ?thesis by (auto simp: lower_char_def split: if_splits)
  qed
qed (simp add: lower_char_def)

lemma to_lowercase_slash: "CHR ''/'' \<in> set (to_lowercase s) \<longleftrightarrow> CHR ''/'' \<in> set s"
  by (auto simp: to_lowercase_def image_iff eq_commute [of "CHR ''/''"] lower_char_slash)

text \<open>A name without a slash, in lower case, is its own preprocessed form.\<close>

definition clean_name :: "string \<Rightarrow> bool" where
  "clean_name s \<longleftrightarrow> CHR ''/'' \<notin> set s \<and> to_lowercase s = s"

lemma pre_process_clean: "clean_name s \<Longrightarrow> pre_process s = s"
  by (simp add: clean_name_def pre_process_def split_str_absent [of "CHR ''/''"] split_char_absent)

lemma clean_pre_process: "clean_name (pre_process s)"
proof -
  have "CHR ''/'' \<notin> set (hd (split_char (CHR ''/'') t))" for t
    by (rule split_char_pieces [of _ _ t]) (simp add: hd_in_set)
  then show ?thesis by (simp add: clean_name_def pre_process_def Let_def to_lowercase_slash)
qed

lemma clean_append [simp]: "clean_name (s @ t) \<longleftrightarrow> clean_name s \<and> clean_name t"
  by (auto simp: clean_name_def) (simp_all add: to_lowercase_def append_eq_append_conv)

lemma clean_colon [simp]: "clean_name '':''"
  by (simp add: clean_name_def to_lowercase_def lower_char_def)

lemma clean_Cons_colon [simp]: "clean_name (CHR '':'' # s) \<longleftrightarrow> clean_name s"
  using clean_append [of "'':''" s] by simp

lemma clean_piece:
  assumes "clean_name s" "p \<in> set (split_char c s)"
  shows "clean_name p"
proof -
  have "set p \<subseteq> set s" using assms(2) by (rule split_char_piece_set)
  moreover from assms(1) have "\<forall>x \<in> set s. lower_char x = x"
    by (simp add: clean_name_def to_lowercase_def list.map_ident_strong map_eq_conv [of _ _ "\<lambda>x. x", simplified])
  ultimately show ?thesis
    using assms(1) by (auto simp: clean_name_def to_lowercase_def intro!: map_idI)
qed

lemma digits_clean: "list_all is_digit s \<Longrightarrow> clean_name s"
  by (auto simp: clean_name_def to_lowercase_def list_all_iff lower_char_digit is_digit_def intro!: map_idI)

lemma u16_text_clean [simp]: "clean_name (u16_text p)"
  by (simp add: u16_text_def digits_clean)

lemma parse_u16_text [simp]: "parse_u16 (u16_text p) = Some p"
proof -
  have "unat p < 65536" using unsigned_less [of p] by simp
  then show ?thesis by (simp add: u16_text_def)
qed

lemma colon_not_in_digits: "list_all is_digit s \<Longrightarrow> CHR '':'' \<notin> set s"
  by (auto simp: list_all_iff is_digit_def)

lemma u16_text_colon [simp]: "CHR '':'' \<notin> set (u16_text p)"
  by (simp add: u16_text_def colon_not_in_digits)

text \<open>The port part a parsed host can have: none, a number, or a clean text that is not one.\<close>

fun clean_port :: "port \<Rightarrow> bool" where
  "clean_port PortNone = True"
| "clean_port (PortFixed p) = True"
| "clean_port (PortPattern p) \<longleftrightarrow> clean_name p \<and> CHR '':'' \<notin> set p \<and> parse_u16 p = None"

lemma host_parse_text:
  assumes "clean_name h" "CHR '':'' \<notin> set h" "clean_port p"
  shows "host_parse glob_build (host_to_string h p) = host_new glob_build h p"
proof (cases p)
  case PortNone
  then show ?thesis using assms by (simp add: host_parse_def pre_process_clean split_char_absent)
next
  case (PortPattern q)
  then show ?thesis
    using assms by (simp add: host_parse_def pre_process_clean split_char_append split_char_absent)
next
  case (PortFixed n)
  then show ?thesis
    using assms by (simp add: host_parse_def pre_process_clean split_char_append split_char_absent)
qed

lemma host_parse_shape:
  obtains h p where "host_parse glob_build s = host_new glob_build h p" "clean_name h" "CHR '':'' \<notin> set h" "clean_port p"
proof -
  have cl: "clean_name (pre_process s)" by (rule clean_pre_process)
  obtain h rest where sp: "split_char (CHR '':'') (pre_process s) = h # rest"
    by (cases "split_char (CHR '':'') (pre_process s)") simp_all
  have piece: "clean_name q \<and> CHR '':'' \<notin> set q" if "q \<in> set (h # rest)" for q
    using that sp clean_piece [OF cl, of q] split_char_pieces [of q] by metis
  show thesis
  proof (rule that)
    show "host_parse glob_build s = host_new glob_build h (case rest of [] \<Rightarrow> PortNone
        | p # _ \<Rightarrow> (case parse_u16 p of Some n \<Rightarrow> PortFixed n | None \<Rightarrow> PortPattern p))"
      by (simp add: host_parse_def sp)
    show "clean_name h" "CHR '':'' \<notin> set h" using piece by simp_all
    show "clean_port (case rest of [] \<Rightarrow> PortNone
        | p # _ \<Rightarrow> (case parse_u16 p of Some n \<Rightarrow> PortFixed n | None \<Rightarrow> PortPattern p))"
      using piece by (auto split: list.splits option.splits)
  qed
qed

lemma host_new_as_string: "clean_name h \<Longrightarrow> host_as_string (host_new glob_build h p) = host_to_string h p"
  by (simp add: host_new_def pre_process_clean Let_def)

text \<open>Parsing a host is idempotent: the text of a parsed host parses to that host, whatever
  protocol prefix, path, upper case letters or spelling of the port the input had.\<close>

theorem host_parse_idempotent:
  "host_parse glob_build (host_as_string (host_parse glob_build s)) = host_parse glob_build s"
  by (rule host_parse_shape [of glob_build s]) (simp add: host_new_as_string host_parse_text)

text \<open>The private fields of a host are only set by its constructors, so its matcher is the one
  built from its text; two such hosts that compare equal are the same.\<close>

definition host_wf :: "(string \<Rightarrow> 'g option) \<Rightarrow> 'g host \<Rightarrow> bool" where
  "host_wf glob_build h \<longleftrightarrow> host_matcher h = matcher_new glob_build (host_as_string h)"

lemma host_new_wf [simp]: "host_wf glob_build (host_new glob_build h p)"
  by (simp add: host_wf_def host_new_def Let_def)

lemma host_parse_wf [simp]: "host_wf glob_build (host_parse glob_build s)"
  by (rule host_parse_shape [of glob_build s]) simp

lemma host_eq_wf: "host_wf glob_build h \<Longrightarrow> host_wf glob_build k \<Longrightarrow> host_eq h k \<longleftrightarrow> h = k"
  by (cases h; cases k) (auto simp: host_eq_def host_wf_def matcher_new_def)

lemma hosts_insert_wf [simp]:
  "list_all (host_wf glob_build) hs \<Longrightarrow> host_wf glob_build h \<Longrightarrow> list_all (host_wf glob_build) (hosts_insert h hs)"
  by (simp add: hosts_insert_def)

lemma hosts_insert_set:
  assumes "list_all (host_wf glob_build) hs" "host_wf glob_build h"
  shows "set (hosts_insert h hs) = insert h (set hs)"
proof -
  have "list_ex (host_eq h) hs \<longleftrightarrow> h \<in> set hs"
    using assms by (auto simp: list_ex_iff list_all_iff host_eq_wf [of glob_build])
  then show ?thesis by (auto simp: hosts_insert_def)
qed

lemma hosts_collect:
  assumes "list_all (host_wf glob_build) current" "list_all (host_wf glob_build) hs"
  shows "list_all (host_wf glob_build) (foldl (\<lambda>hs h. hosts_insert h hs) hs current) \<and>
    set (foldl (\<lambda>hs h. hosts_insert h hs) hs current) = set hs \<union> set current"
  using assms
proof (induction current arbitrary: hs)
  case (Cons h current)
  then show ?case using Cons.IH [of "hosts_insert h hs"] hosts_insert_set [of glob_build hs h] by auto
qed simp

lemma hosts_update_set:
  assumes "list_all (host_wf glob_build) hosts"
  shows "\<exists>hs. hosts_update glob_build (Some hosts) address = Some hs \<and>
    set hs = set hosts \<union> {host_parse glob_build (socket_addr_text address)} \<union>
      (if ip_is 0 0 0 0 address then
         {host_parse glob_build (replace_str (socket_addr_text address) ''0.0.0.0'' ''127.0.0.1''),
          host_parse glob_build (replace_str (socket_addr_text address) ''0.0.0.0'' ''localhost'')}
       else if ip_is 127 0 0 1 address then
         {host_parse glob_build (replace_str (socket_addr_text address) ''127.0.0.1'' ''localhost'')}
       else {})"
  using assms hosts_collect [of glob_build hosts "[]"]
  by (auto simp: hosts_update_def Let_def hosts_insert_set [of glob_build])

text \<open>Text with no special character of the glob syntax.\<close>

definition glob_plain :: "string \<Rightarrow> bool" where
  "glob_plain s \<longleftrightarrow> list_all (\<lambda>c. c \<notin> set (CHR 0x5C # ''*?[]{}!'')) s"

lemma digits_plain: "list_all is_digit s \<Longrightarrow> glob_plain s"
  by (auto simp: glob_plain_def list_all_iff is_digit_def)

lemma glob_plain_append [simp]: "glob_plain (s @ t) \<longleftrightarrow> glob_plain s \<and> glob_plain t"
  by (simp add: glob_plain_def)

lemma u16_text_plain [simp]: "glob_plain (u16_text p)"
  by (simp add: u16_text_def digits_plain)

lemma host_matches_plain:
  assumes lit: "\<And>s g t. glob_plain s \<Longrightarrow> glob_build s = Some g \<Longrightarrow> is_match g t \<longleftrightarrow> eq_ignore_ascii_case s t"
    and "clean_name h" "CHR '':'' \<notin> set h" "clean_port p" "glob_plain (host_to_string h p)"
  shows "host_matches is_match (host_parse glob_build (host_to_string h p)) (host_to_string h p)"
proof (cases "glob_build (host_to_string h p)")
  case None
  with assms show ?thesis
    by (simp add: host_parse_text host_matches_def host_new_def Let_def pre_process_clean matcher_new_def)
next
  case (Some g)
  with assms lit [OF assms(5) Some] show ?thesis
    by (simp add: host_parse_text host_matches_def host_new_def Let_def pre_process_clean matcher_new_def)
qed

lemma is_prefix_append [simp]: "is_prefix p (p @ s)"
  by (simp add: is_prefix_def)

lemma replace_str_prefix:
  assumes "c \<in> set pat" "c \<notin> set rest"
  shows "replace_str (pat @ rest) pat t = t @ rest"
proof -
  have "pat \<noteq> []" using assms(1) by auto
  then have "split_str pat (pat @ rest) = [[], rest]"
    using split_go_absent [OF assms, of "[]"] by (subst split_str_def, subst split_go.simps) simp
  then show ?thesis by (simp add: replace_str_def)
qed

lemma digits_no_dot: "list_all is_digit s \<Longrightarrow> CHR ''.'' \<notin> set s"
  by (auto simp: list_all_iff is_digit_def)

lemma replace_addr:
  assumes "CHR ''.'' \<in> set pat"
  shows "replace_str (pat @ '':'' @ u16_text p) pat t = t @ '':'' @ u16_text p"
  by (rule replace_str_prefix [OF assms]) (simp add: u16_text_def digits_no_dot)

lemma ipv4_text_known: "ipv4_text 0 0 0 0 = ''0.0.0.0''" "ipv4_text 127 0 0 1 = ''127.0.0.1''"
  by (simp_all add: ipv4_text_def u8_text_def dec_of_nat.simps digit_char_def char_of_def bit_Suc_0_iff)

lemma ipv4_text_ok:
  "clean_name (ipv4_text a b c d)" "CHR '':'' \<notin> set (ipv4_text a b c d)" "glob_plain (ipv4_text a b c d)"
proof -
  have "clean_name ''.''" "glob_plain ''.''"
    by (simp_all add: clean_name_def to_lowercase_def lower_char_def glob_plain_def)
  then show "clean_name (ipv4_text a b c d)" "CHR '':'' \<notin> set (ipv4_text a b c d)" "glob_plain (ipv4_text a b c d)"
    by (simp_all add: ipv4_text_def u8_text_def digits_clean digits_plain colon_not_in_digits
        del: append_Cons append_Nil)
qed

lemma replace_own_address:
  "ip_is 0 0 0 0 (SocketV4 a b c d p) \<Longrightarrow>
     replace_str (socket_addr_text (SocketV4 a b c d p)) ''0.0.0.0'' h = host_to_string h (PortFixed p)"
  "ip_is 127 0 0 1 (SocketV4 a b c d p) \<Longrightarrow>
     replace_str (socket_addr_text (SocketV4 a b c d p)) ''127.0.0.1'' h = host_to_string h (PortFixed p)"
  using replace_addr [of "''0.0.0.0''" p h] replace_addr [of "''127.0.0.1''" p h]
  by (auto simp: ipv4_text_known)

lemma hosts_update_own:
  assumes lit: "\<And>s g t. glob_plain s \<Longrightarrow> glob_build s = Some g \<Longrightarrow> is_match g t \<longleftrightarrow> eq_ignore_ascii_case s t"
    and wf: "list_all (host_wf glob_build) hosts"
  shows "\<exists>hs. hosts_update glob_build (Some hosts) (SocketV4 a b c d p) = Some hs \<and> set hosts \<subseteq> set hs \<and>
    is_host_valid is_match (Some (socket_addr_text (SocketV4 a b c d p))) (Some hs) \<and>
    (ip_is 0 0 0 0 (SocketV4 a b c d p) \<or> ip_is 127 0 0 1 (SocketV4 a b c d p) \<longrightarrow>
      is_host_valid is_match (Some (''localhost:'' @ u16_text p)) (Some hs) \<and>
      is_host_valid is_match (Some (''127.0.0.1:'' @ u16_text p)) (Some hs))"
proof -
  let ?addr = "SocketV4 a b c d p"
  let ?local = "host_to_string ''localhost'' (PortFixed p)"
  let ?loop = "host_to_string (ipv4_text 127 0 0 1) (PortFixed p)"
  let ?own = "host_to_string (ipv4_text a b c d) (PortFixed p)"
  have loc: "clean_name ''localhost''" "CHR '':'' \<notin> set ''localhost''" "glob_plain ''localhost''" "glob_plain '':''"
    by (simp_all add: clean_name_def to_lowercase_def lower_char_def glob_plain_def)
  have m: "host_matches is_match (host_parse glob_build ?local) ?local"
      "host_matches is_match (host_parse glob_build ?loop) ?loop"
      "host_matches is_match (host_parse glob_build ?own) ?own"
    using loc ipv4_text_ok by (intro host_matches_plain [OF lit]; simp del: append_Cons append_Nil)+
  have own: "socket_addr_text ?addr = ?own" by simp
  obtain hs where hs: "hosts_update glob_build (Some hosts) ?addr = Some hs"
    and S: "set hs = set hosts \<union> {host_parse glob_build (socket_addr_text ?addr)} \<union>
      (if ip_is 0 0 0 0 ?addr then
         {host_parse glob_build (replace_str (socket_addr_text ?addr) ''0.0.0.0'' ''127.0.0.1''),
          host_parse glob_build (replace_str (socket_addr_text ?addr) ''0.0.0.0'' ''localhost'')}
       else if ip_is 127 0 0 1 ?addr then
         {host_parse glob_build (replace_str (socket_addr_text ?addr) ''127.0.0.1'' ''localhost'')}
       else {})"
    using hosts_update_set [OF wf, of ?addr] by blast
  have mem: "set hosts \<subseteq> set hs" "host_parse glob_build ?own \<in> set hs"
    unfolding S own [symmetric] by blast+
  have any: "host_parse glob_build ?local \<in> set hs" "host_parse glob_build ?loop \<in> set hs" if "ip_is 0 0 0 0 ?addr"
    unfolding S replace_own_address(1) [OF that] ipv4_text_known(2) using that by simp_all
  have lo: "host_parse glob_build ?local \<in> set hs" "host_parse glob_build ?loop \<in> set hs" if i: "ip_is 127 0 0 1 ?addr"
  proof -
    from i have "\<not> ip_is 0 0 0 0 ?addr" "?loop = ?own" by auto
    with mem(2) show "host_parse glob_build ?local \<in> set hs" "host_parse glob_build ?loop \<in> set hs"
      unfolding S replace_own_address(2) [OF i] using i by simp_all
  qed
  have "''localhost:'' @ u16_text p = ?local" "''127.0.0.1:'' @ u16_text p = ?loop"
    by (simp_all add: ipv4_text_known)
  with own hs mem any lo m show ?thesis by (auto simp: list_ex_iff simp del: host_to_string.simps socket_addr_text.simps)
qed

text \<open>A server that validates hosts accepts requests to the IPv4 address it listens on: after
  \<open>update\<close> the address, and for the wildcard and the loopback address also its
  \<open>localhost\<close> (and \<open>127.0.0.1\<close>) spelling, is on the list, and no host is dropped from it.
  A glob without special characters is assumed to match exactly the texts equal to it up to
  ASCII case.\<close>

theorem update_accepts_own_address:
  assumes lit: "\<And>s g t. glob_plain s \<Longrightarrow> glob_build s = Some g \<Longrightarrow> is_match g t \<longleftrightarrow> eq_ignore_ascii_case s t"
    and wf: "list_all (host_wf glob_build) hosts"
  shows "\<exists>hs. hosts_update glob_build (Some hosts) (SocketV4 a b c d p) = Some hs \<and> set hosts \<subseteq> set hs \<and>
    is_host_valid is_match (Some (socket_addr_text (SocketV4 a b c d p))) (Some hs) \<and>
    (ip_is 0 0 0 0 (SocketV4 a b c d p) \<or> ip_is 127 0 0 1 (SocketV4 a b c d p) \<longrightarrow>
      is_host_valid is_match (Some (''localhost:'' @ u16_text p)) (Some hs) \<and>
      is_host_valid is_match (Some (''127.0.0.1:'' @ u16_text p)) (Some hs))"
  using assms by (rule hosts_update_own)

theorem update_accepts_own_address_witness:
  "\<exists>hs. hosts_update (\<lambda>s. if glob_plain s then Some s else None) (Some []) (SocketV4 0 0 0 0 8545) = Some hs \<and>
    is_host_valid eq_ignore_ascii_case (Some (''localhost:'' @ u16_text 8545)) (Some hs)"
  using update_accepts_own_address [of "\<lambda>s. if glob_plain s then Some s else None" eq_ignore_ascii_case "[]" 0 0 0 0 8545]
  by (auto split: if_splits)

end
