(* ===== verification/Cors.thy ===== *)
theory Cors
  imports Hosts
begin

text \<open>
  Cross-origin checks (\<open>server-utils/src/cors.rs\<close>): origins, the list of allowed origins,
  \<open>get_cors_allow_origin\<close> and \<open>get_cors_allow_headers\<close>. Header names are compared as
  \<open>unicase::Ascii\<close> compares them, ignoring ASCII case; \<open>to_result\<close> is the caller's
  conversion of a header name.
\<close>

section \<open>Origins\<close>

datatype origin_protocol = ProtoHttp | ProtoHttps | ProtoCustom string

record 'g origin =
  or_protocol :: origin_protocol
  or_host :: "'g host"
  or_as_string :: string
  or_matcher :: "'g matcher"

fun origin_protocol_text :: "origin_protocol \<Rightarrow> string" where
  "origin_protocol_text ProtoHttp = ''http''"
| "origin_protocol_text ProtoHttps = ''https''"
| "origin_protocol_text (ProtoCustom p) = p"

definition origin_to_string :: "origin_protocol \<Rightarrow> 'g host \<Rightarrow> string" where
  "origin_to_string p h = origin_protocol_text p @ ''://'' @ host_as_string h"

definition origin_with_host :: "(string \<Rightarrow> 'g option) \<Rightarrow> origin_protocol \<Rightarrow> 'g host \<Rightarrow> 'g origin" where
  "origin_with_host glob_build p h =
     (let s = origin_to_string p h
      in \<lparr>or_protocol = p, or_host = h, or_as_string = s, or_matcher = matcher_new glob_build s\<rparr>)"

definition origin_new :: "(string \<Rightarrow> 'g option) \<Rightarrow> origin_protocol \<Rightarrow> string \<Rightarrow> port \<Rightarrow> 'g origin" where
  "origin_new glob_build p h port = origin_with_host glob_build p (host_new glob_build h port)"

definition origin_parse :: "(string \<Rightarrow> 'g option) \<Rightarrow> string \<Rightarrow> 'g origin" where
  "origin_parse glob_build data =
     (let (proto, name) =
            (case split_str ''://'' data of
               p # h # _ \<Rightarrow> (Some p, h) | [p] \<Rightarrow> (None, p) | [] \<Rightarrow> (None, []));
          proto = map_option to_lowercase proto;
          h = host_parse glob_build name;
          protocol =
            (case proto of
               None \<Rightarrow> ProtoHttp
             | Some p \<Rightarrow> if p = ''http'' then ProtoHttp else if p = ''https'' then ProtoHttps else ProtoCustom p)
      in origin_with_host glob_build protocol h)"

definition origin_matches :: "('g \<Rightarrow> string \<Rightarrow> bool) \<Rightarrow> 'g origin \<Rightarrow> string \<Rightarrow> bool" where
  "origin_matches is_match org s = matcher_matches is_match (or_matcher org) s"

section \<open>Allowed origins\<close>

datatype 'g allow_origin = OriginValue "'g origin" | OriginNull | OriginAny

fun allow_origin_text :: "'g allow_origin \<Rightarrow> string" where
  "allow_origin_text OriginAny = ''*''"
| "allow_origin_text OriginNull = ''null''"
| "allow_origin_text (OriginValue v) = or_as_string v"

definition allow_origin_from :: "(string \<Rightarrow> 'g option) \<Rightarrow> string \<Rightarrow> 'g allow_origin" where
  "allow_origin_from glob_build s =
     (if s \<in> {''all'', ''*'', ''any''} then OriginAny
      else if s = ''null'' then OriginNull
      else OriginValue (origin_parse glob_build s))"

datatype allow_headers = HeadersOnly "string list" | HeadersAny

datatype 'a allow_cors = CorsNotRequired | CorsInvalid | CorsOk 'a

fun allow_cors_map :: "('a \<Rightarrow> 'b) \<Rightarrow> 'a allow_cors \<Rightarrow> 'b allow_cors" where
  "allow_cors_map f CorsNotRequired = CorsNotRequired"
| "allow_cors_map f CorsInvalid = CorsInvalid"
| "allow_cors_map f (CorsOk v) = CorsOk (f v)"

fun allow_cors_into :: "'a allow_cors \<Rightarrow> 'a option" where
  "allow_cors_into (CorsOk v) = Some v"
| "allow_cors_into _ = None"

fun is_null_entry :: "'g allow_origin \<Rightarrow> bool" where
  "is_null_entry OriginNull = True"
| "is_null_entry _ = False"

fun entry_allows :: "('g \<Rightarrow> string \<Rightarrow> bool) \<Rightarrow> string \<Rightarrow> 'g allow_origin \<Rightarrow> bool" where
  "entry_allows is_match org OriginAny = True"
| "entry_allows is_match org (OriginValue v) = origin_matches is_match v org"
| "entry_allows is_match org OriginNull = False"

definition same_server :: "(string \<Rightarrow> 'g option) \<Rightarrow> string \<Rightarrow> string option \<Rightarrow> bool" where
  "same_server glob_build org h =
     (case h of
        None \<Rightarrow> False
      | Some h \<Rightarrow> ends_with org h \<and> host_as_string (or_host (origin_parse glob_build org)) = h)"

definition get_cors_allow_origin ::
    "(string \<Rightarrow> 'g option) \<Rightarrow> ('g \<Rightarrow> string \<Rightarrow> bool) \<Rightarrow> string option \<Rightarrow> string option
     \<Rightarrow> 'g allow_origin list option \<Rightarrow> 'g allow_origin allow_cors" where
  "get_cors_allow_origin glob_build is_match org h allowed =
     (case org of
        None \<Rightarrow> CorsNotRequired
      | Some org \<Rightarrow>
          if same_server glob_build org h then CorsNotRequired
          else
            (case allowed of
               None \<Rightarrow>
                 if org = ''null'' then CorsOk OriginNull else CorsOk (OriginValue (origin_parse glob_build org))
             | Some allowed \<Rightarrow>
                 if org = ''null'' then
                   (case find is_null_entry allowed of Some c \<Rightarrow> CorsOk c | None \<Rightarrow> CorsInvalid)
                 else
                   (case find (entry_allows is_match org) allowed of
                      Some _ \<Rightarrow> CorsOk (OriginValue (origin_parse glob_build org))
                    | None \<Rightarrow> CorsInvalid)))"

section \<open>Allowed headers\<close>

definition always_allowed_headers :: "string list" where
  "always_allowed_headers =
     [''Accept'', ''Accept-Language'', ''Access-Control-Allow-Origin'', ''Access-Control-Request-Headers'',
      ''Content-Language'', ''Content-Type'', ''Host'', ''Origin'', ''Content-Length'', ''Connection'', ''User-Agent'']"

definition header_allowed :: "string list \<Rightarrow> string \<Rightarrow> bool" where
  "header_allowed only name \<longleftrightarrow>
     list_ex (\<lambda>h. eq_ignore_ascii_case h name) only \<or> list_ex (\<lambda>h. eq_ignore_ascii_case h name) always_allowed_headers"

definition get_cors_allow_headers ::
    "string list \<Rightarrow> string list \<Rightarrow> allow_headers \<Rightarrow> (string \<Rightarrow> 'o) \<Rightarrow> 'o list allow_cors" where
  "get_cors_allow_headers headers requested allow to_result =
     (if (case allow of HeadersOnly only \<Rightarrow> \<not> list_all (header_allowed only) headers | HeadersAny \<Rightarrow> False)
      then CorsInvalid
      else
        (let (filtered, hs) =
               (case allow of
                  HeadersAny \<Rightarrow> (False, map to_result requested)
                | HeadersOnly only \<Rightarrow> (requested \<noteq> [], map to_result (filter (header_allowed only) requested)))
         in if hs = [] then (if filtered then CorsInvalid else CorsNotRequired) else CorsOk hs))"

section \<open>Properties\<close>

lemma find_eq_None: "find P xs = None \<longleftrightarrow> \<not> list_ex P xs"
  by (auto simp: find_None_iff list_ex_iff)

lemma find_null_entry: "find is_null_entry xs = Some c \<Longrightarrow> c = OriginNull"
  by (auto simp: find_Some_iff elim: is_null_entry.elims)

text \<open>C31: an origin is granted access only as configured. For a cross-origin request with a list
  of allowed origins, access is granted exactly when some entry allows the origin (the null
  origin only through a \<open>Null\<close> entry, never through \<open>Any\<close>), it is refused otherwise, and
  what is returned names that very origin and never the wildcard.\<close>

theorem cors_origin_decision:
  assumes "\<not> same_server glob_build org h"
  shows "get_cors_allow_origin glob_build is_match (Some org) h (Some allowed) =
    (if org = ''null'' then (if OriginNull \<in> set allowed then CorsOk OriginNull else CorsInvalid)
     else if \<exists>a \<in> set allowed. a = OriginAny \<or> (\<exists>v. a = OriginValue v \<and> origin_matches is_match v org)
     then CorsOk (OriginValue (origin_parse glob_build org)) else CorsInvalid)"
proof -
  have null: "list_ex is_null_entry allowed \<longleftrightarrow> OriginNull \<in> set allowed"
    by (force simp: list_ex_iff elim: is_null_entry.elims)
  have allows: "entry_allows is_match org a \<longleftrightarrow> a = OriginAny \<or> (\<exists>v. a = OriginValue v \<and> origin_matches is_match v org)" for a
    by (cases a) auto
  show ?thesis
    using assms find_eq_None [of is_null_entry allowed] find_eq_None [of "entry_allows is_match org" allowed]
      find_null_entry [of allowed] null allows
    by (auto simp: get_cors_allow_origin_def list_ex_iff split: option.splits)
qed

theorem cors_origin_decision_witness:
  "get_cors_allow_origin (\<lambda>s. None :: unit option) (\<lambda>g s. False) (Some ''null'') (Some ''parity.io'') (Some [OriginAny]) = CorsInvalid"
proof -
  have "\<not> same_server (\<lambda>s. None :: unit option) ''null'' (Some ''parity.io'')"
    by (simp add: same_server_def ends_with_def is_prefix_def)
  then show ?thesis
    using cors_origin_decision [of "\<lambda>s. None :: unit option" "''null''" "Some ''parity.io''" "\<lambda>g s. False" "[OriginAny]"]
    by simp
qed

lemma split_go_skip:
  assumes "pat = c # cs" "c \<notin> set s"
  shows "split_go pat acc (s @ t) = split_go pat (rev s @ acc) t"
  using assms(2)
proof (induction s arbitrary: acc)
  case (Cons x xs)
  then have "\<not> is_prefix pat (x # xs @ t)" using assms(1) by (auto simp: is_prefix_def)
  with Cons show ?case by (subst split_go.simps) simp
qed simp

lemma split_origin:
  assumes "CHR '':'' \<notin> set proto" "CHR ''/'' \<notin> set rest"
  shows "split_str ''://'' (proto @ ''://'' @ rest) = [proto, rest]"
proof -
  have "split_str ''://'' (proto @ ''://'' @ rest) = split_go ''://'' (rev proto) (''://'' @ rest)"
    unfolding split_str_def using split_go_skip [of "''://''" "CHR '':''" "''//''" proto "[]"] assms(1) by simp
  also have "\<dots> = [proto, rest]"
    using split_go_absent [of "CHR ''/''" "''://''" rest "[]"] assms(2)
    by (subst split_go.simps) (simp add: is_prefix_def)
  finally show ?thesis .
qed

lemma host_text_clean: "CHR ''/'' \<notin> set (host_as_string (host_parse glob_build s))"
proof (rule host_parse_shape [of glob_build s])
  fix h p
  assume "host_parse glob_build s = host_new glob_build h p" "clean_name h" "clean_port p"
  moreover have "CHR ''/'' \<notin> set (u16_text q)" for q
    using u16_text_clean [of q] by (simp add: clean_name_def)
  ultimately show ?thesis by (cases p) (simp_all add: host_new_as_string clean_name_def)
qed

text \<open>A page served by the server itself needs no CORS header: an origin made of a protocol
  and the text of a host, requested from that host, is recognised as the same server, whatever
  origins are allowed.\<close>

theorem same_server_not_required:
  assumes "CHR '':'' \<notin> set proto" and "h = host_as_string (host_parse glob_build name)"
  shows "get_cors_allow_origin glob_build is_match (Some (proto @ ''://'' @ h)) (Some h) allowed = CorsNotRequired"
proof -
  have "ends_with (proto @ ''://'' @ h) h" by (simp add: ends_with_def is_prefix_def)
  moreover have "host_as_string (or_host (origin_parse glob_build (proto @ ''://'' @ h))) = h"
    using split_origin [OF assms(1), of h] host_text_clean [of glob_build name]
    by (simp add: assms(2) origin_parse_def origin_with_host_def Let_def host_parse_idempotent)
  ultimately show ?thesis by (simp add: get_cors_allow_origin_def same_server_def)
qed

theorem same_server_not_required_witness:
  "get_cors_allow_origin (\<lambda>s. None :: unit option) (\<lambda>g s. False)
     (Some (''https'' @ ''://'' @ host_as_string (host_parse (\<lambda>s. None :: unit option) ''parity.io:80'')))
     (Some (host_as_string (host_parse (\<lambda>s. None :: unit option) ''parity.io:80''))) (Some []) = CorsNotRequired"
  by (rule same_server_not_required) simp_all

text \<open>With a list of allowed headers, a request is refused exactly when it carries a header that
  is neither listed nor always allowed, or when it asks for headers none of which is; otherwise
  the answer lists precisely the requested headers that are allowed. Names are compared without
  regard to case.\<close>

theorem cors_headers_decision:
  "get_cors_allow_headers headers requested (HeadersOnly only) to_result =
    (let ok = (\<lambda>name. \<exists>k \<in> set (only @ always_allowed_headers). to_lowercase k = to_lowercase name)
     in if (\<exists>h \<in> set headers. \<not> ok h) \<or> (requested \<noteq> [] \<and> filter ok requested = []) then CorsInvalid
        else if requested = [] then CorsNotRequired
        else CorsOk (map to_result (filter ok requested)))"
proof -
  have "header_allowed only = (\<lambda>name. \<exists>k \<in> set (only @ always_allowed_headers). to_lowercase k = to_lowercase name)"
    by (rule ext) (simp add: header_allowed_def eq_ignore_ascii_case_def list_ex_iff bex_Un)
  then show ?thesis
    by (auto simp: get_cors_allow_headers_def Let_def list_all_iff)
qed

end
