(* ===== verification/Stream_Codec.thy ===== *)
theory Stream_Codec
  imports Prelude "HOL-Library.Sublist"
begin

text \<open>
  The codec of the byte-stream transports (\<open>server-utils/src/stream_codec.rs\<close>). Buffers are
  byte strings. In the mode without a separator the decoder scans for the end of a JSON value
  by counting brackets; its loop variables are the record \<open>scan_state\<close>. The counter
  \<open>depth\<close> is an \<open>i32\<close> in the source and changes by one per byte, so it is an \<open>int\<close> here
  (buffers stay below two gigabytes); \<open>start_idx\<close>, \<open>idx\<close> and \<open>whitespaces\<close> are \<open>usize\<close>,
  and \<open>scan_no_underflow\<close> shows that their subtraction does not wrap.

  The interface \<open>framing\<close> states what a transport relies on: that a message written by the
  encoder is found again however the stream is cut into chunks. It is interpreted on both
  modes of the decoder.
\<close>

section \<open>UTF-8 validity (\<open>str::from_utf8\<close>)\<close>

definition in_range :: "nat \<Rightarrow> nat \<Rightarrow> char \<Rightarrow> bool" where
  "in_range lo hi c \<longleftrightarrow> lo \<le> (of_char c :: nat) \<and> (of_char c :: nat) \<le> hi"

abbreviation utf8_tail :: "char \<Rightarrow> bool" where
  "utf8_tail \<equiv> in_range 0x80 0xBF"

fun utf8_valid :: "string \<Rightarrow> bool" where
  "utf8_valid [] = True"
| "utf8_valid (a # r) =
     (if in_range 0 0x7F a then utf8_valid r
      else (case r of
          [] \<Rightarrow> False
        | b # r1 \<Rightarrow>
            if in_range 0xC2 0xDF a then utf8_tail b \<and> utf8_valid r1
            else (case r1 of
                [] \<Rightarrow> False
              | c # r2 \<Rightarrow>
                  if in_range 0xE0 0xE0 a then in_range 0xA0 0xBF b \<and> utf8_tail c \<and> utf8_valid r2
                  else if in_range 0xE1 0xEC a \<or> in_range 0xEE 0xEF a then utf8_tail b \<and> utf8_tail c \<and> utf8_valid r2
                  else if in_range 0xED 0xED a then in_range 0x80 0x9F b \<and> utf8_tail c \<and> utf8_valid r2
                  else (case r2 of
                      [] \<Rightarrow> False
                    | d # r3 \<Rightarrow>
                        (in_range 0xF0 0xF0 a \<and> in_range 0x90 0xBF b \<or>
                         in_range 0xF1 0xF3 a \<and> utf8_tail b \<or>
                         in_range 0xF4 0xF4 a \<and> in_range 0x80 0x8F b) \<and>
                        utf8_tail c \<and> utf8_tail d \<and> utf8_valid r3))))"

section \<open>The codec\<close>

datatype separator = SepEmpty | SepByte char

definition default_separator :: separator where
  "default_separator = SepByte (CHR 0x0A)"

record stream_codec =
  incoming_separator :: separator
  outgoing_separator :: separator

definition codec_new :: "separator \<Rightarrow> separator \<Rightarrow> stream_codec" where
  "codec_new i out = \<lparr>incoming_separator = i, outgoing_separator = out\<rparr>"

definition default_codec :: stream_codec where
  "default_codec = codec_new default_separator default_separator"

definition stream_incoming :: stream_codec where
  "stream_incoming = codec_new SepEmpty default_separator"

definition is_whitespace :: "char \<Rightarrow> bool" where
  "is_whitespace c \<longleftrightarrow> c \<in> {CHR 0x0D, CHR 0x0A, CHR 0x20, CHR 0x09}"

definition is_open :: "char \<Rightarrow> bool" where
  "is_open c \<longleftrightarrow> c = CHR ''{'' \<or> c = CHR ''[''"

definition is_close :: "char \<Rightarrow> bool" where
  "is_close c \<longleftrightarrow> c = CHR ''}'' \<or> c = CHR '']''"

record scan_state =
  depth :: int
  in_str :: bool
  is_escaped :: bool
  start_idx :: nat
  whitespaces :: nat

definition scan_start :: scan_state where
  "scan_start = \<lparr>depth = 0, in_str = False, is_escaped = False, start_idx = 0, whitespaces = 0\<rparr>"

text \<open>The part of an iteration before the test for the end of a message.\<close>

definition scan_byte :: "nat \<Rightarrow> char \<Rightarrow> scan_state \<Rightarrow> scan_state" where
  "scan_byte idx c s =
     (let s1 =
        (if is_open c \<and> \<not> in_str s then
           s\<lparr>start_idx := (if depth s = 0 then idx else start_idx s), depth := depth s + 1\<rparr>
         else if is_close c \<and> \<not> in_str s then s\<lparr>depth := depth s - 1\<rparr>
         else if c = CHR 0x22 \<and> \<not> is_escaped s then s\<lparr>in_str := \<not> in_str s\<rparr>
         else if is_whitespace c then s\<lparr>whitespaces := whitespaces s + 1\<rparr>
         else s)
      in s1\<lparr>is_escaped := (c = CHR 0x5C \<and> \<not> is_escaped s1 \<and> in_str s1)\<rparr>)"

definition scan_done :: "nat \<Rightarrow> scan_state \<Rightarrow> bool" where
  "scan_done idx s \<longleftrightarrow> depth s = 0 \<and> idx \<noteq> start_idx s \<and> idx - start_idx s + 1 > whitespaces s"

text \<open>The scan over the rest of the buffer: the index of the last byte of a message, or the
  state in which the buffer ran out.\<close>

fun scan :: "nat \<Rightarrow> string \<Rightarrow> scan_state \<Rightarrow> nat + scan_state" where
  "scan idx [] s = Inr s"
| "scan idx (c # cs) s =
     (let s' = scan_byte idx c s in if scan_done idx s' then Inl idx else scan (Suc idx) cs s')"

datatype io_error = InvalidUtf8

fun decode_by :: "separator \<Rightarrow> string \<Rightarrow> (string option, io_error) result \<times> string" where
  "decode_by (SepByte sep) buf =
     (if sep \<in> set buf then
        (let line = takeWhile (\<lambda>b. b \<noteq> sep) buf; rest = drop (length line + 1) buf
         in if utf8_valid line then (Ok (Some line), rest) else (Err InvalidUtf8, rest))
      else (Ok None, buf))"
| "decode_by SepEmpty buf =
     (case scan 0 buf scan_start of
        Inl idx \<Rightarrow>
          (let bts = take (idx + 1) buf; rest = drop (idx + 1) buf
           in if utf8_valid bts then (Ok (Some bts), rest) else (Ok None, rest))
      | Inr _ \<Rightarrow> (Ok None, buf))"

definition decode :: "stream_codec \<Rightarrow> string \<Rightarrow> (string option, io_error) result \<times> string" where
  "decode codec buf = decode_by (incoming_separator codec) buf"

definition encode :: "stream_codec \<Rightarrow> string \<Rightarrow> string \<Rightarrow> string" where
  "encode codec msg buf =
     buf @ msg @ (case outgoing_separator codec of SepByte sep \<Rightarrow> [sep] | SepEmpty \<Rightarrow> [])"

section \<open>Reading a stream that arrives in chunks\<close>

text \<open>What a reader does with a decoder: take messages out of the buffer until none is
  complete. Every message is at least one byte long, so the length of the buffer is fuel enough.\<close>

fun drain :: "nat \<Rightarrow> (string \<Rightarrow> ('a \<times> string) option) \<Rightarrow> string \<Rightarrow> 'a list \<times> string" where
  "drain 0 dec buf = ([], buf)"
| "drain (Suc n) dec buf =
     (case dec buf of None \<Rightarrow> ([], buf) | Some (m, rest) \<Rightarrow> apfst (Cons m) (drain n dec rest))"

fun read_chunks :: "(string \<Rightarrow> ('a \<times> string) option) \<Rightarrow> string \<Rightarrow> string list \<Rightarrow> 'a list" where
  "read_chunks dec buf [] = []"
| "read_chunks dec buf (c # cs) =
     (case drain (length (buf @ c)) dec (buf @ c) of (ms, rest) \<Rightarrow> ms @ read_chunks dec rest cs)"

locale framing =
  fixes enc :: "'a \<Rightarrow> string"
    and dec :: "string \<Rightarrow> ('a \<times> string) option"
    and good :: "'a \<Rightarrow> bool"
  assumes dec_enc: "good m \<Longrightarrow> dec (enc m @ rest) = Some (m, rest)"
    and dec_partial: "good m \<Longrightarrow> strict_prefix p (enc m) \<Longrightarrow> dec p = None"
    and dec_Nil: "dec [] = None"
    and enc_nonempty: "good m \<Longrightarrow> enc m \<noteq> []"
begin

lemma drain_messages:
  assumes "list_all good ms" and "dec p = None" and "length ms \<le> n"
  shows "drain n dec (concat (map enc ms) @ p) = (ms, p)"
  using assms(1,3)
proof (induction ms arbitrary: n)
  case Nil
  then show ?case using assms(2) by (cases n) simp_all
next
  case (Cons m ms)
  then show ?case by (cases n) (simp_all add: dec_enc)
qed

lemma messages_length: "list_all good ms \<Longrightarrow> length ms \<le> length (concat (map enc ms))"
proof (induction ms)
  case (Cons m ms)
  then show ?case using enc_nonempty [of m] by (cases "enc m") simp_all
qed simp

text \<open>A prefix of a stream of messages, after which bytes \<open>t\<close> may follow that are no message, is some messages
  and a part of what comes next.\<close>

lemma stream_prefix:
  assumes "\<And>p. prefix p t \<Longrightarrow> dec p = None" and "list_all good ms" and "b @ r = concat (map enc ms) @ t"
  shows "\<exists>ms1 ms2 p. ms = ms1 @ ms2 \<and> b = concat (map enc ms1) @ p \<and> p @ r = concat (map enc ms2) @ t \<and> dec p = None"
  using assms(2,3)
proof (induction ms arbitrary: b)
  case Nil
  then have "dec b = None" using assms(1) by (auto simp: prefix_def)
  then show ?case using Nil by simp
next
  case (Cons m ms)
  then have g: "good m" and gs: "list_all good ms" by simp_all
  have "b @ r = enc m @ concat (map enc ms) @ t" using Cons.prems(2) by simp
  then obtain us where us: "b = enc m @ us \<and> us @ r = concat (map enc ms) @ t \<or> b @ us = enc m \<and> r = us @ concat (map enc ms) @ t"
    unfolding append_eq_append_conv2 by blast
  consider (long) b' where "b = enc m @ b'" "b' @ r = concat (map enc ms) @ t"
    | (short) q where "b @ q = enc m" "r = q @ concat (map enc ms) @ t" "q \<noteq> []"
    using us by (cases "us = []") auto
  then show ?case
  proof cases
    case long
    then obtain ms1 ms2 p where "ms = ms1 @ ms2" "b' = concat (map enc ms1) @ p"
      "p @ r = concat (map enc ms2) @ t" "dec p = None"
      using Cons.IH [OF gs] by blast
    with long have "m # ms = (m # ms1) @ ms2 \<and> b = concat (map enc (m # ms1)) @ p \<and>
      p @ r = concat (map enc ms2) @ t \<and> dec p = None" by simp
    then show ?thesis by blast
  next
    case short
    then have "strict_prefix b (enc m)" by (metis append_self_conv prefixI strict_prefix_def)
    then have "m # ms = [] @ (m # ms) \<and> b = concat (map enc []) @ b \<and>
      b @ r = concat (map enc (m # ms)) @ t \<and> dec b = None"
      using short g dec_partial [of m b] Cons.prems(2) by simp
    then show ?thesis by blast
  qed
qed

lemma read_chunks_rest:
  assumes "\<And>p. prefix p t \<Longrightarrow> dec p = None" and "list_all good ms" and "buf @ concat cs = concat (map enc ms) @ t"
    and "cs = [] \<Longrightarrow> ms = []"
  shows "read_chunks dec buf cs = ms"
  using assms(2-4)
proof (induction cs arbitrary: buf ms)
  case (Cons c cs)
  from Cons.prems(2) have "(buf @ c) @ concat cs = concat (map enc ms) @ t" by simp
  then obtain ms1 ms2 p where ms: "ms = ms1 @ ms2" "buf @ c = concat (map enc ms1) @ p"
    "p @ concat cs = concat (map enc ms2) @ t" "dec p = None"
    using stream_prefix [OF assms(1) Cons.prems(1)] by blast
  with Cons.prems(1) have g: "list_all good ms1" "list_all good ms2" by simp_all
  have "drain (length (buf @ c)) dec (buf @ c) = (ms1, p)"
    using drain_messages [OF g(1) ms(4), of "length (buf @ c)"] messages_length [OF g(1)] ms(2) by simp
  moreover have "ms2 = []" if "cs = []"
    using that ms(3,4) g(2) dec_enc by (cases ms2) auto
  ultimately show ?case using Cons.IH [OF g(2) ms(3)] ms(1) by simp
qed simp

lemma read_chunks_all:
  assumes "list_all good ms" and "buf @ concat cs = concat (map enc ms)" and "cs = [] \<Longrightarrow> ms = []"
  shows "read_chunks dec buf cs = ms"
  by (rule read_chunks_rest [where t = "[]"]) (use assms in \<open>simp_all add: dec_Nil\<close>)

end

section \<open>The separator mode\<close>

text \<open>The next complete message a reader takes from its buffer.\<close>

definition next_message :: "separator \<Rightarrow> string \<Rightarrow> (string \<times> string) option" where
  "next_message sep buf = (case decode_by sep buf of (Ok (Some m), rest) \<Rightarrow> Some (m, rest) | _ \<Rightarrow> None)"

lemma takeWhile_sep: "sep \<notin> set m \<Longrightarrow> takeWhile (\<lambda>b. b \<noteq> sep) (m @ sep # r) = m"
  by (induction m) auto

lemma strict_prefix_snoc: "strict_prefix p (m @ [sep]) \<Longrightarrow> set p \<subseteq> set m"
  by (metis prefix_snoc set_mono_prefix strict_prefix_def)

lemma byte_message:
  assumes "utf8_valid m" "sep \<notin> set m"
  shows "next_message (SepByte sep) (m @ sep # rest) = Some (m, rest)"
  using assms by (simp add: next_message_def takeWhile_sep)

interpretation byte_codec: framing
  "\<lambda>m. encode (codec_new i (SepByte sep)) m []" "next_message (SepByte sep)" "\<lambda>m. utf8_valid m \<and> sep \<notin> set m"
  for i sep
proof unfold_locales
  fix m rest
  assume "utf8_valid m \<and> sep \<notin> set m"
  then show "next_message (SepByte sep) (encode (codec_new i (SepByte sep)) m [] @ rest) = Some (m, rest)"
    by (simp add: encode_def codec_new_def byte_message)
next
  fix m p
  assume "utf8_valid m \<and> sep \<notin> set m" "strict_prefix p (encode (codec_new i (SepByte sep)) m [])"
  then have "sep \<notin> set p" using strict_prefix_snoc [of p m sep] by (auto simp: encode_def codec_new_def)
  then show "next_message (SepByte sep) p = None" by (simp add: next_message_def)
qed (simp_all add: next_message_def encode_def codec_new_def)

lemma separator_stream:
  assumes "list_all (\<lambda>m. utf8_valid m \<and> sep \<notin> set m) ms"
    and "concat chunks = concat (map (\<lambda>m. encode (codec_new i (SepByte sep)) m []) ms)"
  shows "read_chunks (next_message (SepByte sep)) [] chunks = ms"
proof (rule byte_codec.read_chunks_all [OF assms(1)])
  show "[] @ concat chunks = concat (map (\<lambda>m. encode (codec_new i (SepByte sep)) m []) ms)"
    using assms(2) by simp
  show "ms = []" if "chunks = []"
    using that assms(2) by (cases ms) (simp_all add: encode_def codec_new_def)
qed

text \<open>C14: with a separator, whatever sequence of messages without that byte is written by the
  encoder is read back by the decoder, message by message and in order, no matter how the byte
  stream is cut into chunks on the way.\<close>

theorem separator_stream_roundtrip:
  assumes "list_all (\<lambda>m. utf8_valid m \<and> sep \<notin> set m) ms"
    and "concat chunks = concat (map (\<lambda>m. encode (codec_new i (SepByte sep)) m []) ms)"
  shows "read_chunks (next_message (SepByte sep)) [] chunks = ms"
  using assms by (rule separator_stream)

theorem separator_stream_roundtrip_witness:
  "read_chunks (next_message (SepByte (CHR ''|''))) [] [''ab|'', ''c'', ''d|''] = [''ab'', ''cd'']"
  by (rule separator_stream_roundtrip [where i = SepEmpty]) (simp_all add: encode_def codec_new_def in_range_def)

section \<open>The bracket-counting mode\<close>

text \<open>The inside of a string literal: no unescaped quote, no escape cut off at the end.\<close>

fun string_chars :: "string \<Rightarrow> bool" where
  "string_chars [] = True"
| "string_chars [c] \<longleftrightarrow> c \<noteq> CHR 0x22 \<and> c \<noteq> CHR 0x5C"
| "string_chars (c # d # r) \<longleftrightarrow>
     (if c = CHR 0x5C then string_chars r else c \<noteq> CHR 0x22 \<and> string_chars (d # r))"

text \<open>Balanced text: plain bytes, string literals, and bracketed groups.\<close>

inductive balanced :: "string \<Rightarrow> bool" where
  balanced_Nil: "balanced []"
| balanced_char: "\<not> is_open c \<Longrightarrow> \<not> is_close c \<Longrightarrow> c \<noteq> CHR 0x22 \<Longrightarrow> balanced b \<Longrightarrow> balanced (c # b)"
| balanced_string: "string_chars q \<Longrightarrow> balanced b \<Longrightarrow> balanced (CHR 0x22 # q @ CHR 0x22 # b)"
| balanced_group: "is_open l \<Longrightarrow> balanced g \<Longrightarrow> is_close r \<Longrightarrow> balanced b \<Longrightarrow> balanced (l # g @ r # b)"

text \<open>A JSON object or array: one bracketed group.\<close>

definition json_group :: "string \<Rightarrow> bool" where
  "json_group m \<longleftrightarrow> (\<exists>l g r. m = l # g @ [r] \<and> is_open l \<and> balanced g \<and> is_close r)"

lemma scan_append:
  "scan idx (xs @ ys) s = (case scan idx xs s of Inl i \<Rightarrow> Inl i | Inr s' \<Rightarrow> scan (idx + length xs) ys s')"
  by (induction xs arbitrary: idx s) (auto simp: Let_def split: sum.splits)

lemma scan_prefix: "scan idx (xs @ ys) s = Inr s' \<Longrightarrow> \<exists>s''. scan idx xs s = Inr s''"
  by (simp add: scan_append split: sum.splits)

text \<open>Bytes consumed inside a value only change the white-space counter.\<close>

definition skims :: "string \<Rightarrow> scan_state \<Rightarrow> bool" where
  "skims xs s \<longleftrightarrow> (\<forall>idx. \<exists>k \<le> length xs. scan idx xs s = Inr (s\<lparr>whitespaces := whitespaces s + k\<rparr>))"

lemma skims_append:
  assumes "skims xs s" and "\<And>k. skims ys (s\<lparr>whitespaces := whitespaces s + k\<rparr>)"
  shows "skims (xs @ ys) s"
  unfolding skims_def
proof
  fix idx
  obtain k where k: "k \<le> length xs" "scan idx xs s = Inr (s\<lparr>whitespaces := whitespaces s + k\<rparr>)"
    using assms(1) by (auto simp: skims_def)
  obtain j where "j \<le> length ys" "scan (idx + length xs) ys (s\<lparr>whitespaces := whitespaces s + k\<rparr>) =
      Inr (s\<lparr>whitespaces := whitespaces s + k + j\<rparr>)"
    using assms(2) [of k] unfolding skims_def by fastforce
  with k show "\<exists>k \<le> length (xs @ ys). scan idx (xs @ ys) s = Inr (s\<lparr>whitespaces := whitespaces s + k\<rparr>)"
    by (intro exI [of _ "k + j"]) (simp add: scan_append add.assoc)
qed

lemma scan_byte_in_string:
  assumes "in_str s" "c \<noteq> CHR 0x22 \<or> is_escaped s"
  shows "scan_byte idx c s =
    s\<lparr>is_escaped := (c = CHR 0x5C \<and> \<not> is_escaped s), whitespaces := whitespaces s + (if is_whitespace c then 1 else 0)\<rparr>"
  using assms by (cases s) (auto simp: scan_byte_def Let_def)

lemma skims_in_string:
  assumes "in_str s" "depth s > 0" "\<not> is_escaped s"
  shows "c \<noteq> CHR 0x22 \<Longrightarrow> c \<noteq> CHR 0x5C \<Longrightarrow> skims [c] s"
    and "skims [CHR 0x5C, d] s"
proof -
  assume "c \<noteq> CHR 0x22" "c \<noteq> CHR 0x5C"
  then show "skims [c] s"
    using assms by (cases s) (auto simp: skims_def scan_byte_in_string scan_done_def Let_def)
next
  have "\<not> is_whitespace (CHR 0x5C)" by (simp add: is_whitespace_def)
  then show "skims [CHR 0x5C, d] s"
    using assms by (cases s) (auto simp: skims_def scan_byte_in_string scan_done_def Let_def)
qed

lemma scan_string:
  assumes "string_chars q" "depth s > 0" "in_str s" "\<not> is_escaped s"
  shows "skims q s"
  using assms
proof (induction q arbitrary: s rule: string_chars.induct)
  case 1
  show ?case by (simp add: skims_def)
next
  case (2 c)
  then show ?case by (simp add: skims_in_string)
next
  case (3 c d r)
  show ?case
  proof (cases "c = CHR 0x5C")
    case True
    then have "skims [c, d] s" using "3.prems" skims_in_string(2) by simp
    moreover have "skims r (s\<lparr>whitespaces := whitespaces s + k\<rparr>)" for k
      using True "3.prems" "3.IH"(1) [OF True] by simp
    ultimately show ?thesis using skims_append [of "[c, d]" s r] by simp
  next
    case False
    then have "skims [c] s" using "3.prems" skims_in_string(1) by simp
    moreover have "skims (d # r) (s\<lparr>whitespaces := whitespaces s + k\<rparr>)" for k
      using False "3.prems" "3.IH"(2) [OF False] by simp
    ultimately show ?thesis using skims_append [of "[c]" s "d # r"] by simp
  qed
qed

text \<open>Wrapping a piece in a byte that changes the state and one that restores it.\<close>

lemma skims_wrap:
  assumes "skims g (f s)" and "\<And>idx. scan_byte idx l s = f s" and "\<And>idx. \<not> scan_done idx (f s)"
    and "\<And>idx k. scan_byte idx r ((f s)\<lparr>whitespaces := whitespaces s + k\<rparr>) = s\<lparr>whitespaces := whitespaces s + k\<rparr>"
    and "depth s > 0" and "whitespaces (f s) = whitespaces s"
  shows "skims (l # g @ [r]) s"
  unfolding skims_def
proof
  fix idx
  obtain k where k: "k \<le> length g" "scan (Suc idx) g (f s) = Inr ((f s)\<lparr>whitespaces := whitespaces s + k\<rparr>)"
    using assms(1,6) unfolding skims_def by metis
  have "\<not> scan_done i (s\<lparr>whitespaces := whitespaces s + k\<rparr>)" for i
    using assms(5) by (simp add: scan_done_def)
  then show "\<exists>k \<le> length (l # g @ [r]). scan idx (l # g @ [r]) s = Inr (s\<lparr>whitespaces := whitespaces s + k\<rparr>)"
    using k assms(2,3,4) by (intro exI [of _ k]) (simp add: scan_append Let_def)
qed

lemma scan_balanced:
  assumes "balanced b" "depth s > 0" "\<not> in_str s" "\<not> is_escaped s"
  shows "skims b s"
  using assms
proof (induction b arbitrary: s rule: balanced.induct)
  case balanced_Nil
  show ?case by (simp add: skims_def)
next
  case (balanced_char c b)
  then have "scan_byte idx c s = s\<lparr>whitespaces := whitespaces s + (if is_whitespace c then 1 else 0)\<rparr>" for idx
    by (cases s) (auto simp: scan_byte_def Let_def)
  with balanced_char have "skims [c] s"
    by (auto simp: skims_def scan_done_def Let_def)
  then show ?case using balanced_char skims_append [of "[c]" s b] by simp
next
  case (balanced_string q b)
  have "skims (CHR 0x22 # q @ [CHR 0x22]) s"
  proof (rule skims_wrap [where f = "\<lambda>s. s\<lparr>in_str := True\<rparr>"])
    show "skims q (s\<lparr>in_str := True\<rparr>)" using balanced_string by (intro scan_string) simp_all
  qed (use balanced_string in \<open>cases s; auto simp: scan_byte_def Let_def is_open_def is_close_def scan_done_def\<close>)+
  then show ?case using balanced_string skims_append [of "CHR 0x22 # q @ [CHR 0x22]" s b] by simp
next
  case (balanced_group l g r b)
  have "r \<noteq> CHR 0x5C" "\<not> is_open r" "l \<noteq> CHR 0x5C" using balanced_group by (auto simp: is_close_def is_open_def)
  have "skims (l # g @ [r]) s"
  proof (rule skims_wrap [where f = "\<lambda>s. s\<lparr>depth := depth s + 1\<rparr>"])
    show "skims g (s\<lparr>depth := depth s + 1\<rparr>)" using balanced_group by simp
  qed (use balanced_group \<open>r \<noteq> CHR 0x5C\<close> \<open>\<not> is_open r\<close> \<open>l \<noteq> CHR 0x5C\<close> in
        \<open>cases s; auto simp: scan_byte_def Let_def scan_done_def\<close>)+
  then show ?case using balanced_group skims_append [of "l # g @ [r]" s b] by simp
qed

text \<open>A group after at most one byte of white space: more white space than the group has other bytes would
  hide the end of the group.\<close>

definition padded_group :: "string \<Rightarrow> bool" where
  "padded_group m \<longleftrightarrow> (\<exists>ws g. m = ws @ g \<and> length ws \<le> 1 \<and> list_all is_whitespace ws \<and> json_group g)"

lemma padded_group_simps [simp, intro]:
  "json_group g \<Longrightarrow> padded_group g" "is_whitespace c \<Longrightarrow> json_group g \<Longrightarrow> padded_group (c # g)"
  unfolding padded_group_def by (force intro: exI [of _ "[]"] exI [of _ "[c]"])+

lemma scan_padding:
  assumes "length ws \<le> 1" "list_all is_whitespace ws"
  shows "scan 0 (ws @ xs) scan_start = scan (length ws) xs (scan_start\<lparr>whitespaces := length ws\<rparr>)"
  using assms
  by (cases ws) (auto simp: scan_start_def scan_byte_def scan_done_def is_whitespace_def is_open_def is_close_def Let_def)

lemma scan_group:
  assumes "is_open l" "balanced g" "is_close r" "length ws \<le> 1" "list_all is_whitespace ws"
  shows "\<exists>s. scan 0 (ws @ l # g) scan_start = Inr s"
    and "scan 0 (ws @ l # g @ r # rest) scan_start = Inl (length (ws @ l # g))"
proof -
  let ?n = "length ws"
  let ?s = "scan_start\<lparr>depth := 1, start_idx := ?n, whitespaces := ?n\<rparr>"
  have l: "scan_byte ?n l (scan_start\<lparr>whitespaces := ?n\<rparr>) = ?s" "\<not> scan_done ?n ?s"
    using assms(1) by (auto simp: scan_byte_def scan_start_def Let_def is_open_def scan_done_def)
  have "skims g ?s" by (rule scan_balanced [OF assms(2)]) (simp_all add: scan_start_def)
  then obtain k where k: "k \<le> length g" "scan (Suc ?n) g ?s = Inr (?s\<lparr>whitespaces := ?n + k\<rparr>)"
    unfolding skims_def by fastforce
  then show "\<exists>s. scan 0 (ws @ l # g) scan_start = Inr s" using l by (simp add: scan_padding [OF assms(4,5)] Let_def)
  have "\<not> is_open r" using assms(3) by (auto simp: is_open_def is_close_def)
  then have "scan_done (Suc (?n + length g)) (scan_byte (Suc (?n + length g)) r (?s\<lparr>whitespaces := ?n + k\<rparr>))"
    using k(1) assms(3,4) by (simp add: scan_byte_def scan_start_def Let_def scan_done_def)
  then show "scan 0 (ws @ l # g @ r # rest) scan_start = Inl (length (ws @ l # g))"
    unfolding scan_padding [OF assms(4,5)] using l k(2) by (simp add: Let_def scan_append)
qed

lemma padded_message:
  assumes "padded_group m" "utf8_valid m"
  shows "next_message SepEmpty (m @ rest) = Some (m, rest)"
proof -
  obtain ws l g r where m: "m = ws @ l # g @ [r]" "is_open l" "balanced g" "is_close r" "length ws \<le> 1" "list_all is_whitespace ws"
    using assms(1) by (auto simp: padded_group_def json_group_def)
  then have "scan 0 (m @ rest) scan_start = Inl (length m - 1)"
    using scan_group(2) [of l g r ws rest] by simp
  moreover have "Suc (length m - 1) = length m" using m(1) by simp
  ultimately show ?thesis using assms(2) by (simp add: next_message_def)
qed

lemma padded_partial:
  assumes "padded_group m" "strict_prefix p m"
  shows "next_message SepEmpty p = None"
proof -
  obtain ws l g r where m: "m = (ws @ l # g) @ [r]" "is_open l" "balanced g" "is_close r" "length ws \<le> 1" "list_all is_whitespace ws"
    using assms(1) by (auto simp: padded_group_def json_group_def)
  then have "prefix p (ws @ l # g)" using assms(2) by (metis prefix_snoc strict_prefix_def)
  then obtain z where z: "ws @ l # g = p @ z" by (auto simp: prefix_def)
  then have "\<exists>s. scan 0 (p @ z) scan_start = Inr s" using scan_group(1) [OF m(2-6)] by simp
  then have "\<exists>s. scan 0 p scan_start = Inr s" using scan_prefix by blast
  then show ?thesis by (auto simp: next_message_def)
qed

lemma padded_nonempty: "padded_group m \<Longrightarrow> m \<noteq> []"
  by (auto simp: padded_group_def json_group_def)

interpretation padded_codec: framing "\<lambda>m. m" "next_message SepEmpty" "\<lambda>m. padded_group m \<and> utf8_valid m"
  by unfold_locales (auto simp: padded_message padded_nonempty intro: padded_partial, simp add: next_message_def)

interpretation empty_codec: framing
  "\<lambda>m. encode (codec_new i SepEmpty) m []" "next_message SepEmpty" "\<lambda>m. json_group m \<and> utf8_valid m"
  for i
  by unfold_locales
    (auto simp: encode_def codec_new_def padded_message padded_nonempty intro: padded_partial, simp add: next_message_def)

lemma bracket_stream:
  assumes "list_all (\<lambda>m. json_group m \<and> utf8_valid m) ms"
    and "concat chunks = concat (map (\<lambda>m. encode (codec_new i SepEmpty) m []) ms)"
  shows "read_chunks (next_message SepEmpty) [] chunks = ms"
proof (rule empty_codec.read_chunks_all [OF assms(1)])
  show "[] @ concat chunks = concat (map (\<lambda>m. encode (codec_new i SepEmpty) m []) ms)"
    using assms(2) by simp
  show "ms = []" if "chunks = []"
    using that assms by (cases ms) (auto simp: encode_def codec_new_def json_group_def)
qed

text \<open>Messages that are separated by a byte of white space, as both ends of an IPC connection write them by
  default, are read by the same decoder. The separator after a message is read as white space before
  the next one; the last one stays in the buffer.\<close>

fun enveloped :: "separator \<Rightarrow> string list \<Rightarrow> string list" where
  "enveloped (SepByte sep) (m # ms) = m # map ((#) sep) ms"
| "enveloped _ ms = ms"

lemma length_enveloped: "length (enveloped out ms) = length ms"
  by (cases "(out, ms)" rule: enveloped.cases) simp_all

fun blank_separator :: "separator \<Rightarrow> bool" where
  "blank_separator SepEmpty = True"
| "blank_separator (SepByte sep) = is_whitespace sep"

lemma blank_separator_default [simp]: "blank_separator default_separator"
  by (simp add: default_separator_def is_whitespace_def)

lemma whitespace_ascii: "is_whitespace c \<Longrightarrow> in_range 0 0x7F c"
  by (auto simp: is_whitespace_def in_range_def)

lemma whitespace_no_message: "is_whitespace c \<Longrightarrow> next_message SepEmpty [c] = None"
  by (auto simp: next_message_def scan_padding [of "[c]" "[]", simplified])

lemma enveloped_bytes:
  "ms \<noteq> [] \<Longrightarrow> concat (map (\<lambda>m. m @ [sep]) ms) = concat (map (\<lambda>m. m) (enveloped (SepByte sep) ms)) @ [sep]"
proof (induction ms)
  case (Cons m ms)
  then show ?case by (cases ms) simp_all
qed simp

lemma enveloped_stream:
  assumes "list_all (\<lambda>m. json_group m \<and> utf8_valid m) ms" and "blank_separator out"
    and "concat chunks = concat (map (\<lambda>m. encode (codec_new i out) m []) ms)"
  shows "read_chunks (next_message SepEmpty) [] chunks = enveloped out ms"
proof (cases out)
  case SepEmpty
  then show ?thesis using bracket_stream [OF assms(1)] assms(3) by simp
next
  case (SepByte sep)
  then have ws: "is_whitespace sep" using assms(2) by simp
  have bytes: "concat chunks = concat (map (\<lambda>m. m @ [sep]) ms)" using assms(3) SepByte by (simp add: encode_def codec_new_def)
  show ?thesis
  proof (cases "ms = []")
    case True
    then show ?thesis using padded_codec.read_chunks_all [of "[]" "[]" chunks] bytes SepByte by simp
  next
    case False
    show ?thesis
    proof (rule padded_codec.read_chunks_rest [where t = "[sep]"])
      show "next_message SepEmpty p = None" if "prefix p [sep]" for p
        using that whitespace_no_message [OF ws] padded_codec.dec_Nil by (auto simp: prefix_Cons)
      show "list_all (\<lambda>m. padded_group m \<and> utf8_valid m) (enveloped out ms)"
        using assms(1) ws SepByte False by (cases ms) (auto simp: list_all_iff whitespace_ascii)
      show "[] @ concat chunks = concat (map (\<lambda>m. m) (enveloped out ms)) @ [sep]"
        using bytes enveloped_bytes [OF False, of sep] SepByte by simp
      show "enveloped out ms = []" if "chunks = []" using that bytes False by (cases ms) auto
    qed
  qed
qed

text \<open>C13: JSON objects and arrays that are written back to back, or with a byte of white space after each as by
  default, are read back one by one and in order, no matter how the byte stream is cut into chunks:
  brackets and escaped quotes inside string literals and nested values do not mislead the decoder,
  and a separator only shows as white space before the next message.\<close>

theorem bracket_stream_roundtrip:
  assumes "list_all (\<lambda>m. json_group m \<and> utf8_valid m) ms" and "blank_separator out"
    and "concat chunks = concat (map (\<lambda>m. encode (codec_new i out) m []) ms)"
  shows "read_chunks (next_message SepEmpty) [] chunks = enveloped out ms"
  using assms by (rule enveloped_stream)

lemma balanced_string_only: "string_chars q \<Longrightarrow> balanced (CHR 0x22 # q @ [CHR 0x22])"
  using balanced_string [OF _ balanced_Nil] .

lemma demo_groups: "json_group [CHR ''{'', CHR 0x22, CHR ''}'', CHR 0x22, CHR ''}'']" "json_group ''[]''"
proof -
  show "json_group [CHR ''{'', CHR 0x22, CHR ''}'', CHR 0x22, CHR ''}'']"
    unfolding json_group_def using balanced_string_only [of "''}''"]
    by (intro exI [of _ "CHR ''{''"] exI [of _ "[CHR 0x22, CHR ''}'', CHR 0x22]"] exI [of _ "CHR ''}''"])
      (simp add: is_open_def is_close_def)
  show "json_group ''[]''"
    unfolding json_group_def
    by (intro exI [of _ "CHR ''[''"] exI [of _ "[]"] exI [of _ "CHR '']''"])
      (simp add: is_open_def is_close_def balanced_Nil)
qed

theorem bracket_stream_roundtrip_witness:
  "read_chunks (next_message SepEmpty) [] [[CHR ''{'', CHR 0x22, CHR ''}''], [CHR 0x22, CHR ''}'', CHR 0x0A, CHR ''['', CHR '']'', CHR 0x0A]]
    = [[CHR ''{'', CHR 0x22, CHR ''}'', CHR 0x22, CHR ''}''], CHR 0x0A # ''[]'']"
  using bracket_stream_roundtrip [of "[[CHR ''{'', CHR 0x22, CHR ''}'', CHR 0x22, CHR ''}''], ''[]'']" "SepByte (CHR 0x0A)"
      "[[CHR ''{'', CHR 0x22, CHR ''}''], [CHR 0x22, CHR ''}'', CHR 0x0A, CHR ''['', CHR '']'', CHR 0x0A]]" SepEmpty] demo_groups
  by (simp add: in_range_def encode_def codec_new_def is_whitespace_def)

text \<open>The index arithmetic of the scan: \<open>start_idx\<close> never passes \<open>idx\<close>.\<close>

lemma scan_byte_start_idx: "start_idx s \<le> idx \<Longrightarrow> start_idx (scan_byte idx c s) \<le> idx"
  by (auto simp: scan_byte_def Let_def)

text \<open>The states the loop of the decoder goes through, with the index of the iteration.\<close>

inductive scan_visits :: "nat \<Rightarrow> string \<Rightarrow> scan_state \<Rightarrow> nat \<Rightarrow> scan_state \<Rightarrow> bool" where
  visit_here: "scan_visits idx (c # cs) s idx (scan_byte idx c s)"
| visit_later: "\<not> scan_done idx (scan_byte idx c s) \<Longrightarrow> scan_visits (Suc idx) cs (scan_byte idx c s) j t
    \<Longrightarrow> scan_visits idx (c # cs) s j t"

lemma scan_visits_bounds:
  "scan_visits idx cs s j t \<Longrightarrow> start_idx s \<le> idx \<Longrightarrow> whitespaces s \<le> idx \<Longrightarrow>
   start_idx t \<le> j \<and> j < idx + length cs \<and> whitespaces t \<le> Suc j \<and> abs (depth t - depth s) \<le> int (Suc j - idx)"
proof (induction rule: scan_visits.induct)
  case (visit_here idx c cs s)
  then show ?case by (auto simp: scan_byte_def Let_def)
next
  case (visit_later idx c s cs j t)
  have b: "start_idx (scan_byte idx c s) \<le> Suc idx" "whitespaces (scan_byte idx c s) \<le> Suc idx"
    "abs (depth (scan_byte idx c s) - depth s) \<le> 1"
    using visit_later.prems by (auto simp: scan_byte_def Let_def)
  have "Suc idx \<le> j" using visit_later.hyps(2) by (induction rule: scan_visits.induct) auto
  with visit_later.IH [OF b(1,2)] b(3) show ?case by auto
qed

text \<open>The arithmetic of the bracket-counting scan stays in range on every buffer: in every
  iteration \<open>idx - start_idx\<close> does not underflow, the white-space counter is at most the number
  of bytes seen, and the depth is at most that number in absolute value.\<close>

theorem scan_no_underflow:
  assumes "scan_visits 0 buf scan_start idx s"
  shows "start_idx s \<le> idx \<and> idx < length buf \<and> whitespaces s \<le> idx + 1 \<and> abs (depth s) \<le> int (idx + 1)"
  using scan_visits_bounds [OF assms] by (simp add: scan_start_def)

theorem scan_no_underflow_witness:
  "start_idx (scan_byte 0 (CHR ''{'') scan_start) \<le> 0 \<and> whitespaces (scan_byte 0 (CHR ''{'') scan_start) \<le> 1"
  using scan_no_underflow [OF visit_here, of "CHR ''{''" "''}''"] by simp

text \<open>White space before a value counts against its length, also when it precedes the value: with
  as much white space in front as the value has other bytes, a complete value is not found.\<close>

lemma leading_whitespace_hides_message: "decode_by SepEmpty ''  {}'' = (Ok None, ''  {}'')"
  by (simp add: scan_start_def scan_byte_def scan_done_def Let_def is_open_def is_close_def is_whitespace_def)

end
