(* ===== verification/Suspendable.thy ===== *)
theory Suspendable
  imports Prelude
begin

text \<open>
  The stream of incoming connections that backs off after accept errors
  (\<open>server-utils/src/suspendable_stream.rs\<close>). Times and durations are milliseconds. The
  wrapped stream and the clock are the environment: a list whose entries say what the next poll
  of the wrapped stream returns and how much time has passed by then; when the list is used
  up the stream is pending. A poll of \<open>sleep_until\<close> is ready when the deadline has passed.
\<close>

section \<open>Model\<close>

datatype io_error_kind = ConnectionRefused | ConnectionAborted | ConnectionReset | OtherKind nat

record suspendable =
  next_delay :: nat
  initial_delay :: nat
  max_delay :: nat
  suspended_until :: "nat option"

definition suspendable_new :: suspendable where
  "suspendable_new = \<lparr>next_delay = 20, initial_delay = 10, max_delay = 5000, suspended_until = None\<rparr>"

fun connection_error :: "io_error_kind \<Rightarrow> bool" where
  "connection_error ConnectionRefused = True"
| "connection_error ConnectionAborted = True"
| "connection_error ConnectionReset = True"
| "connection_error (OtherKind _) = False"

type_synonym 'i incoming = "(nat \<times> ('i, io_error_kind) result option poll) list"

definition reset_delay :: "suspendable \<Rightarrow> suspendable" where
  "reset_delay s = (if next_delay s > initial_delay s then s\<lparr>next_delay := initial_delay s\<rparr> else s)"

definition back_off :: "nat \<Rightarrow> suspendable \<Rightarrow> suspendable" where
  "back_off now s =
     (let d = (if next_delay s < max_delay s then next_delay s * 2 else next_delay s)
      in s\<lparr>next_delay := d, suspended_until := Some (now + d)\<rparr>)"

definition still_suspended :: "nat \<Rightarrow> suspendable \<Rightarrow> bool" where
  "still_suspended now s = (case suspended_until s of None \<Rightarrow> False | Some deadline \<Rightarrow> now < deadline)"

text \<open>The loop of \<open>poll_next\<close>; every turn either returns or polls the wrapped stream once.\<close>

fun poll_next :: "suspendable \<Rightarrow> nat \<Rightarrow> 'i incoming \<Rightarrow> 'i option poll \<times> suspendable \<times> nat \<times> 'i incoming" where
  "poll_next s now [] =
     (if still_suspended now s then (Pending, s, now, []) else (Pending, s\<lparr>suspended_until := None\<rparr>, now, []))"
| "poll_next s now ((dt, ev) # env) =
     (if still_suspended now s then (Pending, s, now, (dt, ev) # env)
      else
        (let s = s\<lparr>suspended_until := None\<rparr>; now = now + dt
         in case ev of
              Pending \<Rightarrow> (Pending, s, now, env)
            | Ready None \<Rightarrow> (Ready None, reset_delay s, now, env)
            | Ready (Some (Ok item)) \<Rightarrow> (Ready (Some item), reset_delay s, now, env)
            | Ready (Some (Err e)) \<Rightarrow>
                if connection_error e then poll_next s now env
                else poll_next (back_off now s) now env))"

section \<open>Invariant\<close>

text \<open>The delay is 10 ms times a power of two, at most 5120 ms, the first power of two times
  10 ms that is not below \<open>max_delay\<close>; a deadline is never further away than that.\<close>

definition delay_ok :: "nat \<Rightarrow> suspendable \<Rightarrow> bool" where
  "delay_ok now s \<longleftrightarrow> initial_delay s = 10 \<and> max_delay s = 5000 \<and> (\<exists>k \<le> 9. next_delay s = 10 * 2 ^ k) \<and>
     (\<forall>d. suspended_until s = Some d \<longrightarrow> d \<le> now + next_delay s)"

lemma delay_ok_new: "delay_ok now suspendable_new"
  by (auto simp: delay_ok_def suspendable_new_def intro!: exI [of _ 1])

lemma delay_ok_wait: "delay_ok now s \<Longrightarrow> now \<le> t \<Longrightarrow> delay_ok t s"
  by (fastforce simp: delay_ok_def)

lemma delay_ok_resume: "delay_ok now s \<Longrightarrow> delay_ok (now + dt) (s\<lparr>suspended_until := None\<rparr>)"
  by (simp add: delay_ok_def)

lemma delay_ok_reset: "delay_ok now s \<Longrightarrow> suspended_until s = None \<Longrightarrow> delay_ok now (reset_delay s)"
  by (auto simp: delay_ok_def reset_delay_def intro!: exI [of _ 0])

lemma back_off_bound:
  assumes "(k::nat) \<le> 9" "10 * 2 ^ k < (5000::nat)"
  shows "k \<le> 8"
proof (rule ccontr)
  assume "\<not> k \<le> 8"
  with assms(1) have "k = 9" by simp
  with assms(2) show False by simp
qed

lemma delay_ok_back_off: "delay_ok now s \<Longrightarrow> delay_ok now (back_off now s)"
  unfolding delay_ok_def
proof (elim conjE exE)
  fix k assume *: "initial_delay s = 10" "max_delay s = 5000" "k \<le> 9" "next_delay s = 10 * 2 ^ k"
  show "initial_delay (back_off now s) = 10 \<and> max_delay (back_off now s) = 5000 \<and>
    (\<exists>k \<le> 9. next_delay (back_off now s) = 10 * 2 ^ k) \<and>
    (\<forall>d. suspended_until (back_off now s) = Some d \<longrightarrow> d \<le> now + next_delay (back_off now s))"
  proof (cases "next_delay s < max_delay s")
    case True
    with * have "Suc k \<le> 9" using back_off_bound [of k] by simp
    then show ?thesis using * True by (auto simp: back_off_def Let_def intro!: exI [of _ "Suc k"])
  next
    case False
    then show ?thesis using * by (auto simp: back_off_def Let_def)
  qed
qed

lemma poll_next_delay_ok:
  assumes "delay_ok now s" "poll_next s now env = (r, s', t, env')"
  shows "delay_ok t s' \<and> now \<le> t"
  using assms
proof (induction s now env arbitrary: r rule: poll_next.induct)
  case (1 s now)
  then show ?case using delay_ok_resume [of now s 0] by (auto split: if_splits)
next
  case (2 s now dt ev env)
  let ?s = "s\<lparr>suspended_until := None\<rparr>"
  have ok: "delay_ok (now + dt) ?s" using "2.prems"(1) by (rule delay_ok_resume)
  show ?case
  proof (cases "still_suspended now s")
    case True
    then show ?thesis using "2.prems" by simp
  next
    case False
    show ?thesis
    proof (cases "\<exists>e. ev = Ready (Some (Err e))")
      case True
      then obtain e where e: "ev = Ready (Some (Err e))" ..
      show ?thesis
      proof (cases "connection_error e")
        case True
        with e False "2.prems"(2) have "poll_next ?s (now + dt) env = (r, s', t, env')" by (simp add: Let_def)
        then show ?thesis using "2.IH"(1) [OF False refl refl e refl refl True ok] by fastforce
      next
        case conn: False
        with e False "2.prems"(2) have "poll_next (back_off (now + dt) ?s) (now + dt) env = (r, s', t, env')"
          by (simp add: Let_def)
        then show ?thesis
          using "2.IH"(2) [OF False refl refl e refl refl conn delay_ok_back_off [OF ok]] by fastforce
      qed
    next
      case other: False
      then show ?thesis
        using False ok "2.prems"(2) delay_ok_reset [OF ok]
        by (auto simp: Let_def split: poll.splits option.splits result.splits)
    qed
  qed
qed

text \<open>One poll some time after the last one, in any environment.\<close>

definition poll_step :: "suspendable \<times> nat \<Rightarrow> suspendable \<times> nat \<Rightarrow> bool" where
  "poll_step p q \<longleftrightarrow> (\<exists>t env (r :: unit option poll) env'.
     snd p \<le> t \<and> poll_next (fst p) t env = (r, fst q, snd q, env'))"

interpretation susp: invariant_system
  "\<lambda>p. fst p = suspendable_new" poll_step "\<lambda>p. delay_ok (snd p) (fst p)"
proof unfold_locales
  fix p q :: "suspendable \<times> nat"
  assume "delay_ok (snd p) (fst p)" "poll_step p q"
  then show "delay_ok (snd q) (fst q)"
    unfolding poll_step_def using poll_next_delay_ok delay_ok_wait by blast
qed (simp add: delay_ok_new)

lemma delay_bounds:
  assumes "delay_ok now s"
  shows "10 \<le> next_delay s \<and> next_delay s \<le> 5120"
proof -
  obtain k where "k \<le> 9" "next_delay s = 10 * 2 ^ k" using assms by (auto simp: delay_ok_def)
  moreover from \<open>k \<le> 9\<close> have "(2::nat) ^ k \<le> 2 ^ 9" by (rule power_increasing) simp
  ultimately show ?thesis by simp
qed

text \<open>C40: whatever the wrapped stream does, in every state a sequence of polls reaches, the delay is
  between 10 ms and 5120 ms and a deadline lies at most 5120 ms ahead, so that a poll made 5120 ms later
  finds the suspension over. Who makes that poll is outside of the model, which has no wakers.\<close>

theorem suspension_bounded:
  assumes "reaches poll_step (suspendable_new, t0) (s, now)"
  shows "10 \<le> next_delay s \<and> next_delay s \<le> 5120 \<and>
    (\<forall>d. suspended_until s = Some d \<longrightarrow> d \<le> now + 5120)"
proof -
  have "delay_ok now s" using susp.inv_reachable [OF _ assms] by simp
  then show ?thesis using delay_bounds [of now s] by (fastforce simp: delay_ok_def)
qed

lemma first_error_step:
  "poll_step (suspendable_new, 0) (suspendable_new\<lparr>next_delay := 40, suspended_until := Some 45\<rparr>, 5)"
  unfolding poll_step_def
  by (intro exI [of _ 0] exI [of _ "[(5, Ready (Some (Err (OtherKind 24))))]"] exI [of _ Pending] exI [of _ "[]"])
    (simp add: suspendable_new_def still_suspended_def back_off_def Let_def)

theorem suspension_bounded_witness:
  "10 \<le> (40::nat) \<and> next_delay (suspendable_new\<lparr>next_delay := 40, suspended_until := Some 45\<rparr>) \<le> 5120"
  using suspension_bounded [OF reaches_one, OF first_error_step] by simp

text \<open>An accept error that is not a connection error suspends the stream: the poll that meets
  it returns pending, and until the doubled delay has passed no poll touches the wrapped stream.
  A connection error is skipped and does not change the delay.\<close>

theorem accept_error_suspends:
  assumes "delay_ok now s" and "suspended_until s = None"
  shows "if connection_error e
    then poll_next s now ((dt, Ready (Some (Err e))) # env) = poll_next s (now + dt) env
    else \<exists>s' d. poll_next s now ((dt, Ready (Some (Err e))) # env) = (Pending, s', now + dt, env) \<and>
      next_delay s' = d \<and> next_delay s \<le> d \<and> 0 < d \<and>
      (\<forall>t < now + dt + d. poll_next s' t env = (Pending, s', t, env))"
proof -
  have d: "10 \<le> next_delay s" using delay_bounds [OF assms(1)] by simp
  have s: "s\<lparr>suspended_until := None\<rparr> = s" using assms(2) by (cases s) simp
  have run: "\<not> still_suspended now s" using assms(2) by (simp add: still_suspended_def)
  let ?s = "back_off (now + dt) s"
  have stop: "still_suspended t ?s" if "t < now + dt + next_delay ?s" for t
    using that by (simp add: back_off_def Let_def still_suspended_def)
  have wait: "poll_next ?s t env = (Pending, ?s, t, env)" if "t < now + dt + next_delay ?s" for t
    using stop [OF that] by (cases env) auto
  have "0 < next_delay ?s" "next_delay s \<le> next_delay ?s" using d by (auto simp: back_off_def Let_def)
  then show ?thesis
    using run s wait by (auto simp: Let_def)
qed

theorem accept_error_suspends_witness:
  "\<exists>s' d. poll_next suspendable_new 0 [(5, Ready (Some (Err (OtherKind 24)))), (1, Ready (Some (Ok ''conn'')))] =
      (Pending, s', 5, [(1, Ready (Some (Ok ''conn'')))]) \<and> next_delay s' = d \<and> 0 < d"
  using accept_error_suspends [OF delay_ok_new [of 0], of "OtherKind 24" 5 "[(1, Ready (Some (Ok ''conn'')))]"]
  by (auto simp: suspendable_new_def)

end
