(* ===== verification/Pubsub.thy ===== *)
theory Pubsub
  imports Core_Delegates "HOL-Library.Multiset"
begin

text \<open>
  Publish-subscribe (\<open>pubsub/src/types.rs\<close>, \<open>subscription.rs\<close>, \<open>typed.rs\<close>, \<open>oneshot.rs\<close>,
  \<open>handler.rs\<close>, \<open>delegates.rs\<close>): subscription ids, sessions with their active subscriptions
  and drop handlers, sinks, the subscribe and unsubscribe methods, and their registration.

  Sessions are shared between requests (\<open>Arc<Session>\<close>): a world is a store of sessions and
  the environment \<open>'u\<close>, on which everything outside the repository's code acts. The channels of
  the \<open>futures\<close> crate, the transport sender, the background pool and the user's subscribe and
  unsubscribe functions are arguments that act on the environment.
\<close>

section \<open>Subscription ids\<close>

datatype subscription_id = SubNumber u64 | SubString string

fun sub_parse_value :: "('n \<Rightarrow> u64 option) \<Rightarrow> 'n json \<Rightarrow> subscription_id option" where
  "sub_parse_value as_u64 (VString s) = Some (SubString s)"
| "sub_parse_value as_u64 (VNumber n) = map_option SubNumber (as_u64 n)"
| "sub_parse_value as_u64 _ = None"

fun sub_into_value :: "(u64 \<Rightarrow> 'n) \<Rightarrow> subscription_id \<Rightarrow> 'n json" where
  "sub_into_value from_u64 (SubNumber n) = VNumber (from_u64 n)"
| "sub_into_value from_u64 (SubString s) = VString s"

lemma sub_value_roundtrip:
  "(\<And>x. as_u64 (from_u64 x) = Some x) \<Longrightarrow> sub_parse_value as_u64 (sub_into_value from_u64 i) = Some i"
  by (cases i) simp_all

text \<open>Ids from strings and from numbers of at most 64 bits.\<close>

definition sub_from_string :: "string \<Rightarrow> subscription_id" where
  "sub_from_string s = SubString s"

definition sub_from_num :: "'w::len word \<Rightarrow> subscription_id" where
  "sub_from_num x = SubNumber (ucast x)"

lemma sub_from_num_inj: "LENGTH('w::len) \<le> 64 \<Longrightarrow> inj (sub_from_num :: 'w word \<Rightarrow> subscription_id)"
  by (rule inj_on_inverseI [of _ "\<lambda>s. case s of SubNumber n \<Rightarrow> ucast n"]) (simp add: sub_from_num_def ucast_up_ucast_id is_up)

section \<open>The rendezvous channel\<close>

text \<open>A one-shot channel of the \<open>futures\<close> crate: creating it, sending (which gives the item back
  when the receiver is gone), and receiving (an error when the sender is dropped).\<close>

record ('u, 'c, 'a) oneshot_ops =
  os_channel :: "'u \<Rightarrow> 'c \<times> 'u"
  os_send :: "'c \<Rightarrow> 'a \<Rightarrow> 'u \<Rightarrow> (unit, 'a) result \<times> 'u"
  os_recv :: "'c \<Rightarrow> ('u, ('a, unit) result) fut"

text \<open>The two ends: an item channel and, in the other direction, a receipt channel.\<close>

record ('c, 'd) rv_sender =
  rv_item_tx :: 'c
  rv_receipt_rx :: 'd

record ('c, 'd) rv_receiver =
  rv_item_rx :: 'c
  rv_receipt_tx :: "'d option"

definition rv_channel ::
    "('u, 'c, 'a) oneshot_ops \<Rightarrow> ('u, 'd, unit) oneshot_ops \<Rightarrow> 'u \<Rightarrow> (('c, 'd) rv_sender \<times> ('c, 'd) rv_receiver) \<times> 'u" where
  "rv_channel items receipts u =
     (let (c, u1) = os_channel items u; (d, u2) = os_channel receipts u1
      in ((\<lparr>rv_item_tx = c, rv_receipt_rx = d\<rparr>, \<lparr>rv_item_rx = c, rv_receipt_tx = Some d\<rparr>), u2))"

definition rv_send ::
    "('u, 'c, 'a) oneshot_ops \<Rightarrow> ('c, 'd) rv_sender \<Rightarrow> 'a \<Rightarrow> 'u \<Rightarrow> (unit, 'a) result \<times> 'u" where
  "rv_send items s a u = os_send items (rv_item_tx s) a u"

definition rv_send_and_wait ::
    "('u, 'c, 'a) oneshot_ops \<Rightarrow> ('u, 'd, unit) oneshot_ops \<Rightarrow> ('c, 'd) rv_sender \<Rightarrow> 'a \<Rightarrow> 'u
     \<Rightarrow> ('u, (unit, unit) result) fut \<times> 'u" where
  "rv_send_and_wait items receipts s a u =
     (case os_send items (rv_item_tx s) a u of
        (Err _, u') \<Rightarrow> (fut_ready (Err ()), u')
      | (Ok _, u') \<Rightarrow> (fut_map (map_err (\<lambda>_. ())) (os_recv receipts (rv_receipt_rx s)), u'))"

text \<open>Awaiting the receiver: when an item arrives, the receipt is sent.\<close>

definition rv_recv ::
    "('u, 'c, 'a) oneshot_ops \<Rightarrow> ('u, 'd, unit) oneshot_ops \<Rightarrow> ('c, 'd) rv_receiver \<Rightarrow> ('u, ('a, unit) result) fut" where
  "rv_recv items receipts r =
     fut_bind (os_recv items (rv_item_rx r)) (\<lambda>x u.
       case x of
         Err e \<Rightarrow> Some (Err e, u)
       | Ok a \<Rightarrow> Some (Ok a, case rv_receipt_tx r of None \<Rightarrow> u | Some d \<Rightarrow> snd (os_send receipts d () u)))"

section \<open>Sessions\<close>

type_synonym 'u remove_fn = "subscription_id \<Rightarrow> 'u \<Rightarrow> 'u"

record ('t, 'u) session =
  active_subscriptions :: "(subscription_id \<times> string, 'u remove_fn) hash_map"
  transport :: 't
  on_drop :: "('u \<Rightarrow> 'u) list"

definition session_new :: "'t \<Rightarrow> ('t, 'u) session" where
  "session_new sender = \<lparr>active_subscriptions = [], transport = sender, on_drop = []\<rparr>"

definition session_sender :: "('t, 'u) session \<Rightarrow> 't" where
  "session_sender s = transport s"

definition session_on_drop :: "('u \<Rightarrow> 'u) \<Rightarrow> ('t, 'u) session \<Rightarrow> ('t, 'u) session" where
  "session_on_drop f s = s\<lparr>on_drop := on_drop s @ [f]\<rparr>"

definition session_add_subscription ::
    "string \<Rightarrow> subscription_id \<Rightarrow> 'u remove_fn \<Rightarrow> ('t, 'u) session \<Rightarrow> 'u \<Rightarrow> ('t, 'u) session \<times> 'u" where
  "session_add_subscription name i remove s u =
     (let (ret, m) = hm_insert (i, name) remove (active_subscriptions s)
      in (s\<lparr>active_subscriptions := m\<rparr>, case ret of Some old \<Rightarrow> old i u | None \<Rightarrow> u))"

definition session_remove_subscription ::
    "string \<Rightarrow> subscription_id \<Rightarrow> ('t, 'u) session \<Rightarrow> bool \<times> ('t, 'u) session" where
  "session_remove_subscription name i s =
     (let (ret, m) = hm_remove (i, name) (active_subscriptions s)
      in (ret \<noteq> None, s\<lparr>active_subscriptions := m\<rparr>))"

definition session_drop :: "('t, 'u) session \<Rightarrow> 'u \<Rightarrow> 'u" where
  "session_drop s u =
     fold (\<lambda>f u. f u) (on_drop s) (fold (\<lambda>((i, name), remove) u. remove i u) (active_subscriptions s) u)"

section \<open>Sinks and subscribers\<close>

text \<open>The transport's sender: sending without waiting, and the four operations of a sink.\<close>

record ('u, 't, 'e) transport_ops =
  tr_unbounded_send :: "'t \<Rightarrow> string \<Rightarrow> 'u \<Rightarrow> (unit, 'e) result \<times> 'u"
  tr_poll_ready :: "'t \<Rightarrow> 'u \<Rightarrow> (unit, 'e) result poll \<times> 'u"
  tr_start_send :: "'t \<Rightarrow> string \<Rightarrow> 'u \<Rightarrow> (unit, 'e) result \<times> 'u"
  tr_poll_flush :: "'t \<Rightarrow> 'u \<Rightarrow> (unit, 'e) result poll \<times> 'u"
  tr_poll_close :: "'t \<Rightarrow> 'u \<Rightarrow> (unit, 'e) result poll \<times> 'u"

record 't sink =
  sink_notification :: string
  sink_transport :: 't

definition sink_params_to_string :: "('n notification \<Rightarrow> string) \<Rightarrow> 't sink \<Rightarrow> 'n params \<Rightarrow> string" where
  "sink_params_to_string to_string k v =
     to_string \<lparr>nt_jsonrpc = Some V2, nt_method = sink_notification k, nt_params = v\<rparr>"

definition sink_notify ::
    "('n notification \<Rightarrow> string) \<Rightarrow> ('u, 't, 'e) transport_ops \<Rightarrow> 't sink \<Rightarrow> 'n params \<Rightarrow> 'u \<Rightarrow> (unit, 'e) result \<times> 'u" where
  "sink_notify to_string tr k v u = tr_unbounded_send tr (sink_transport k) (sink_params_to_string to_string k v) u"

definition sink_poll_ready :: "('u, 't, 'e) transport_ops \<Rightarrow> 't sink \<Rightarrow> 'u \<Rightarrow> (unit, 'e) result poll \<times> 'u" where
  "sink_poll_ready tr k u = tr_poll_ready tr (sink_transport k) u"

definition sink_start_send ::
    "('n notification \<Rightarrow> string) \<Rightarrow> ('u, 't, 'e) transport_ops \<Rightarrow> 't sink \<Rightarrow> 'n params \<Rightarrow> 'u \<Rightarrow> (unit, 'e) result \<times> 'u" where
  "sink_start_send to_string tr k v u = tr_start_send tr (sink_transport k) (sink_params_to_string to_string k v) u"

definition sink_poll_flush :: "('u, 't, 'e) transport_ops \<Rightarrow> 't sink \<Rightarrow> 'u \<Rightarrow> (unit, 'e) result poll \<times> 'u" where
  "sink_poll_flush tr k u = tr_poll_flush tr (sink_transport k) u"

definition sink_poll_close :: "('u, 't, 'e) transport_ops \<Rightarrow> 't sink \<Rightarrow> 'u \<Rightarrow> (unit, 'e) result poll \<times> 'u" where
  "sink_poll_close tr k u = tr_poll_close tr (sink_transport k) u"

type_synonym 'n sub_answer = "(subscription_id, 'n rpc_error) result"

record ('t, 'c, 'd) subscriber =
  sb_notification :: string
  sb_transport :: 't
  sb_sender :: "('c, 'd) rv_sender"

definition sb_sink :: "('t, 'c, 'd) subscriber \<Rightarrow> 't sink" where
  "sb_sink s = \<lparr>sink_notification = sb_notification s, sink_transport = sb_transport s\<rparr>"

text \<open>A subscriber for tests, with the receiving ends of its two channels; \<open>unbounded\<close> makes the channel of the
  transport.\<close>

definition subscriber_new_test ::
    "('u, 'c, 'n sub_answer) oneshot_ops \<Rightarrow> ('u, 'd, unit) oneshot_ops \<Rightarrow> ('u \<Rightarrow> ('t \<times> 'r) \<times> 'u) \<Rightarrow> string \<Rightarrow> 'u
     \<Rightarrow> (('t, 'c, 'd) subscriber \<times> ('c, 'd) rv_receiver \<times> 'r) \<times> 'u" where
  "subscriber_new_test items receipts unbounded name u =
     (let ((sender, id_receiver), u1) = rv_channel items receipts u; ((tx, rx), u2) = unbounded u1
      in ((\<lparr>sb_notification = name, sb_transport = tx, sb_sender = sender\<rparr>, id_receiver, rx), u2))"

definition assign_id ::
    "('u, 'c, 'n sub_answer) oneshot_ops \<Rightarrow> ('t, 'c, 'd) subscriber \<Rightarrow> subscription_id \<Rightarrow> 'u
     \<Rightarrow> ('t sink, unit) result \<times> 'u" where
  "assign_id items s i u =
     apfst (\<lambda>r. map_err (\<lambda>_. ()) (map_ok (\<lambda>_. sb_sink s) r)) (rv_send items (sb_sender s) (Ok i) u)"

definition assign_id_async ::
    "('u, 'c, 'n sub_answer) oneshot_ops \<Rightarrow> ('u, 'd, unit) oneshot_ops \<Rightarrow> ('t, 'c, 'd) subscriber \<Rightarrow> subscription_id
     \<Rightarrow> 'u \<Rightarrow> ('u, ('t sink, unit) result) fut \<times> 'u" where
  "assign_id_async items receipts s i u =
     apfst (fut_map (map_ok (\<lambda>_. sb_sink s))) (rv_send_and_wait items receipts (sb_sender s) (Ok i) u)"

definition reject ::
    "('u, 'c, 'n sub_answer) oneshot_ops \<Rightarrow> ('t, 'c, 'd) subscriber \<Rightarrow> 'n rpc_error \<Rightarrow> 'u \<Rightarrow> (unit, unit) result \<times> 'u" where
  "reject items s e u = apfst (map_err (\<lambda>_. ())) (rv_send items (sb_sender s) (Err e) u)"

definition reject_async ::
    "('u, 'c, 'n sub_answer) oneshot_ops \<Rightarrow> ('u, 'd, unit) oneshot_ops \<Rightarrow> ('t, 'c, 'd) subscriber \<Rightarrow> 'n rpc_error
     \<Rightarrow> 'u \<Rightarrow> ('u, (unit, unit) result) fut \<times> 'u" where
  "reject_async items receipts s e u =
     apfst (fut_map (\<lambda>r. map_err (\<lambda>_. ()) (map_ok (\<lambda>_. ()) r))) (rv_send_and_wait items receipts (sb_sender s) (Err e) u)"

section \<open>Typed sinks and subscribers\<close>

record ('t, 'c, 'd) typed_subscriber =
  ty_subscriber :: "('t, 'c, 'd) subscriber"

record 't typed_sink =
  ty_sink :: "'t sink"
  ty_id :: subscription_id

definition typed_new :: "('t, 'c, 'd) subscriber \<Rightarrow> ('t, 'c, 'd) typed_subscriber" where
  "typed_new s = \<lparr>ty_subscriber = s\<rparr>"

definition typed_new_test ::
    "('u, 'c, 'n sub_answer) oneshot_ops \<Rightarrow> ('u, 'd, unit) oneshot_ops \<Rightarrow> ('u \<Rightarrow> ('t \<times> 'r) \<times> 'u) \<Rightarrow> string \<Rightarrow> 'u
     \<Rightarrow> (('t, 'c, 'd) typed_subscriber \<times> ('c, 'd) rv_receiver \<times> 'r) \<times> 'u" where
  "typed_new_test items receipts unbounded name u =
     apfst (\<lambda>(subscriber, i, subscription). (typed_new subscriber, i, subscription))
       (subscriber_new_test items receipts unbounded name u)"

definition typed_reject ::
    "('u, 'c, 'n sub_answer) oneshot_ops \<Rightarrow> ('t, 'c, 'd) typed_subscriber \<Rightarrow> 'n rpc_error \<Rightarrow> 'u \<Rightarrow> (unit, unit) result \<times> 'u" where
  "typed_reject items s e u = reject items (ty_subscriber s) e u"

definition typed_assign_id ::
    "('u, 'c, 'n sub_answer) oneshot_ops \<Rightarrow> ('t, 'c, 'd) typed_subscriber \<Rightarrow> subscription_id \<Rightarrow> 'u
     \<Rightarrow> ('t typed_sink, unit) result \<times> 'u" where
  "typed_assign_id items s i u =
     (case assign_id items (ty_subscriber s) i u of
        (Ok k, u') \<Rightarrow> (Ok \<lparr>ty_sink = k, ty_id = i\<rparr>, u')
      | (Err e, u') \<Rightarrow> (Err e, u'))"

text \<open>The asynchronous variants are \<open>async fn\<close>s: nothing runs before the future is awaited.\<close>

definition typed_reject_async ::
    "('u, 'c, 'n sub_answer) oneshot_ops \<Rightarrow> ('u, 'd, unit) oneshot_ops \<Rightarrow> ('t, 'c, 'd) typed_subscriber \<Rightarrow> 'n rpc_error
     \<Rightarrow> ('u, (unit, unit) result) fut" where
  "typed_reject_async items receipts s e =
     (\<lambda>u. case reject_async items receipts (ty_subscriber s) e u of (f, u') \<Rightarrow> f u')"

definition typed_assign_id_async ::
    "('u, 'c, 'n sub_answer) oneshot_ops \<Rightarrow> ('u, 'd, unit) oneshot_ops \<Rightarrow> ('t, 'c, 'd) typed_subscriber \<Rightarrow> subscription_id
     \<Rightarrow> ('u, ('t typed_sink, unit) result) fut" where
  "typed_assign_id_async items receipts s i =
     (\<lambda>u. case assign_id_async items receipts (ty_subscriber s) i u of
        (f, u') \<Rightarrow> fut_map (map_ok (\<lambda>k. \<lparr>ty_sink = k, ty_id = i\<rparr>)) f u')"

text \<open>\<open>to_value\<close> serializes a value; serialization of the payload types is assumed to succeed.\<close>

definition val_to_params ::
    "(u64 \<Rightarrow> 'n) \<Rightarrow> ('v \<Rightarrow> 'n json) \<Rightarrow> ('e \<Rightarrow> 'n json) \<Rightarrow> 't typed_sink \<Rightarrow> ('v, 'e) result \<Rightarrow> 'n params" where
  "val_to_params from_u64 val_json err_json k v =
     ParamsMap (fmap_of_list
       [(''subscription'', sub_into_value from_u64 (ty_id k)),
        (case v of Ok x \<Rightarrow> (''result'', val_json x) | Err e \<Rightarrow> (''error'', err_json e))])"

definition typed_notify ::
    "(u64 \<Rightarrow> 'n) \<Rightarrow> ('v \<Rightarrow> 'n json) \<Rightarrow> ('x \<Rightarrow> 'n json) \<Rightarrow> ('n notification \<Rightarrow> string) \<Rightarrow> ('u, 't, 'e) transport_ops
     \<Rightarrow> 't typed_sink \<Rightarrow> ('v, 'x) result \<Rightarrow> 'u \<Rightarrow> (unit, 'e) result \<times> 'u" where
  "typed_notify from_u64 val_json err_json to_string tr k v u =
     sink_notify to_string tr (ty_sink k) (val_to_params from_u64 val_json err_json k v) u"

definition typed_start_send ::
    "(u64 \<Rightarrow> 'n) \<Rightarrow> ('v \<Rightarrow> 'n json) \<Rightarrow> ('x \<Rightarrow> 'n json) \<Rightarrow> ('n notification \<Rightarrow> string) \<Rightarrow> ('u, 't, 'e) transport_ops
     \<Rightarrow> 't typed_sink \<Rightarrow> ('v, 'x) result \<Rightarrow> 'u \<Rightarrow> (unit, 'e) result \<times> 'u" where
  "typed_start_send from_u64 val_json err_json to_string tr k v u =
     sink_start_send to_string tr (ty_sink k) (val_to_params from_u64 val_json err_json k v) u"

definition typed_poll_ready :: "('u, 't, 'e) transport_ops \<Rightarrow> 't typed_sink \<Rightarrow> 'u \<Rightarrow> (unit, 'e) result poll \<times> 'u" where
  "typed_poll_ready tr k u = sink_poll_ready tr (ty_sink k) u"

definition typed_poll_flush :: "('u, 't, 'e) transport_ops \<Rightarrow> 't typed_sink \<Rightarrow> 'u \<Rightarrow> (unit, 'e) result poll \<times> 'u" where
  "typed_poll_flush tr k u = sink_poll_flush tr (ty_sink k) u"

definition typed_poll_close :: "('u, 't, 'e) transport_ops \<Rightarrow> 't typed_sink \<Rightarrow> 'u \<Rightarrow> (unit, 'e) result poll \<times> 'u" where
  "typed_poll_close tr k u = sink_poll_close tr (ty_sink k) u"

section \<open>Subscribe and unsubscribe\<close>

text \<open>The world of the pub-sub methods: the environment and the sessions, by identity. Metadata
  gives access to a session through \<open>session_of\<close>.\<close>

record ('t, 'u) ps_world =
  ps_env :: 'u
  ps_sessions :: "nat \<Rightarrow> ('t, 'u) session"

text \<open>The session of metadata that is a shared session, and of optional metadata.\<close>

definition arc_session :: "nat \<Rightarrow> nat option" where
  "arc_session sid = Some sid"

definition option_session :: "('m \<Rightarrow> nat option) \<Rightarrow> 'm option \<Rightarrow> nat option" where
  "option_session session_of meta = Option.bind meta session_of"

definition lift_fut :: "('u, 'a) fut \<Rightarrow> (('t, 'u) ps_world, 'a) fut" where
  "lift_fut f = (\<lambda>w. case f (ps_env w) of None \<Rightarrow> None | Some (a, u) \<Rightarrow> Some (a, w\<lparr>ps_env := u\<rparr>))"

type_synonym ('n, 'm, 't, 'c, 'd, 'u) subscribe_fn = "'n params \<Rightarrow> 'm \<Rightarrow> ('t, 'c, 'd) subscriber \<Rightarrow> 'u \<Rightarrow> 'u"

type_synonym ('n, 'm, 'u) unsubscribe_fn = "subscription_id \<Rightarrow> 'm option \<Rightarrow> 'u \<Rightarrow> ('n, 'u) rpc_result \<times> 'u"

record ('n, 'm, 't, 'c, 'd, 'u) subscribe =
  su_notification :: string
  su_subscribe :: "('n, 'm, 't, 'c, 'd, 'u) subscribe_fn"
  su_unsubscribe :: "('n, 'm, 'u) unsubscribe_fn"

record ('n, 'm, 'u) unsubscribe =
  un_notification :: string
  un_unsubscribe :: "('n, 'm, 'u) unsubscribe_fn"

definition new_subscription ::
    "string \<Rightarrow> ('n, 'm, 't, 'c, 'd, 'u) subscribe_fn \<Rightarrow> ('n, 'm, 'u) unsubscribe_fn
     \<Rightarrow> ('n, 'm, 't, 'c, 'd, 'u) subscribe \<times> ('n, 'm, 'u) unsubscribe" where
  "new_subscription name sub unsub =
     (\<lparr>su_notification = name, su_subscribe = sub, su_unsubscribe = unsub\<rparr>,
      \<lparr>un_notification = name, un_unsubscribe = unsub\<rparr>)"

definition subscription_rejected :: "'n rpc_error" where
  "subscription_rejected =
     \<lparr>err_code = ServerError (-32091), err_message = ''Subscription rejected'', err_data = None\<rparr>"

definition subscriptions_unavailable :: "'n rpc_error" where
  "subscriptions_unavailable =
     \<lparr>err_code = ServerError (-32090), err_message = ''Subscriptions are not available on this transport.'',
      err_data = None\<rparr>"

text \<open>What is run when a subscription is dropped without an unsubscribe call: the unsubscribe
  function without metadata, its future spawned on the background pool.\<close>

definition drop_callback ::
    "(('n, 'u) rpc_result \<Rightarrow> 'u \<Rightarrow> 'u) \<Rightarrow> ('n, 'm, 'u) unsubscribe_fn \<Rightarrow> 'u remove_fn" where
  "drop_callback spawn_ok unsub = (\<lambda>i u. case unsub i None u of (f, u') \<Rightarrow> spawn_ok f u')"

definition add_to_session ::
    "nat \<Rightarrow> string \<Rightarrow> subscription_id \<Rightarrow> 'u remove_fn \<Rightarrow> ('t, 'u) ps_world \<Rightarrow> ('t, 'u) ps_world" where
  "add_to_session sid name i remove w =
     (case session_add_subscription name i remove (ps_sessions w sid) (ps_env w) of
        (s, u) \<Rightarrow> w\<lparr>ps_env := u, ps_sessions := (ps_sessions w)(sid := s)\<rparr>)"

definition subscribe_call ::
    "(u64 \<Rightarrow> 'n) \<Rightarrow> ('u, 'c, 'n sub_answer) oneshot_ops \<Rightarrow> ('u, 'd, unit) oneshot_ops
     \<Rightarrow> (('n, 'u) rpc_result \<Rightarrow> 'u \<Rightarrow> 'u) \<Rightarrow> ('m \<Rightarrow> nat option)
     \<Rightarrow> ('n, 'm, 't, 'c, 'd, 'u) subscribe \<Rightarrow> ('n, 'm, ('t, 'u) ps_world) rpc_method" where
  "subscribe_call from_u64 items receipts spawn_ok session_of sub params meta w =
     (case session_of meta of
        Some sid \<Rightarrow>
          (let ((tx, rx), u1) = rv_channel items receipts (ps_env w);
               subscriber = \<lparr>sb_notification = su_notification sub,
                             sb_transport = session_sender (ps_sessions w sid), sb_sender = tx\<rparr>;
               u2 = su_subscribe sub params meta subscriber u1;
               subscribe_future =
                 fut_bind (lift_fut (rv_recv items receipts rx)) (\<lambda>r w.
                   case r of
                     Err _ \<Rightarrow> Some (Err subscription_rejected, w)
                   | Ok (Ok i) \<Rightarrow>
                       Some (Ok (sub_into_value from_u64 i),
                         add_to_session sid (su_notification sub) i (drop_callback spawn_ok (su_unsubscribe sub)) w)
                   | Ok (Err e) \<Rightarrow> Some (Err e, w))
           in (subscribe_future, w\<lparr>ps_env := u2\<rparr>))
      | None \<Rightarrow> (fut_ready (Err subscriptions_unavailable), w))"

definition unsubscribe_call ::
    "('n \<Rightarrow> u64 option) \<Rightarrow> ('m \<Rightarrow> nat option) \<Rightarrow> ('n, 'm, 'u) unsubscribe \<Rightarrow> ('n, 'm, ('t, 'u) ps_world) rpc_method" where
  "unsubscribe_call as_u64 session_of unsub params meta w =
     (let i = (case params of ParamsArray [v] \<Rightarrow> sub_parse_value as_u64 v | _ \<Rightarrow> None)
      in case (session_of meta, i) of
           (Some sid, Some i) \<Rightarrow>
             (case session_remove_subscription (un_notification unsub) i (ps_sessions w sid) of
                (found, s) \<Rightarrow>
                  (let w1 = w\<lparr>ps_sessions := (ps_sessions w)(sid := s)\<rparr>
                   in if found then
                        (case un_unsubscribe unsub i (Some meta) (ps_env w1) of
                           (f, u) \<Rightarrow> (lift_fut f, w1\<lparr>ps_env := u\<rparr>))
                      else (fut_ready (Err (invalid_params ''Invalid subscription id.'')), w1)))
         | (Some _, None) \<Rightarrow> (fut_ready (Err (invalid_params ''Expected subscription id.'')), w)
         | _ \<Rightarrow> (fut_ready (Err subscriptions_unavailable), w))"

text \<open>Dropping the last reference to a session.\<close>

definition drop_session :: "nat \<Rightarrow> ('t, 'u) ps_world \<Rightarrow> ('t, 'u) ps_world" where
  "drop_session sid w =
     w\<lparr>ps_env := session_drop (ps_sessions w sid) (ps_env w),
       ps_sessions := (ps_sessions w)(sid := (ps_sessions w sid)\<lparr>active_subscriptions := [], on_drop := []\<rparr>)\<rparr>"

section \<open>Registration\<close>

record ('n, 'm, 'w) pubsub_handler =
  ps_handler :: "('n, 'm, 'w) meta_io_handler"

definition pubsub_new :: "('n, 'm, 'w) meta_io_handler \<Rightarrow> ('n, 'm, 'w) pubsub_handler" where
  "pubsub_new h = \<lparr>ps_handler = h\<rparr>"

definition pubsub_default :: "('n, 'm, 'w) pubsub_handler" where
  "pubsub_default = \<lparr>ps_handler = default_handler\<rparr>"

definition pubsub_add_subscription where
  "pubsub_add_subscription as_u64 from_u64 items receipts spawn_ok session_of name sub_entry unsub_entry ps =
     (let (sub, unsub) = new_subscription name (snd sub_entry) (snd unsub_entry)
      in ps\<lparr>ps_handler :=
           add_method_with_meta (fst unsub_entry) (unsubscribe_call as_u64 session_of unsub)
             (add_method_with_meta (fst sub_entry)
               (subscribe_call from_u64 items receipts spawn_ok session_of sub) (ps_handler ps))\<rparr>)"

text \<open>Delegates: the closures get the delegate first.\<close>

definition delegate_subscribe ::
    "'x \<Rightarrow> ('x \<Rightarrow> ('n, 'm, 't, 'c, 'd, 'u) subscribe_fn) \<Rightarrow> ('n, 'm, 't, 'c, 'd, 'u) subscribe_fn" where
  "delegate_subscribe d closure params meta subscriber = closure d params meta subscriber"

definition delegate_unsubscribe ::
    "'x \<Rightarrow> ('x \<Rightarrow> ('n, 'm, 'u) unsubscribe_fn) \<Rightarrow> ('n, 'm, 'u) unsubscribe_fn" where
  "delegate_unsubscribe d closure i meta = closure d i meta"

record ('x, 'n, 'm, 'w) pubsub_delegate =
  pd_inner :: "('x, 'n, 'm, 'w) io_delegate"
  pd_delegate :: 'x

definition pubsub_delegate_new :: "'x \<Rightarrow> ('x, 'n, 'm, 'w) pubsub_delegate" where
  "pubsub_delegate_new d = \<lparr>pd_inner = delegate_new d, pd_delegate = d\<rparr>"

definition pubsub_delegate_add_subscription where
  "pubsub_delegate_add_subscription as_u64 from_u64 items receipts spawn_ok session_of name sub_entry unsub_entry pd =
     (let (sub, unsub) = new_subscription name (delegate_subscribe (pd_delegate pd) (snd sub_entry))
            (delegate_unsubscribe (pd_delegate pd) (snd unsub_entry))
      in pd\<lparr>pd_inner :=
           delegate_add_method_with_meta (fst unsub_entry) (\<lambda>_. unsubscribe_call as_u64 session_of unsub)
             (delegate_add_method_with_meta (fst sub_entry)
               (\<lambda>_. subscribe_call from_u64 items receipts spawn_ok session_of sub) (pd_inner pd))\<rparr>)"

definition pubsub_delegate_add_alias ::
    "string \<Rightarrow> string \<Rightarrow> ('x, 'n, 'm, 'w) pubsub_delegate \<Rightarrow> ('x, 'n, 'm, 'w) pubsub_delegate" where
  "pubsub_delegate_add_alias als target pd = pd\<lparr>pd_inner := delegate_add_alias als target (pd_inner pd)\<rparr>"

definition pubsub_delegate_add_method ::
    "string \<Rightarrow> ('x \<Rightarrow> 'n params \<Rightarrow> 'w \<Rightarrow> ('n, 'w) rpc_result \<times> 'w) \<Rightarrow> ('x, 'n, 'm, 'w) pubsub_delegate
     \<Rightarrow> ('x, 'n, 'm, 'w) pubsub_delegate" where
  "pubsub_delegate_add_method name f pd = pd\<lparr>pd_inner := delegate_add_method name f (pd_inner pd)\<rparr>"

definition pubsub_delegate_add_method_with_meta ::
    "string \<Rightarrow> ('x \<Rightarrow> 'n params \<Rightarrow> 'm \<Rightarrow> 'w \<Rightarrow> ('n, 'w) rpc_result \<times> 'w) \<Rightarrow> ('x, 'n, 'm, 'w) pubsub_delegate
     \<Rightarrow> ('x, 'n, 'm, 'w) pubsub_delegate" where
  "pubsub_delegate_add_method_with_meta name f pd = pd\<lparr>pd_inner := delegate_add_method_with_meta name f (pd_inner pd)\<rparr>"

definition pubsub_delegate_add_notification ::
    "string \<Rightarrow> ('x \<Rightarrow> 'n params \<Rightarrow> 'w \<Rightarrow> 'w) \<Rightarrow> ('x, 'n, 'm, 'w) pubsub_delegate \<Rightarrow> ('x, 'n, 'm, 'w) pubsub_delegate" where
  "pubsub_delegate_add_notification name f pd = pd\<lparr>pd_inner := delegate_add_notification name f (pd_inner pd)\<rparr>"

definition pubsub_delegate_augment ::
    "('x, 'n, 'm, 'w) pubsub_delegate \<Rightarrow> ('n, 'm, 'w) meta_io_handler \<Rightarrow> ('n, 'm, 'w) meta_io_handler" where
  "pubsub_delegate_augment pd h = delegate_augment (pd_inner pd) h"

section \<open>Every subscription is unsubscribed exactly once\<close>

text \<open>The environment of this section counts unsubscriptions: it is the multiset of the
  (id, name) pairs for which the unsubscribe function has run. A session sees additions and
  unsubscribe requests in any order; a request is a call of the registered method, with the id as its
  parameter, on the session of its metadata.\<close>

type_synonym sub_key = "subscription_id \<times> string"

datatype session_op = OpAdd string subscription_id | OpRemove string subscription_id

definition count_remove :: "string \<Rightarrow> sub_key multiset remove_fn" where
  "count_remove name = (\<lambda>i u. add_mset (i, name) u)"

definition count_unsubscribe :: "string \<Rightarrow> (u64, nat, sub_key multiset) unsubscribe_fn" where
  "count_unsubscribe name = (\<lambda>i _ u. (fut_ready (Ok VNull), add_mset (i, name) u))"

fun session_op_run ::
    "session_op \<Rightarrow> ('t, sub_key multiset) session \<times> sub_key multiset \<Rightarrow> ('t, sub_key multiset) session \<times> sub_key multiset" where
  "session_op_run (OpAdd name i) (s, u) = session_add_subscription name i (count_remove name) s u"
| "session_op_run (OpRemove name i) (s, u) =
     (case unsubscribe_call Some Some \<lparr>un_notification = name, un_unsubscribe = count_unsubscribe name\<rparr>
             (ParamsArray [sub_into_value (\<lambda>x. x) i]) 0 \<lparr>ps_env = u, ps_sessions = (\<lambda>_. s)\<rparr> of
        (_, w) \<Rightarrow> (ps_sessions w 0, ps_env w))"

fun op_added :: "session_op \<Rightarrow> sub_key multiset" where
  "op_added (OpAdd name i) = {#(i, name)#}"
| "op_added (OpRemove name i) = {#}"

definition ops_added :: "session_op list \<Rightarrow> sub_key multiset" where
  "ops_added ops = (\<Sum>op \<leftarrow> ops. op_added op)"

definition session_counts :: "('t, sub_key multiset) session \<times> sub_key multiset \<Rightarrow> sub_key multiset \<Rightarrow> bool" where
  "session_counts p tot \<longleftrightarrow> (case p of (s, u) \<Rightarrow>
     hm_wf (active_subscriptions s) \<and>
     (\<forall>k f. map_of (active_subscriptions s) k = Some f \<longrightarrow> f = count_remove (snd k)) \<and>
     on_drop s = [] \<and> u + mset (map fst (active_subscriptions s)) = tot)"

lemma mset_keys_insert:
  "mset (map fst (snd (hm_insert k v m))) = (if map_of m k = None then add_mset k (mset (map fst m)) else mset (map fst m))"
  by (simp add: hm_insert_def update_keys map_of_eq_None_iff)

lemma mset_keys_remove:
  assumes "hm_wf m"
  shows "mset (map fst m) = (if map_of m k = None then {#} else {#k#}) + mset (map fst (snd (hm_remove k m)))"
proof -
  have "mset (map fst (snd (hm_remove k m))) = mset (map fst m) - {#k#}"
    using assms by (simp add: hm_remove_def hm_wf_def delete_keys distinct_remove1_removeAll [symmetric])
  moreover have "k \<in># mset (map fst m) \<longleftrightarrow> map_of m k \<noteq> None" by (simp add: map_of_eq_None_iff)
  ultimately show ?thesis by (cases "map_of m k") (simp_all add: diff_single_trivial)
qed

lemma session_add_conv:
  "session_add_subscription name i remove s u =
     (s\<lparr>active_subscriptions := snd (hm_insert (i, name) remove (active_subscriptions s))\<rparr>,
      case map_of (active_subscriptions s) (i, name) of Some old \<Rightarrow> old i u | None \<Rightarrow> u)"
  by (simp add: session_add_subscription_def case_prod_beta)

lemma session_remove_conv:
  "session_remove_subscription name i s =
     (map_of (active_subscriptions s) (i, name) \<noteq> None,
      s\<lparr>active_subscriptions := snd (hm_remove (i, name) (active_subscriptions s))\<rparr>)"
  by (simp add: session_remove_subscription_def case_prod_beta)

lemma session_op_remove:
  "session_op_run (OpRemove name i) (s, u) =
     (case session_remove_subscription name i s of
        (found, s') \<Rightarrow> (s', if found then add_mset (i, name) u else u))"
  by (simp add: unsubscribe_call_def count_unsubscribe_def sub_value_roundtrip case_prod_beta Let_def)

lemma session_counts_step:
  assumes "session_counts p tot"
  shows "session_counts (session_op_run op p) (tot + op_added op)"
proof (cases op)
  case (OpAdd name i)
  show ?thesis
  proof (cases p)
    case (Pair s u)
    let ?m = "active_subscriptions s"
    have old: "f i u = add_mset (i, name) u" if "map_of ?m (i, name) = Some f" for f
      using assms that Pair by (auto simp: session_counts_def count_remove_def)
    show ?thesis
      using assms Pair OpAdd old mset_keys_insert [of "(i, name)" "count_remove name" ?m]
      by (cases "map_of ?m (i, name)") (auto simp: session_counts_def session_add_conv split: if_splits)
  qed
next
  case (OpRemove name i)
  show ?thesis
  proof (cases p)
    case (Pair s u)
    let ?m = "active_subscriptions s"
    have wf: "hm_wf ?m" using assms Pair by (simp add: session_counts_def)
    show ?thesis
      using assms Pair OpRemove mset_keys_remove [OF wf, of "(i, name)"] wf
      by (cases "map_of ?m (i, name)")
        (auto simp: session_counts_def session_remove_conv session_op_remove simp del: session_op_run.simps(2) split: if_splits)
  qed
qed

lemma session_counts_run:
  "session_counts p tot \<Longrightarrow> session_counts (fold session_op_run ops p) (tot + ops_added ops)"
proof (induction ops arbitrary: p tot)
  case (Cons op ops)
  show ?case using Cons.IH [OF session_counts_step [OF Cons.prems], of op] by (simp add: ops_added_def add.assoc)
qed (simp add: ops_added_def)

lemma drop_counts:
  assumes "\<forall>k f. (k, f) \<in> set m \<longrightarrow> f = count_remove (snd k)"
  shows "fold (\<lambda>((i, name), remove) u. remove i u) m u = u + mset (map fst m)"
  using assms
proof (induction m arbitrary: u)
  case (Cons e m)
  obtain i name f where e: "e = ((i, name), f)" by (cases e) auto
  with Cons.prems have "f = count_remove name" by auto
  with Cons e show ?case by (simp add: count_remove_def)
qed simp

text \<open>C10: unsubscription is exact: whatever subscriptions a client makes and cancels, in whatever
  order and with whatever id collisions, once its session is dropped the unsubscribe function
  has run exactly as often for each id and name as that subscription was added.\<close>

theorem session_unsubscribes_exactly_once:
  "(case fold session_op_run ops (session_new t, {#}) of (s, u) \<Rightarrow> session_drop s u) = ops_added ops"
proof -
  obtain s u where su: "fold session_op_run ops (session_new t, {#}) = (s, u)" by fastforce
  have "session_counts (session_new t, {#}) {#}" by (simp add: session_counts_def session_new_def)
  from session_counts_run [OF this, of ops] su have c: "session_counts (s, u) (ops_added ops)" by simp
  then have "\<forall>k f. (k, f) \<in> set (active_subscriptions s) \<longrightarrow> f = count_remove (snd k)"
    by (simp add: session_counts_def hm_wf_lookup)
  from drop_counts [OF this] c su show ?thesis
    by (simp add: session_counts_def session_drop_def)
qed

section \<open>The subscribe and unsubscribe methods\<close>

lemma add_to_session_active:
  "active_subscriptions (ps_sessions (add_to_session sid name i remove w) sid) =
     snd (hm_insert (i, name) remove (active_subscriptions (ps_sessions w sid)))"
  by (simp add: add_to_session_def session_add_conv)

lemma add_to_session_env:
  "map_of (active_subscriptions (ps_sessions w sid)) (i, name) = None \<Longrightarrow>
   ps_env (add_to_session sid name i remove w) = ps_env w"
  by (simp add: add_to_session_def session_add_conv)

lemma add_to_session_other: "t \<noteq> sid \<Longrightarrow> ps_sessions (add_to_session sid name i remove w) t = ps_sessions w t"
  by (simp add: add_to_session_def session_add_conv)

lemma subscribe_future:
  assumes "session_of meta = Some sid"
    and "subscribe_call from_u64 items receipts spawn_ok session_of sub params meta w = (f, w1)"
    and "f w1 = Some (r, w2)"
  obtains (granted) i w' where "r = Ok (sub_into_value from_u64 i)" "ps_sessions w' = ps_sessions w"
      "w2 = add_to_session sid (su_notification sub) i (drop_callback spawn_ok (su_unsubscribe sub)) w'"
  | (denied) e where "r = Err e" "ps_sessions w2 = ps_sessions w"
proof -
  obtain c x u1 where ch: "rv_channel items receipts (ps_env w) = ((c, x), u1)" by (metis surj_pair)
  have w1: "ps_sessions w1 = ps_sessions w"
    using assms(1,2) ch by (auto simp: subscribe_call_def)
  obtain a u where a: "rv_recv items receipts x (ps_env w1) = Some (a, u)"
    using assms ch by (auto simp: subscribe_call_def fut_bind_def lift_fut_def split: option.splits)
  let ?w' = "w1\<lparr>ps_env := u\<rparr>"
  have "case a of
      Err _ \<Rightarrow> r = Err subscription_rejected \<and> w2 = ?w'
    | Ok (Ok i) \<Rightarrow> r = Ok (sub_into_value from_u64 i) \<and>
        w2 = add_to_session sid (su_notification sub) i (drop_callback spawn_ok (su_unsubscribe sub)) ?w'
    | Ok (Err e) \<Rightarrow> r = Err e \<and> w2 = ?w'"
    using assms ch a by (auto simp: subscribe_call_def fut_bind_def lift_fut_def split: result.splits)
  then show thesis
    using w1 granted [of _ ?w'] denied by (cases a rule: result.exhaust; cases "case a of Ok b \<Rightarrow> b" rule: result.exhaust) auto
qed

lemma unsubscribe_found:
  assumes "session_of meta = Some sid" "sub_parse_value as_u64 v = Some i"
    and "map_of (active_subscriptions (ps_sessions w sid)) (i, un_notification un) \<noteq> None"
    and "un_unsubscribe un i (Some meta) (ps_env w) = (g, u)"
  shows "unsubscribe_call as_u64 session_of un (ParamsArray [v]) meta w =
    (lift_fut g, w\<lparr>ps_env := u, ps_sessions := (ps_sessions w)(sid := (ps_sessions w sid)
       \<lparr>active_subscriptions := snd (hm_remove (i, un_notification un) (active_subscriptions (ps_sessions w sid)))\<rparr>)\<rparr>)"
  using assms by (simp add: unsubscribe_call_def session_remove_conv)

lemma delete_absent: "map_of m k = None \<Longrightarrow> snd (hm_remove k m) = m"
  by (simp add: hm_remove_def delete_idem map_of_eq_None_iff)

lemma unsubscribe_missing:
  assumes "session_of meta = Some sid" "sub_parse_value as_u64 v = Some i"
    and "map_of (active_subscriptions (ps_sessions w sid)) (i, un_notification un) = None"
  shows "unsubscribe_call as_u64 session_of un (ParamsArray [v]) meta w =
    (fut_ready (Err (invalid_params ''Invalid subscription id.'')), w)"
  using assms by (simp add: unsubscribe_call_def session_remove_conv delete_absent)

text \<open>C33: a client can cancel what it subscribed to, once. If a subscribe call succeeded with a
  value, an unsubscribe call with that value runs the unsubscribe function, with the id behind
  the value and the client's metadata, and forgets the subscription, so that a second
  unsubscribe call with it is answered with an error and runs nothing.\<close>

theorem subscribe_then_unsubscribe:
  assumes num: "\<And>x. as_u64 (from_u64 x) = Some x"
    and meta: "session_of meta = Some sid"
    and pair: "(sub, un) = new_subscription name subscribe_f unsub_f"
    and call: "subscribe_call from_u64 items receipts spawn_ok session_of sub params meta w = (f, w1)"
    and await: "f w1 = Some (Ok v, w2)"
  shows "\<exists>i g u w3. v = sub_into_value from_u64 i \<and> unsub_f i (Some meta) (ps_env w2) = (g, u) \<and>
    unsubscribe_call as_u64 session_of un (ParamsArray [v]) meta w2 = (lift_fut g, w3) \<and> ps_env w3 = u \<and>
    unsubscribe_call as_u64 session_of un (ParamsArray [v]) meta w3 =
      (fut_ready (Err (invalid_params ''Invalid subscription id.'')), w3)"
proof -
  have un: "un_notification un = name" "un_unsubscribe un = unsub_f" "su_notification sub = name"
    using pair by (simp_all add: new_subscription_def)
  obtain i w' where v: "v = sub_into_value from_u64 i"
    and w2: "w2 = add_to_session sid name i (drop_callback spawn_ok (su_unsubscribe sub)) w'"
    using subscribe_future [of session_of, OF meta call await] un by (metis result.distinct(1) result.inject(1))
  have parse: "sub_parse_value as_u64 v = Some i" using sub_value_roundtrip [of as_u64 from_u64 i] num v by simp
  obtain g u where g: "unsub_f i (Some meta) (ps_env w2) = (g, u)" by fastforce
  have found: "map_of (active_subscriptions (ps_sessions w2 sid)) (i, un_notification un) \<noteq> None"
    by (simp add: w2 un add_to_session_active)
  let ?w3 = "w2\<lparr>ps_env := u, ps_sessions := (ps_sessions w2)(sid := (ps_sessions w2 sid)
       \<lparr>active_subscriptions := snd (hm_remove (i, un_notification un) (active_subscriptions (ps_sessions w2 sid)))\<rparr>)\<rparr>"
  have "unsubscribe_call as_u64 session_of un (ParamsArray [v]) meta w2 = (lift_fut g, ?w3)"
    using unsubscribe_found [of session_of meta sid as_u64 v i w2 un g u] meta parse found g un by simp
  moreover have "unsubscribe_call as_u64 session_of un (ParamsArray [v]) meta ?w3 =
      (fut_ready (Err (invalid_params ''Invalid subscription id.'')), ?w3)"
    using unsubscribe_missing [of session_of meta sid as_u64 v i ?w3 un] meta parse by simp
  ultimately show ?thesis using v g by force
qed

text \<open>Without metadata neither method of a subscription does anything: the subscribe function is not called.\<close>

lemma no_metadata_no_subscription:
  "subscribe_call from_u64 items receipts spawn_ok (option_session session_of) sub params None w =
     (fut_ready (Err subscriptions_unavailable), w)"
  "unsubscribe_call as_u64 (option_session session_of) unsub params None w = (fut_ready (Err subscriptions_unavailable), w)"
  by (simp_all add: subscribe_call_def unsubscribe_call_def option_session_def)

text \<open>What a subscriber for tests is answered arrives at its receiver, and what its sink is sent arrives at the transport,
  under the name and the id: the channels are those that were made with the subscriber.\<close>

lemma new_test_connected:
  assumes "typed_new_test items receipts unbounded name u = ((s, id_rx, rx), u1)"
    and "typed_assign_id items s i u1 = (Ok k, u2)"
  shows "rv_item_rx id_rx = rv_item_tx (sb_sender (ty_subscriber s)) \<and> ty_id k = i \<and> sink_notification (ty_sink k) = name \<and>
    (\<exists>u0. unbounded u0 = ((sink_transport (ty_sink k), rx), u1)) \<and> os_send items (rv_item_rx id_rx) (Ok i) u1 = (Ok (), u2)"
proof -
  obtain a u0 b u0' tx rx' u1' where c: "os_channel items u = (a, u0)" "os_channel receipts u0 = (b, u0')" "unbounded u0' = ((tx, rx'), u1')"
    by (metis prod.exhaust)
  then have s: "s = \<lparr>ty_subscriber = \<lparr>sb_notification = name, sb_transport = tx, sb_sender = \<lparr>rv_item_tx = a, rv_receipt_rx = b\<rparr>\<rparr>\<rparr>"
    "rv_item_rx id_rx = a" "rx = rx'" "u1 = u1'"
    using assms(1) by (auto simp: typed_new_test_def subscriber_new_test_def rv_channel_def typed_new_def)
  obtain r u' where r: "os_send items a (Ok i) u1 = (r, u')" by fastforce
  then show ?thesis
    using assms(2) c(3) s by (cases r) (auto simp: typed_assign_id_def assign_id_def rv_send_def sb_sink_def)
qed

text \<open>A concrete environment for the witnesses: the list of one-shot channels with what was sent.\<close>

type_synonym demo_env = "u64 sub_answer option list"

definition demo_items :: "(demo_env, nat, u64 sub_answer) oneshot_ops" where
  "demo_items =
     \<lparr>os_channel = (\<lambda>u. (length u, u @ [None])),
      os_send = (\<lambda>c a u. (Ok (), u[c := Some a])),
      os_recv = (\<lambda>c u. map_option (\<lambda>a. (Ok a, u)) (u ! c))\<rparr>"

definition demo_receipts :: "(demo_env, unit, unit) oneshot_ops" where
  "demo_receipts =
     \<lparr>os_channel = (\<lambda>u. ((), u)), os_send = (\<lambda>c a u. (Ok (), u)), os_recv = (\<lambda>c u. None)\<rparr>"

definition demo_subscribe :: "(u64, nat, unit, nat, unit, demo_env) subscribe_fn" where
  "demo_subscribe params meta sb u =
     (case params of ParamsNone \<Rightarrow> snd (assign_id demo_items sb (SubNumber 5) u)
      | _ \<Rightarrow> snd (reject demo_items sb method_not_found u))"

definition demo_unsubscribe :: "(u64, nat, demo_env) unsubscribe_fn" where
  "demo_unsubscribe i meta u = (fut_ready (Ok (VBool True)), u @ [Some (Ok i)])"

definition demo_sub :: "(u64, nat, unit, nat, unit, demo_env) subscribe" where
  "demo_sub = fst (new_subscription ''hello'' demo_subscribe demo_unsubscribe)"

definition demo_un :: "(u64, nat, demo_env) unsubscribe" where
  "demo_un = snd (new_subscription ''hello'' demo_subscribe demo_unsubscribe :: (u64, nat, unit, nat, unit, demo_env) subscribe \<times> _)"

definition demo_world :: "(unit, demo_env) ps_world" where
  "demo_world = \<lparr>ps_env = [], ps_sessions = (\<lambda>_. session_new ())\<rparr>"

definition demo_call :: "u64 params \<Rightarrow> (u64, (unit, demo_env) ps_world) rpc_result \<times> (unit, demo_env) ps_world" where
  "demo_call params = subscribe_call (\<lambda>x. x) demo_items demo_receipts (\<lambda>f u. u) Some demo_sub params 3 demo_world"

lemmas demo_defs = demo_call_def subscribe_call_def demo_world_def demo_sub_def demo_items_def demo_receipts_def
  demo_subscribe_def new_subscription_def rv_channel_def rv_recv_def rv_send_def assign_id_def reject_def
  fut_bind_def lift_fut_def session_sender_def session_new_def

theorem subscribe_then_unsubscribe_witness:
  "\<exists>i g u w3. VNumber 5 = sub_into_value (\<lambda>x. x) i \<and> demo_unsubscribe i (Some 3) (ps_env (snd (the (fst (demo_call ParamsNone) (snd (demo_call ParamsNone)))))) = (g, u) \<and>
    unsubscribe_call Some Some demo_un (ParamsArray [VNumber 5]) 3 (snd (the (fst (demo_call ParamsNone) (snd (demo_call ParamsNone))))) = (lift_fut g, w3) \<and> ps_env w3 = u \<and>
    unsubscribe_call Some Some demo_un (ParamsArray [VNumber 5]) 3 w3 =
      (fut_ready (Err (invalid_params ''Invalid subscription id.'')), w3)"
proof (rule subscribe_then_unsubscribe [where sid = 3])
  show "(demo_sub, demo_un) = new_subscription ''hello'' demo_subscribe demo_unsubscribe"
    by (simp add: demo_sub_def demo_un_def new_subscription_def)
  show "subscribe_call (\<lambda>x. x) demo_items demo_receipts (\<lambda>f u. u) Some demo_sub ParamsNone 3 demo_world =
      (fst (demo_call ParamsNone), snd (demo_call ParamsNone))"
    by (simp add: demo_call_def)
  show "fst (demo_call ParamsNone) (snd (demo_call ParamsNone)) =
      Some (Ok (VNumber 5), snd (the (fst (demo_call ParamsNone) (snd (demo_call ParamsNone)))))"
    by (simp add: demo_defs)
qed simp_all

text \<open>A subscription that was not granted leaves no trace: when the subscriber rejects the
  request, or is dropped without an answer, the client gets the rejection (or the error
  \<open>Subscription rejected\<close>) and no session has a new subscription; on a transport without
  sessions the subscribe function is not even called.\<close>

theorem failed_subscribe_registers_nothing:
  assumes "subscribe_call from_u64 items receipts spawn_ok session_of sub params meta w = (f, w1)"
    and "f w1 = Some (Err e, w2)"
  shows "ps_sessions w2 = ps_sessions w \<and>
    (session_of meta = None \<longrightarrow> e = subscriptions_unavailable \<and> w2 = w)"
proof (cases "session_of meta")
  case None
  with assms show ?thesis by (auto simp: subscribe_call_def)
next
  case (Some sid)
  then show ?thesis using subscribe_future [of session_of, OF Some assms] by (metis option.distinct(1) result.distinct(1))
qed

theorem failed_subscribe_registers_nothing_witness:
  "ps_sessions (snd (the (fst (demo_call (ParamsArray [])) (snd (demo_call (ParamsArray [])))))) = ps_sessions demo_world"
proof -
  have "subscribe_call (\<lambda>x. x) demo_items demo_receipts (\<lambda>f u. u) Some demo_sub (ParamsArray []) 3 demo_world =
      (fst (demo_call (ParamsArray [])), snd (demo_call (ParamsArray [])))"
    by (simp add: demo_call_def)
  moreover have "fst (demo_call (ParamsArray [])) (snd (demo_call (ParamsArray []))) =
      Some (Err method_not_found, snd (the (fst (demo_call (ParamsArray [])) (snd (demo_call (ParamsArray []))))))"
    by (simp add: demo_defs)
  ultimately show ?thesis
    using failed_subscribe_registers_nothing [of "\<lambda>x. x" demo_items demo_receipts "\<lambda>f u. u" Some demo_sub "ParamsArray []" 3
        demo_world "fst (demo_call (ParamsArray []))" "snd (demo_call (ParamsArray []))" method_not_found
        "snd (the (fst (demo_call (ParamsArray [])) (snd (demo_call (ParamsArray [])))))"] by blast
qed

end
