(* ===== verification/Pubsub_Manager.thy ===== *)
theory Pubsub_Manager
  imports Pubsub
begin

text \<open>
  The subscription manager (\<open>pubsub/src/manager.rs\<close>): id providers, \<open>add\<close> and
  \<open>cancel\<close>. A \<open>usize\<close> is 64 bits wide. The random generator, the executor and the
  cancellation channel of the \<open>futures\<close> crate are arguments. The spawned future is the pair of
  the subscription's own future and the cancellation channel it is raced against
  (\<open>select_poll\<close> says when the race is over).
\<close>

section \<open>Id providers\<close>

record numeric_id_provider =
  current_id :: u64

definition numeric_with_id :: "u64 \<Rightarrow> numeric_id_provider" where
  "numeric_with_id i = \<lparr>current_id = i\<rparr>"

definition numeric_default :: numeric_id_provider where
  "numeric_default = \<lparr>current_id = 1\<rparr>"

definition numeric_next_id :: "numeric_id_provider \<Rightarrow> u64 \<times> numeric_id_provider" where
  "numeric_next_id p = (current_id p, p\<lparr>current_id := current_id p + 1\<rparr>)"

record random_string_id_provider =
  id_len :: nat

definition random_with_len :: "nat \<Rightarrow> random_string_id_provider" where
  "random_with_len n = \<lparr>id_len = n\<rparr>"

definition random_default :: random_string_id_provider where
  "random_default = \<lparr>id_len = 16\<rparr>"

fun sample_string :: "('g \<Rightarrow> char \<times> 'g) \<Rightarrow> nat \<Rightarrow> 'g \<Rightarrow> string \<times> 'g" where
  "sample_string sample 0 g = ([], g)"
| "sample_string sample (Suc n) g =
     (let (c, g1) = sample g; (s, g2) = sample_string sample n g1 in (c # s, g2))"

definition random_next_id ::
    "('g \<Rightarrow> char \<times> 'g) \<Rightarrow> random_string_id_provider \<times> 'g \<Rightarrow> string \<times> (random_string_id_provider \<times> 'g)" where
  "random_next_id sample p = (case p of (r, g) \<Rightarrow> case sample_string sample (id_len r) g of (s, g') \<Rightarrow> (s, (r, g')))"

section \<open>The manager\<close>

record ('p, 'c) subscription_manager =
  id_provider :: 'p
  sm_active_subscriptions :: "subscription_id \<rightharpoonup> 'c"

definition manager_with_id_provider :: "'p \<Rightarrow> ('p, 'c) subscription_manager" where
  "manager_with_id_provider p = \<lparr>id_provider = p, sm_active_subscriptions = Map.empty\<rparr>"

definition manager_new :: "'g \<Rightarrow> (random_string_id_provider \<times> 'g, 'c) subscription_manager" where
  "manager_new g = manager_with_id_provider (random_default, g)"

definition manager_with_executor :: "(numeric_id_provider, 'c) subscription_manager" where
  "manager_with_executor = manager_with_id_provider numeric_default"

text \<open>One poll of the raced future: over when either side is ready, the cancellation also when
  its sender was dropped.\<close>

fun select_poll :: "unit poll \<Rightarrow> (unit, unit) result poll \<Rightarrow> unit poll" where
  "select_poll (Ready a) rx = Ready a"
| "select_poll Pending (Ready r) = Ready ()"
| "select_poll Pending Pending = Pending"

definition manager_add ::
    "('p \<Rightarrow> 'i \<times> 'p) \<Rightarrow> ('i \<Rightarrow> subscription_id) \<Rightarrow> ('u, 'c, 'n sub_answer) oneshot_ops \<Rightarrow> ('u, 'k, unit) oneshot_ops
     \<Rightarrow> ('f \<times> 'k \<Rightarrow> 'u \<Rightarrow> (unit, 'e) result \<times> 'u) \<Rightarrow> ('t, 'c, 'd) typed_subscriber
     \<Rightarrow> ('t typed_sink \<Rightarrow> 'u \<Rightarrow> 'f \<times> 'u) \<Rightarrow> ('p, 'k) subscription_manager \<Rightarrow> 'u
     \<Rightarrow> subscription_id \<times> ('p, 'k) subscription_manager \<times> 'u" where
  "manager_add next_id into items cancels spawn_obj sb into_fut m u =
     (let (i, p) = next_id (id_provider m); sid = into i; m1 = m\<lparr>id_provider := p\<rparr>
      in case typed_assign_id items sb sid u of
           (Ok sink, u1) \<Rightarrow>
             (let (c, u2) = os_channel cancels u1; (f, u3) = into_fut sink u2;
                  m2 = m1\<lparr>sm_active_subscriptions := (sm_active_subscriptions m1)(sid \<mapsto> c)\<rparr>;
                  (_, u4) = spawn_obj (f, c) u3
              in (sid, m2, u4))
         | (Err _, u1) \<Rightarrow> (sid, m1, u1))"

definition manager_cancel ::
    "('u, 'k, unit) oneshot_ops \<Rightarrow> subscription_id \<Rightarrow> ('p, 'k) subscription_manager \<Rightarrow> 'u
     \<Rightarrow> bool \<times> ('p, 'k) subscription_manager \<times> 'u" where
  "manager_cancel cancels i m u =
     (case sm_active_subscriptions m i of
        Some tx \<Rightarrow>
          (True, m\<lparr>sm_active_subscriptions := (sm_active_subscriptions m)(i := None)\<rparr>, snd (os_send cancels tx () u))
      | None \<Rightarrow> (False, m, u))"

section \<open>Lemmas\<close>

interpretation numeric: id_source numeric_next_id current_id "\<lambda>i. i"
  by unfold_locales (simp_all add: numeric_next_id_def)

interpretation numeric_sub: id_source "\<lambda>p. apfst SubNumber (numeric_next_id p)" current_id SubNumber
  by unfold_locales (simp_all add: numeric_next_id_def inj_def)

lemma sample_string_length: "length (fst (sample_string sample n g)) = n"
  by (induction n arbitrary: g) (simp_all add: case_prod_beta Let_def)

text \<open>A run of additions with the subscribers and futures of the caller.\<close>

fun manager_adds where
  "manager_adds next_id into items cancels spawn_obj [] m u = ([], m, u)"
| "manager_adds next_id into items cancels spawn_obj ((sb, into_fut) # adds) m u =
     (let (i, m1, u1) = manager_add next_id into items cancels spawn_obj sb into_fut m u;
          (is, m2, u2) = manager_adds next_id into items cancels spawn_obj adds m1 u1
      in (i # is, m2, u2))"

lemma manager_add_id:
  assumes "manager_add next_id into items cancels spawn_obj sb into_fut m u = (i, m', u')"
  shows "i = into (fst (next_id (id_provider m)))" "id_provider m' = snd (next_id (id_provider m))"
  using assms
  by (auto simp: manager_add_def Let_def split: prod.splits result.splits)

lemma manager_adds_ids:
  "fst (manager_adds next_id into items cancels spawn_obj adds m u) =
   fst (draw (length adds) (\<lambda>p. apfst into (next_id p)) (id_provider m))"
proof (induction adds arbitrary: m u)
  case (Cons a adds)
  obtain sb into_fut where a: "a = (sb, into_fut)" by fastforce
  obtain i m1 u1 where add: "manager_add next_id into items cancels spawn_obj sb into_fut m u = (i, m1, u1)"
    using prod_cases3 by blast
  show ?case
    using manager_add_id [OF add] Cons.IH [of m1 u1] by (simp add: a add Let_def case_prod_beta)
qed simp

text \<open>A manager with the numeric id provider never hands out the same subscription id twice:
  the ids returned by up to \<open>2 ^ 64\<close> consecutive additions are pairwise different, whatever
  the subscribers do, and wherever the counter started.\<close>

theorem manager_ids_distinct:
  assumes "length adds \<le> 2 ^ 64"
  shows "distinct (fst (manager_adds numeric_next_id SubNumber items cancels spawn_obj adds m u))"
  using numeric_sub.draw_distinct [OF assms] by (simp add: manager_adds_ids)

theorem manager_ids_distinct_witness:
  "distinct (fst (manager_adds numeric_next_id SubNumber demo_items demo_receipts (\<lambda>f u. (Ok () :: (unit, unit) result, u))
     [(typed_new \<lparr>sb_notification = ''hello'', sb_transport = (), sb_sender = \<lparr>rv_item_tx = 0, rv_receipt_rx = ()\<rparr>\<rparr>, \<lambda>k u. ((), u)),
      (typed_new \<lparr>sb_notification = ''hello'', sb_transport = (), sb_sender = \<lparr>rv_item_tx = 0, rv_receipt_rx = ()\<rparr>\<rparr>, \<lambda>k u. ((), u))]
     manager_with_executor [None]))"
  by (rule manager_ids_distinct) simp

text \<open>A subscription whose id was delivered can be cancelled exactly once: right after \<open>add\<close>
  the first \<open>cancel\<close> of its id returns true and signals the channel its future is raced against,
  and a second one returns false and does nothing.\<close>

theorem add_then_cancel_once:
  assumes "manager_add next_id into items cancels spawn_obj sb into_fut m u = (i, m1, u1)"
    and "typed_assign_id items sb i u = (Ok sink, u0)"
  shows "\<exists>m2. manager_cancel cancels i m1 u1 = (True, m2, snd (os_send cancels (fst (os_channel cancels u0)) () u1)) \<and>
    manager_cancel cancels i m2 u2 = (False, m2, u2)"
proof -
  have "i = into (fst (next_id (id_provider m)))" using manager_add_id(1) [OF assms(1)] .
  then have "sm_active_subscriptions m1 i = Some (fst (os_channel cancels u0))"
    using assms by (auto simp: manager_add_def Let_def split: prod.splits)
  then show ?thesis by (simp add: manager_cancel_def)
qed

theorem add_then_cancel_once_witness:
  "\<exists>m1 u1 m2. manager_cancel demo_receipts (SubNumber 1) m1 u1 = (True, m2, u1) \<and>
    manager_cancel demo_receipts (SubNumber 1) (m2 :: (numeric_id_provider, unit) subscription_manager) u1 = (False, m2, u1)"
proof -
  let ?sb = "typed_new \<lparr>sb_notification = ''hello'', sb_transport = (), sb_sender = \<lparr>rv_item_tx = 0, rv_receipt_rx = ()\<rparr>\<rparr>"
  let ?spawn = "\<lambda>f u. (Ok () :: (unit, unit) result, u)"
  let ?into = "\<lambda>k u. ((), u)"
  obtain m1 u1 where add: "manager_add numeric_next_id SubNumber demo_items demo_receipts ?spawn ?sb ?into
      manager_with_executor [None] = (SubNumber 1, m1, u1)"
    by (simp add: Let_def manager_add_def typed_assign_id_def assign_id_def rv_send_def typed_new_def demo_items_def
        demo_receipts_def numeric_next_id_def manager_with_executor_def manager_with_id_provider_def numeric_default_def)
  have assign: "typed_assign_id demo_items ?sb (SubNumber 1) [None] =
      (Ok \<lparr>ty_sink = \<lparr>sink_notification = ''hello'', sink_transport = ()\<rparr>, ty_id = SubNumber 1\<rparr>, [Some (Ok (SubNumber 1))])"
    by (simp add: typed_assign_id_def assign_id_def rv_send_def typed_new_def demo_items_def sb_sink_def)
  have "snd (os_send demo_receipts c () u1) = u1" for c by (simp add: demo_receipts_def)
  then show ?thesis using add_then_cancel_once [OF add assign, of u1] by auto
qed

end
