(* ===== verification/Http_Utils.thy ===== *)
theory Http_Utils
  imports Cors
begin

text \<open>
  HTTP requests and responses as the server sees them (\<open>http/src/response.rs\<close>,
  \<open>http/src/utils.rs\<close>). A header map is the list of its entries, names in lower case as
  \<open>hyper\<close> keeps them. Header values are bytes; \<open>to_str\<close> (readable text of a value) and
  \<open>from_str\<close> (a value from text) of \<open>hyper::header::HeaderValue\<close> are arguments. A request
  body is the script of what polling it gives: chunks, an error, or not yet; at the end of the
  script the body is complete.
\<close>

section \<open>Requests\<close>

datatype http_method = METHOD_POST | METHOD_OPTIONS | METHOD_GET | OtherMethod string

datatype 'e body_event = BodyChunk string | BodyErr 'e | BodyPending

type_synonym header_map = "(string \<times> string) list"

record 'e http_request =
  rq_method :: http_method
  rq_path :: string
  rq_headers :: header_map
  rq_body :: "'e body_event list"

definition headers_get :: "header_map \<Rightarrow> string \<Rightarrow> string option" where
  "headers_get hs name = map_of hs name"

definition headers_get_all :: "header_map \<Rightarrow> string \<Rightarrow> string list" where
  "headers_get_all hs name = map snd (filter (\<lambda>h. fst h = name) hs)"

definition headers_keys :: "header_map \<Rightarrow> string list" where
  "headers_keys hs = remdups (map fst hs)"

section \<open>Responses\<close>

record http_response =
  res_code :: nat
  res_content_type :: string
  res_content :: string

definition plain_text :: string where
  "plain_text = ''text/plain; charset=utf-8''"

definition newline :: string where
  "newline = [CHR 0x0A]"

definition response_ok :: "string \<Rightarrow> http_response" where
  "response_ok s = \<lparr>res_code = 200, res_content_type = ''application/json; charset=utf-8'', res_content = s\<rparr>"

definition response_empty :: http_response where
  "response_empty = response_ok []"

definition response_internal_error :: "string \<Rightarrow> http_response" where
  "response_internal_error msg =
     \<lparr>res_code = 500, res_content_type = plain_text, res_content = ''Internal Server Error: '' @ msg\<rparr>"

definition response_service_unavailable :: "string \<Rightarrow> http_response" where
  "response_service_unavailable msg =
     \<lparr>res_code = 503, res_content_type = ''application/json; charset=utf-8'', res_content = msg\<rparr>"

definition response_host_not_allowed :: http_response where
  "response_host_not_allowed =
     \<lparr>res_code = 403, res_content_type = plain_text,
      res_content = ''Provided Host header is not whitelisted.'' @ newline\<rparr>"

definition response_unsupported_content_type :: http_response where
  "response_unsupported_content_type =
     \<lparr>res_code = 415, res_content_type = plain_text,
      res_content = ''Supplied content type is not allowed. Content-Type: application/json is required'' @ newline\<rparr>"

definition response_method_not_allowed :: http_response where
  "response_method_not_allowed =
     \<lparr>res_code = 405, res_content_type = plain_text,
      res_content = ''Used HTTP Method is not allowed. POST or OPTIONS is required'' @ newline\<rparr>"

definition response_invalid_allow_origin :: http_response where
  "response_invalid_allow_origin =
     \<lparr>res_code = 403, res_content_type = plain_text,
      res_content = ''Origin of the request is not whitelisted. CORS headers would not be sent and any side-effects were cancelled as well.'' @ newline\<rparr>"

definition response_invalid_allow_headers :: http_response where
  "response_invalid_allow_headers =
     \<lparr>res_code = 403, res_content_type = plain_text,
      res_content = ''Requested headers are not allowed for CORS. CORS headers would not be sent and any side-effects were cancelled as well.'' @ newline\<rparr>"

definition response_bad_request :: "string \<Rightarrow> http_response" where
  "response_bad_request msg = \<lparr>res_code = 400, res_content_type = plain_text, res_content = msg\<rparr>"

definition response_too_large :: "string \<Rightarrow> http_response" where
  "response_too_large msg = \<lparr>res_code = 413, res_content_type = plain_text, res_content = msg\<rparr>"

definition response_closing :: http_response where
  "response_closing = \<lparr>res_code = 503, res_content_type = plain_text, res_content = ''Server is closing.''\<rparr>"

record hyper_response =
  hr_status :: nat
  hr_headers :: header_map
  hr_body :: string

definition response_into_hyper :: "http_response \<Rightarrow> hyper_response" where
  "response_into_hyper r =
     \<lparr>hr_status = res_code r, hr_headers = [(''content-type'', res_content_type r)], hr_body = res_content r\<rparr>"

section \<open>Reading request headers\<close>

definition read_header :: "(string \<Rightarrow> string option) \<Rightarrow> 'e http_request \<Rightarrow> string \<Rightarrow> string option" where
  "read_header to_str req name = Option.bind (headers_get (rq_headers req) name) to_str"

definition is_host_allowed ::
    "('g \<Rightarrow> string \<Rightarrow> bool) \<Rightarrow> (string \<Rightarrow> string option) \<Rightarrow> 'e http_request \<Rightarrow> 'g host list option \<Rightarrow> bool" where
  "is_host_allowed is_match to_str req allowed = is_host_valid is_match (read_header to_str req ''host'') allowed"

definition origin_header_value :: "(string \<Rightarrow> string option) \<Rightarrow> 'g allow_origin \<Rightarrow> string" where
  "origin_header_value from_str org =
     (case org of
        OriginValue v \<Rightarrow> (case from_str (or_as_string v) of Some h \<Rightarrow> h | None \<Rightarrow> ''null'')
      | OriginNull \<Rightarrow> ''null''
      | OriginAny \<Rightarrow> ''*'')"

definition cors_allow_origin ::
    "(string \<Rightarrow> 'g option) \<Rightarrow> ('g \<Rightarrow> string \<Rightarrow> bool) \<Rightarrow> (string \<Rightarrow> string option) \<Rightarrow> (string \<Rightarrow> string option)
     \<Rightarrow> 'e http_request \<Rightarrow> 'g allow_origin list option \<Rightarrow> string allow_cors" where
  "cors_allow_origin glob_build is_match to_str from_str req domains =
     allow_cors_map (origin_header_value from_str)
       (get_cors_allow_origin glob_build is_match (read_header to_str req ''origin'') (read_header to_str req ''host'') domains)"

definition requested_headers :: "(string \<Rightarrow> string option) \<Rightarrow> 'e http_request \<Rightarrow> string list" where
  "requested_headers to_str req =
     concat (map (split_char (CHR '',''))
       (concat (map (split_str '', '')
         (List.map_filter to_str (headers_get_all (rq_headers req) ''access-control-request-headers'')))))"

definition cors_allow_headers ::
    "(string \<Rightarrow> string option) \<Rightarrow> (string \<Rightarrow> string option) \<Rightarrow> 'e http_request \<Rightarrow> allow_headers \<Rightarrow> string list allow_cors" where
  "cors_allow_headers to_str from_str req allow =
     get_cors_allow_headers (headers_keys (rq_headers req)) (requested_headers to_str req) allow
       (\<lambda>name. case from_str name of Some h \<Rightarrow> h | None \<Rightarrow> ''unknown'')"

definition keep_alive_value :: "(string \<Rightarrow> string option) \<Rightarrow> 'e http_request \<Rightarrow> bool \<Rightarrow> bool" where
  "keep_alive_value to_str req keep_alive =
     (case read_header to_str req ''connection'' of
        None \<Rightarrow> keep_alive
      | Some v \<Rightarrow> keep_alive \<and> v \<noteq> ''close'')"

section \<open>Lemmas\<close>

lemma allow_cors_map_Invalid [simp]: "allow_cors_map f c = CorsInvalid \<longleftrightarrow> c = CorsInvalid"
  by (cases c) simp_all

end
