(* ===== verification/Http_Handler.thy ===== *)
theory Http_Handler
  imports Http_Utils Stream_Codec Core_Handler
begin

text \<open>
  The HTTP request handler (\<open>http/src/handler.rs\<close>, and the request middleware, \<open>Rpc\<close> and
  \<open>RestApi\<close> of \<open>http/src/lib.rs\<close>): the service's \<open>call\<close>, the state machine of
  \<open>RpcHandler::poll\<close> with its body reader, and the response headers.

  What lies outside the repository is the record \<open>http_ops\<close>: the glob engine, header value
  conversions, JSON text, debug text, and \<open>upgrade\<close>, which tells from the world whether the
  server is still there. A pending future (of the RPC handler) is ready when the executor says
  so: the argument \<open>ready\<close> of a poll.
\<close>

section \<open>Configuration and environment\<close>

datatype rest_api = RestSecure | RestUnsecure | RestDisabled

record ('n, 'm, 'w, 'e) rpc =
  rpc_handler :: "('n, 'm, 'w) meta_io_handler"
  rpc_extractor :: "'e http_request \<Rightarrow> 'w \<Rightarrow> 'm \<times> 'w"

record ('n, 'm, 'w, 'g, 'e, 'x) http_ops =
  op_glob_build :: "string \<Rightarrow> 'g option"
  op_is_match :: "'g \<Rightarrow> string \<Rightarrow> bool"
  op_to_str :: "string \<Rightarrow> string option"
  op_from_str :: "string \<Rightarrow> string option"
  op_upgrade :: "'w \<Rightarrow> ('n, 'm, 'w, 'e) rpc option"
  op_read_request :: "string \<Rightarrow> ('n request, 'x) result"
  op_read_value :: "string \<Rightarrow> ('n json, 'x) result"
  op_response_text :: "'n response \<Rightarrow> string"
  op_value_text :: "'n json \<Rightarrow> string"
  op_error_text :: "'n rpc_error \<Rightarrow> string"
  op_debug :: "'n response option \<Rightarrow> string"
  op_sched :: "nat list"

text \<open>What a request middleware may decide.\<close>

datatype ('w, 'e) middleware_action =
    Proceed bool "'e http_request"
  | Respond bool "('w, (hyper_response, 'e) result) fut"

definition action_of_response :: "http_response \<Rightarrow> ('w, 'e) middleware_action" where
  "action_of_response r = Respond True (fut_ready (Ok (response_into_hyper r)))"

definition action_of_hyper :: "hyper_response \<Rightarrow> ('w, 'e) middleware_action" where
  "action_of_hyper r = Respond True (fut_ready (Ok r))"

definition action_of_request :: "'e http_request \<Rightarrow> ('w, 'e) middleware_action" where
  "action_of_request req = Proceed False req"

definition noop_request_middleware :: "'e http_request \<Rightarrow> 'w \<Rightarrow> ('w, 'e) middleware_action \<times> 'w" where
  "noop_request_middleware req w = (Proceed False req, w)"

record ('w, 'g, 'e) server_handler =
  sh_allowed_hosts :: "'g host list option"
  sh_cors_domains :: "'g allow_origin list option"
  sh_cors_max_age :: "u32 option"
  sh_cors_allowed_headers :: allow_headers
  sh_middleware :: "'e http_request \<Rightarrow> 'w \<Rightarrow> ('w, 'e) middleware_action \<times> 'w"
  sh_rest_api :: rest_api
  sh_health_api :: "(string \<times> string) option"
  sh_max_request_body_size :: nat
  sh_keep_alive :: bool

section \<open>The request state machine\<close>

datatype ('m, 'w, 'g, 'e) rpc_state =
    ReadingHeaders "'e http_request" "'g allow_origin list option" allow_headers bool bool
  | ReadingBody "'e body_event list" "string option" string 'm
  | ProcessRest string 'm
  | ProcessHealth string 'm
  | Writing http_response
  | Waiting "('w, string option) fut"
  | WaitingForResponse "('w, http_response) fut"
  | Done

record ('m, 'w, 'g, 'e) rpc_handler_state =
  rh_state :: "('m, 'w, 'g, 'e) rpc_state"
  rh_is_options :: bool
  rh_cors_allow_origin :: "string allow_cors"
  rh_cors_allow_headers :: "string list allow_cors"
  rh_cors_max_age :: "u32 option"
  rh_rest_api :: rest_api
  rh_health_api :: "(string \<times> string) option"
  rh_max_request_body_size :: nat
  rh_keep_alive :: bool

datatype ('m, 'w, 'g, 'e) http_handler =
    HandlerRpc "('m, 'w, 'g, 'e) rpc_handler_state"
  | HandlerErr "http_response option"
  | HandlerMiddleware "('w, (hyper_response, 'e) result) fut"

definition service_call ::
    "('n, 'm, 'w, 'g, 'e, 'x) http_ops \<Rightarrow> ('w, 'g, 'e) server_handler \<Rightarrow> 'e http_request \<Rightarrow> 'w
     \<Rightarrow> ('m, 'w, 'g, 'e) http_handler \<times> 'w" where
  "service_call ops sh req w =
     (let host_ok = is_host_allowed (op_is_match ops) (op_to_str ops) req (sh_allowed_hosts sh);
          (action, w') = sh_middleware sh req w;
          (validate, continue_cors, resp) =
            (case action of
               Proceed c req' \<Rightarrow> (True, c, Err req')
             | Respond v r \<Rightarrow> (v, False, Ok r))
      in if validate \<and> \<not> host_ok then (HandlerErr (Some response_host_not_allowed), w')
         else
           (case resp of
              Ok r \<Rightarrow> (HandlerMiddleware r, w')
            | Err req' \<Rightarrow>
                (HandlerRpc
                  \<lparr>rh_state = ReadingHeaders req' (sh_cors_domains sh) (sh_cors_allowed_headers sh) continue_cors (sh_keep_alive sh),
                   rh_is_options = False, rh_cors_allow_origin = CorsNotRequired, rh_cors_allow_headers = CorsNotRequired,
                   rh_cors_max_age = sh_cors_max_age sh, rh_rest_api = sh_rest_api sh, rh_health_api = sh_health_api sh,
                   rh_max_request_body_size = sh_max_request_body_size sh, rh_keep_alive = True\<rparr>, w')))"

definition is_json :: "(string \<Rightarrow> string option) \<Rightarrow> string option \<Rightarrow> bool" where
  "is_json to_str content_type =
     (case Option.bind content_type to_str of
        None \<Rightarrow> False
      | Some c \<Rightarrow> eq_ignore_ascii_case c ''application/json'' \<or>
          eq_ignore_ascii_case c ''application/json; charset=utf-8'' \<or>
          eq_ignore_ascii_case c ''application/json;charset=utf-8'')"

definition read_headers ::
    "('n, 'm, 'w, 'g, 'e, 'x) http_ops \<Rightarrow> ('m, 'w, 'g, 'e) rpc_handler_state \<Rightarrow> 'e http_request \<Rightarrow> bool \<Rightarrow> 'w
     \<Rightarrow> ('m, 'w, 'g, 'e) rpc_state \<times> 'w" where
  "read_headers ops h req continue_on_invalid_cors w =
     (if rh_cors_allow_origin h = CorsInvalid \<and> \<not> continue_on_invalid_cors then (Writing response_invalid_allow_origin, w)
      else if rh_cors_allow_headers h = CorsInvalid \<and> \<not> continue_on_invalid_cors then (Writing response_invalid_allow_headers, w)
      else
        (case op_upgrade ops w of
           None \<Rightarrow> (Writing response_closing, w)
         | Some rpc \<Rightarrow>
             (case rpc_extractor rpc req w of
                (metadata, w') \<Rightarrow>
                  (case rq_method req of
                     METHOD_POST \<Rightarrow>
                       if is_json (op_to_str ops) (headers_get (rq_headers req) ''content-type'') then
                         ReadingBody (rq_body req) (if rh_rest_api h \<noteq> RestDisabled then Some (rq_path req) else None) [] metadata
                       else if rh_rest_api h = RestUnsecure \<and> length (split_char (CHR ''/'') (rq_path req)) > 2 then
                         ProcessRest (rq_path req) metadata
                       else Writing response_unsupported_content_type
                   | METHOD_OPTIONS \<Rightarrow> Writing response_empty
                   | METHOD_GET \<Rightarrow>
                       (case rh_health_api h of
                          Some (path, name) \<Rightarrow>
                            if path = rq_path req then ProcessHealth name metadata else Writing response_method_not_allowed
                        | None \<Rightarrow> Writing response_method_not_allowed)
                   | OtherMethod _ \<Rightarrow> Writing response_method_not_allowed, w'))))"

definition health_response ::
    "('n, 'm, 'w, 'g, 'e, 'x) http_ops \<Rightarrow> 'n response option \<Rightarrow> http_response" where
  "health_response ops r =
     (case r of
        Some (SingleResponse (Success s)) \<Rightarrow> response_ok (op_value_text ops (su_result s))
      | Some (SingleResponse (Failure f)) \<Rightarrow> response_service_unavailable (op_error_text ops (fa_error f))
      | e \<Rightarrow> response_internal_error (''Invalid response for health request: '' @ op_debug ops e))"

definition process_health ::
    "('n, 'm, 'w, 'g, 'e, 'x) http_ops \<Rightarrow> string \<Rightarrow> 'm \<Rightarrow> 'w \<Rightarrow> ('m, 'w, 'g, 'e) rpc_state \<times> 'w" where
  "process_health ops name metadata w =
     (let call = SingleRequest (MethodCall
            \<lparr>mc_jsonrpc = Some V2, mc_method = name, mc_params = ParamsNone, mc_id = IdNum 1\<rparr>)
      in case op_upgrade ops w of
           None \<Rightarrow> (Writing response_closing, w)
         | Some rpc \<Rightarrow>
             (case handle_rpc_request (op_sched ops) (rpc_handler rpc) call metadata w of
                (f, w') \<Rightarrow> (WaitingForResponse (fut_map (health_response ops) f), w')))"

definition rest_param :: "('n, 'm, 'w, 'g, 'e, 'x) http_ops \<Rightarrow> string \<Rightarrow> 'n json" where
  "rest_param ops p =
     (case op_read_value ops p of
        Ok v \<Rightarrow> v
      | Err _ \<Rightarrow> (case op_read_value ops ([CHR 0x22] @ p @ [CHR 0x22]) of Ok v \<Rightarrow> v | Err _ \<Rightarrow> VNull))"

definition process_rest ::
    "('n, 'm, 'w, 'g, 'e, 'x) http_ops \<Rightarrow> string \<Rightarrow> 'm \<Rightarrow> 'w \<Rightarrow> ('m, 'w, 'g, 'e) rpc_state \<times> 'w" where
  "process_rest ops path metadata w =
     (let it = drop 1 (split_char (CHR ''/'') path);
          name = (case it of [] \<Rightarrow> [] | m # _ \<Rightarrow> m);
          params = map (rest_param ops) (drop 1 it);
          call = SingleRequest (MethodCall
            \<lparr>mc_jsonrpc = Some V2, mc_method = name, mc_params = ParamsArray params, mc_id = IdNum 1\<rparr>)
      in case op_upgrade ops w of
           None \<Rightarrow> (Writing response_closing, w)
         | Some rpc \<Rightarrow>
             (case handle_rpc_request (op_sched ops) (rpc_handler rpc) call metadata w of
                (f, w') \<Rightarrow> (Waiting (fut_map (map_option (op_response_text ops)) f), w')))"

datatype 'e body_error = BodyHyper 'e | BodyUtf8 nat | BodyTooLarge

text \<open>\<open>Utf8Error::valid_up_to\<close>: the length of the longest valid prefix.\<close>

definition valid_up_to :: "string \<Rightarrow> nat" where
  "valid_up_to s = last (filter (\<lambda>n. utf8_valid (take n s)) [0..<Suc (length s)])"

definition exceeds_limit :: "nat \<Rightarrow> nat \<Rightarrow> nat \<Rightarrow> bool" where
  "exceeds_limit limit len chunk_len = (if len + chunk_len < 2 ^ 64 then len + chunk_len > limit else True)"

text \<open>The result is an error, or a state with the flag of \<open>RpcPollState::Ready\<close>.\<close>

definition body_complete ::
    "('n, 'm, 'w, 'g, 'e, 'x) http_ops \<Rightarrow> string \<Rightarrow> string option \<Rightarrow> 'm \<Rightarrow> 'w
     \<Rightarrow> (('m, 'w, 'g, 'e) rpc_state \<times> bool, 'e body_error) result \<times> 'w" where
  "body_complete ops request uri metadata w =
     (if uri \<noteq> None \<and> request = [] then (Ok (ProcessRest (the uri) metadata, True), w)
      else if \<not> utf8_valid request then (Err (BodyUtf8 (valid_up_to request)), w)
      else
        (case op_upgrade ops w of
           None \<Rightarrow> (Ok (Writing response_closing, True), w)
         | Some rpc \<Rightarrow>
             (case handle_request (op_read_request ops) (op_response_text ops) (op_sched ops) (rpc_handler rpc) request metadata w of
                (f, w') \<Rightarrow> (Ok (Waiting f, True), w'))))"

fun process_body ::
    "('n, 'm, 'w, 'g, 'e, 'x) http_ops \<Rightarrow> nat \<Rightarrow> 'e body_event list \<Rightarrow> string \<Rightarrow> string option \<Rightarrow> 'm \<Rightarrow> 'w
     \<Rightarrow> (('m, 'w, 'g, 'e) rpc_state \<times> bool, 'e body_error) result \<times> 'w" where
  "process_body ops limit (BodyChunk c # body) request uri metadata w =
     (if exceeds_limit limit (length request) (length c) then (Err BodyTooLarge, w)
      else process_body ops limit body (request @ c) uri metadata w)"
| "process_body ops limit (BodyErr e # body) request uri metadata w = (Err (BodyHyper e), w)"
| "process_body ops limit (BodyPending # body) request uri metadata w =
     (Ok (ReadingBody body uri request metadata, False), w)"
| "process_body ops limit [] request uri metadata w = body_complete ops request uri metadata w"

section \<open>Polling\<close>

text \<open>A poll of a pending future: when the executor says it is ready, it is run to its end.\<close>

definition poll_fut :: "bool \<Rightarrow> ('w, 'a) fut \<Rightarrow> 'w \<Rightarrow> ('a \<times> 'w) option" where
  "poll_fut ready f w = (if ready then f w else None)"

text \<open>The match of \<open>poll\<close>: the handler with its headers read, and the next state with the flag
  of \<open>RpcPollState::Ready\<close>, or the error that is returned at once.\<close>

definition body_error_response :: "'e body_error \<Rightarrow> http_response" where
  "body_error_response e =
     (case e of
        BodyUtf8 n \<Rightarrow> response_bad_request (''utf-8 encoding error at byte '' @ dec_of_nat n @ '' in request body'')
      | _ \<Rightarrow> response_too_large ''request body size exceeds allowed maximum'')"

definition rpc_step ::
    "('n, 'm, 'w, 'g, 'e, 'x) http_ops \<Rightarrow> bool \<Rightarrow> ('m, 'w, 'g, 'e) rpc_handler_state \<Rightarrow> 'w
     \<Rightarrow> (('m, 'w, 'g, 'e) rpc_state \<times> bool, 'e) result \<times> ('m, 'w, 'g, 'e) rpc_handler_state \<times> 'w" where
  "rpc_step ops ready h w =
     (case rh_state h of
        ReadingHeaders req domains allow continue_cors keep_alive \<Rightarrow>
          (let h = h\<lparr>rh_cors_allow_origin := cors_allow_origin (op_glob_build ops) (op_is_match ops) (op_to_str ops) (op_from_str ops) req domains,
                     rh_cors_allow_headers := cors_allow_headers (op_to_str ops) (op_from_str ops) req allow,
                     rh_keep_alive := keep_alive_value (op_to_str ops) req keep_alive,
                     rh_is_options := (rq_method req = METHOD_OPTIONS)\<rparr>
           in case read_headers ops h req continue_cors w of (s, w') \<Rightarrow> (Ok (s, True), h, w'))
      | ReadingBody body uri request metadata \<Rightarrow>
          (case process_body ops (rh_max_request_body_size h) body request uri metadata w of
             (Err (BodyHyper e), w') \<Rightarrow> (Err e, h, w')
           | (Err e, w') \<Rightarrow> (Ok (Writing (body_error_response e), True), h, w')
           | (Ok s, w') \<Rightarrow> (Ok s, h, w'))
      | ProcessRest path metadata \<Rightarrow> (case process_rest ops path metadata w of (s, w') \<Rightarrow> (Ok (s, True), h, w'))
      | ProcessHealth name metadata \<Rightarrow> (case process_health ops name metadata w of (s, w') \<Rightarrow> (Ok (s, True), h, w'))
      | WaitingForResponse f \<Rightarrow>
          (case poll_fut ready f w of
             Some (r, w') \<Rightarrow> (Ok (Writing r, True), h, w')
           | None \<Rightarrow> (Ok (WaitingForResponse f, False), h, w))
      | Waiting f \<Rightarrow>
          (case poll_fut ready f w of
             Some (r, w') \<Rightarrow>
               (Ok (Writing (case r of None \<Rightarrow> response_ok [] | Some t \<Rightarrow> response_ok (t @ newline)), True), h, w')
           | None \<Rightarrow> (Ok (Waiting f, False), h, w))
      | s \<Rightarrow> (Ok (s, False), h, w))"

text \<open>The joined header values: every value followed by the separator, the last two bytes cut.\<close>

definition concat_values :: "string list \<Rightarrow> string" where
  "concat_values vs =
     (let val = concat (map (\<lambda>v. v @ '', '') vs) in take (if val = [] then 0 else length val - 2) val)"

definition set_response_headers ::
    "header_map \<Rightarrow> bool \<Rightarrow> u32 option \<Rightarrow> string option \<Rightarrow> string list option \<Rightarrow> bool \<Rightarrow> header_map" where
  "set_response_headers hs is_options max_age allow_org allow_hdrs keep_alive =
     (let allowed = concat_values [''OPTIONS'', ''POST'']
      in hs
       @ (if is_options then [(''allow'', allowed), (''accept'', ''application/json'')] else [])
       @ (case allow_org of
            None \<Rightarrow> []
          | Some org \<Rightarrow>
              [(''vary'', ''origin''), (''access-control-allow-methods'', allowed), (''access-control-allow-origin'', org)]
              @ (case max_age of None \<Rightarrow> [] | Some n \<Rightarrow> [(''access-control-max-age'', dec_of_nat (unat n))])
              @ (case allow_hdrs of
                   None \<Rightarrow> []
                 | Some l \<Rightarrow> if l = [] then [] else [(''access-control-allow-headers'', concat_values l)]))
       @ (if keep_alive then [] else [(''connection'', ''close'')]))"

definition finish :: "('m, 'w, 'g, 'e) rpc_handler_state \<Rightarrow> http_response \<Rightarrow> hyper_response" where
  "finish h res =
     (let r = response_into_hyper res
      in r\<lparr>hr_headers := set_response_headers (hr_headers r) (rh_is_options h) (rh_cors_max_age h)
            (allow_cors_into (rh_cors_allow_origin h)) (allow_cors_into (rh_cors_allow_headers h)) (rh_keep_alive h)\<rparr>)"

fun state_rank :: "('m, 'w, 'g, 'e) rpc_state \<Rightarrow> nat" where
  "state_rank (ReadingHeaders _ _ _ _ _) = 4"
| "state_rank (ReadingBody _ _ _ _) = 3"
| "state_rank (ProcessRest _ _) = 2"
| "state_rank (ProcessHealth _ _) = 2"
| "state_rank (Waiting _) = 1"
| "state_rank (WaitingForResponse _) = 1"
| "state_rank (Writing _) = 0"
| "state_rank Done = 0"

lemma body_complete_rank: "body_complete ops request uri metadata w = (Ok (s, True), w') \<Longrightarrow> state_rank s < 3"
  by (auto simp: body_complete_def split: if_splits option.splits prod.splits)

lemma process_body_rank:
  "process_body ops limit body request uri metadata w = (Ok (s, True), w') \<Longrightarrow> state_rank s < 3"
proof (induction body arbitrary: request)
  case Nil
  then show ?case by (simp add: body_complete_rank)
next
  case (Cons ev body)
  then show ?case by (cases ev) (auto split: if_splits)
qed

lemma process_rest_rank: "process_rest ops path metadata w = (s, w') \<Longrightarrow> state_rank s < 2"
  by (auto simp: process_rest_def Let_def split: option.splits prod.splits)

lemma process_health_rank: "process_health ops name metadata w = (s, w') \<Longrightarrow> state_rank s < 2"
  by (auto simp: process_health_def Let_def split: option.splits prod.splits)

lemma read_headers_rank: "read_headers ops h req c w = (s, w') \<Longrightarrow> state_rank s < 4"
proof (cases "op_upgrade ops w")
  case (Some rpc)
  then show "read_headers ops h req c w = (s, w') \<Longrightarrow> state_rank s < 4"
    by (cases "rq_method req"; cases "rh_health_api h") (auto simp: read_headers_def case_prod_beta split: if_splits)
qed (auto simp: read_headers_def split: if_splits)

text \<open>A step that makes progress leads to a later stage; this is why the recursion of \<open>poll\<close> ends.\<close>

lemma rpc_step_rank:
  assumes "rpc_step ops ready h w = (Ok (s, True), h', w')"
  shows "state_rank s < state_rank (rh_state h)"
proof (cases "rh_state h")
  case (ReadingHeaders req domains allow c k)
  then show ?thesis using assms by (auto simp: rpc_step_def Let_def split: prod.splits dest: read_headers_rank)
next
  case (ReadingBody body uri request metadata)
  then show ?thesis
    using assms process_body_rank [of ops "rh_max_request_body_size h" body request uri metadata w s]
    by (auto simp: rpc_step_def split: prod.splits result.splits body_error.splits)
next
  case (ProcessRest path metadata)
  then show ?thesis
    using assms process_rest_rank [of ops path metadata w] by (auto simp: rpc_step_def split: prod.splits)
next
  case (ProcessHealth name metadata)
  then show ?thesis
    using assms process_health_rank [of ops name metadata w] by (auto simp: rpc_step_def split: prod.splits)
qed (use assms in \<open>auto simp: rpc_step_def split: option.splits prod.splits\<close>)

lemma rpc_step_rank':
  "(Ok (s, True), h', w') = rpc_step ops ready h w \<Longrightarrow> state_rank s < state_rank (rh_state h)"
  by (rule rpc_step_rank) (rule sym)

function rpc_poll ::
    "('n, 'm, 'w, 'g, 'e, 'x) http_ops \<Rightarrow> bool \<Rightarrow> ('m, 'w, 'g, 'e) rpc_handler_state \<Rightarrow> 'w
     \<Rightarrow> (hyper_response, 'e) result poll \<times> ('m, 'w, 'g, 'e) rpc_handler_state \<times> 'w" where
  "rpc_poll ops ready h w =
     (case rpc_step ops ready h w of
        (Err e, h', w') \<Rightarrow> (Ready (Err e), h'\<lparr>rh_state := Done\<rparr>, w')
      | (Ok (Writing res, _), h', w') \<Rightarrow>
          (Ready (Ok (finish h' res)),
           h'\<lparr>rh_state := Done, rh_cors_allow_origin := CorsInvalid, rh_cors_allow_headers := CorsInvalid\<rparr>, w')
      | (Ok (s, True), h', w') \<Rightarrow> rpc_poll ops ready (h'\<lparr>rh_state := s\<rparr>) w'
      | (Ok (s, False), h', w') \<Rightarrow> (Pending, h'\<lparr>rh_state := s\<rparr>, w'))"
  by pat_completeness auto
termination
  by (relation "measure (\<lambda>(ops, ready, h, w). state_rank (rh_state h))") (auto dest!: rpc_step_rank')

declare rpc_poll.simps [simp del]

fun handler_poll ::
    "('n, 'm, 'w, 'g, 'e, 'x) http_ops \<Rightarrow> bool \<Rightarrow> ('m, 'w, 'g, 'e) http_handler \<Rightarrow> 'w
     \<Rightarrow> (hyper_response, 'e) result poll \<times> ('m, 'w, 'g, 'e) http_handler \<times> 'w" where
  "handler_poll ops ready (HandlerRpc h) w = (case rpc_poll ops ready h w of (p, h', w') \<Rightarrow> (p, HandlerRpc h', w'))"
| "handler_poll ops ready (HandlerMiddleware f) w =
     (case poll_fut ready f w of
        Some (r, w') \<Rightarrow> (Ready r, HandlerMiddleware f, w')
      | None \<Rightarrow> (Pending, HandlerMiddleware f, w))"
| "handler_poll ops ready (HandlerErr r) w = (Ready (Ok (response_into_hyper (the r))), HandlerErr None, w)"

section \<open>Guards\<close>

text \<open>A concrete server for the witnesses: one method, every header value readable.\<close>

definition demo_ops :: "(nat, unit, nat, unit, unit, unit) http_ops" where
  "demo_ops =
     \<lparr>op_glob_build = (\<lambda>_. None), op_is_match = (\<lambda>_ _. False), op_to_str = Some, op_from_str = Some,
      op_upgrade = (\<lambda>_. Some \<lparr>rpc_handler = say_handler, rpc_extractor = (\<lambda>_ w. ((), w))\<rparr>),
      op_read_request = (\<lambda>s. if s = ''say'' then Ok (SingleRequest say_call) else Err ()),
      op_read_value = (\<lambda>_. Err ()), op_response_text = (\<lambda>_. ''hello''), op_value_text = (\<lambda>_. []),
      op_error_text = (\<lambda>_. []), op_debug = (\<lambda>_. []), op_sched = []\<rparr>"

definition demo_server :: "(nat, unit, unit) server_handler" where
  "demo_server =
     \<lparr>sh_allowed_hosts = Some [], sh_cors_domains = Some [], sh_cors_max_age = None, sh_cors_allowed_headers = HeadersAny,
      sh_middleware = noop_request_middleware, sh_rest_api = RestDisabled, sh_health_api = None,
      sh_max_request_body_size = 4, sh_keep_alive = True\<rparr>"

definition demo_request :: "header_map \<Rightarrow> unit body_event list \<Rightarrow> unit http_request" where
  "demo_request hs body = \<lparr>rq_method = METHOD_POST, rq_path = ''/'', rq_headers = hs, rq_body = body\<rparr>"

definition demo_handler :: "(unit, nat, unit, unit) rpc_state \<Rightarrow> (unit, nat, unit, unit) rpc_handler_state" where
  "demo_handler st =
     \<lparr>rh_state = st, rh_is_options = False, rh_cors_allow_origin = CorsNotRequired, rh_cors_allow_headers = CorsNotRequired,
      rh_cors_max_age = None, rh_rest_api = RestDisabled, rh_health_api = None, rh_max_request_body_size = 4, rh_keep_alive = True\<rparr>"

text \<open>C35: a request whose \<open>Host\<close> header is not on the list is answered with 403 and reaches neither
  the RPC handler nor the response of the request middleware, unless that middleware answers
  itself and asks for no host validation; nothing runs after the middleware's own decision.\<close>

theorem disallowed_host_forbidden:
  assumes "\<not> is_host_allowed (op_is_match ops) (op_to_str ops) req (sh_allowed_hosts sh)"
    and "sh_middleware sh req w = (action, w1)"
    and "case action of Proceed _ _ \<Rightarrow> True | Respond validate _ \<Rightarrow> validate"
  shows "(case service_call ops sh req w of (h, w') \<Rightarrow> handler_poll ops ready h w') =
    (Ready (Ok (response_into_hyper response_host_not_allowed)), HandlerErr None, w1)"
  using assms by (cases action) (simp_all add: service_call_def)

theorem disallowed_host_forbidden_witness:
  "(case service_call demo_ops demo_server (demo_request [(''host'', ''evil.com'')] []) 0 of
      (h, w') \<Rightarrow> handler_poll demo_ops True h w') =
    (Ready (Ok (response_into_hyper response_host_not_allowed)), HandlerErr None, 0)"
  by (rule disallowed_host_forbidden [where action = "Proceed False (demo_request [(''host'', ''evil.com'')] [])"])
    (simp_all add: demo_ops_def demo_server_def demo_request_def is_host_allowed_def read_header_def headers_get_def
      noop_request_middleware_def)

lemma rpc_poll_write:
  assumes "rpc_step ops ready h w = (Ok (Writing res, b), h', w')"
  shows "rpc_poll ops ready h w = (Ready (Ok (finish h' res)),
    h'\<lparr>rh_state := Done, rh_cors_allow_origin := CorsInvalid, rh_cors_allow_headers := CorsInvalid\<rparr>, w')"
  using assms by (subst rpc_poll.simps, cases b) simp_all

lemma rpc_poll_advance:
  assumes "rpc_step ops ready h w = (Ok (s, True), h', w')" and "\<And>r. s \<noteq> Writing r"
  shows "rpc_poll ops ready h w = rpc_poll ops ready (h'\<lparr>rh_state := s\<rparr>) w'"
  using assms by (subst rpc_poll.simps, cases s) auto

text \<open>The handler after the headers were read.\<close>

definition headers_read ::
    "('n, 'm, 'w, 'g, 'e, 'x) http_ops \<Rightarrow> ('m, 'w, 'g, 'e) rpc_handler_state \<Rightarrow> 'e http_request
     \<Rightarrow> 'g allow_origin list option \<Rightarrow> allow_headers \<Rightarrow> bool \<Rightarrow> ('m, 'w, 'g, 'e) rpc_handler_state" where
  "headers_read ops h req domains allow keep_alive =
     h\<lparr>rh_cors_allow_origin := cors_allow_origin (op_glob_build ops) (op_is_match ops) (op_to_str ops) (op_from_str ops) req domains,
       rh_cors_allow_headers := cors_allow_headers (op_to_str ops) (op_from_str ops) req allow,
       rh_keep_alive := keep_alive_value (op_to_str ops) req keep_alive,
       rh_is_options := (rq_method req = METHOD_OPTIONS)\<rparr>"

lemma rpc_step_headers:
  "rh_state h = ReadingHeaders req domains allow c ka \<Longrightarrow>
   read_headers ops (headers_read ops h req domains allow ka) req c w = (s, w') \<Longrightarrow>
   rpc_step ops ready h w = (Ok (s, True), headers_read ops h req domains allow ka, w')"
  by (simp add: rpc_step_def headers_read_def Let_def)

lemma finish_fields:
  "hr_status (finish h res) = res_code res" "hr_body (finish h res) = res_content res"
  by (simp_all add: finish_def response_into_hyper_def)

lemma no_cors_header:
  assumes "rh_cors_allow_origin h = CorsInvalid"
  shows "headers_get (hr_headers (finish h res)) ''access-control-allow-origin'' = None"
  using assms by (simp add: finish_def response_into_hyper_def set_response_headers_def headers_get_def Let_def)

text \<open>C11: side effects are stopped before they happen: when the origin of a request, or a header
  it carries or asks for, is not allowed (and the request middleware did not insist), the
  first poll answers 403, the world is untouched, so neither metadata extraction nor a
  procedure has run, and a refused origin gets no \<open>access-control-allow-origin\<close> header.\<close>

theorem invalid_cors_forbidden:
  assumes "rh_state h = ReadingHeaders req domains allow False ka"
    and "cors_allow_origin (op_glob_build ops) (op_is_match ops) (op_to_str ops) (op_from_str ops) req domains = CorsInvalid
      \<or> cors_allow_headers (op_to_str ops) (op_from_str ops) req allow = CorsInvalid"
  shows "\<exists>r h'. rpc_poll ops ready h w = (Ready (Ok r), h', w) \<and> hr_status r = 403 \<and>
    (cors_allow_origin (op_glob_build ops) (op_is_match ops) (op_to_str ops) (op_from_str ops) req domains = CorsInvalid \<longrightarrow>
      headers_get (hr_headers r) ''access-control-allow-origin'' = None)"
proof -
  let ?h = "headers_read ops h req domains allow ka"
  have "rh_cors_allow_origin ?h = CorsInvalid \<or> rh_cors_allow_headers ?h = CorsInvalid"
    using assms(2) by (simp add: headers_read_def)
  then have "read_headers ops ?h req False w \<in> {(Writing response_invalid_allow_origin, w), (Writing response_invalid_allow_headers, w)}"
    by (auto simp: read_headers_def)
  then obtain res where res: "read_headers ops ?h req False w = (Writing res, w)" "res_code res = 403"
    by (auto simp: response_invalid_allow_origin_def response_invalid_allow_headers_def)
  from rpc_poll_write [OF rpc_step_headers [OF assms(1) res(1)]] show ?thesis
    using res(2) no_cors_header [of ?h res] by (auto simp: finish_fields headers_read_def)
qed

theorem invalid_cors_forbidden_witness:
  "\<exists>r h'. rpc_poll demo_ops True (demo_handler (ReadingHeaders (demo_request [(''origin'', ''null'')] []) (Some []) HeadersAny False True)) 7
    = (Ready (Ok r), h', 7) \<and> hr_status r = 403"
proof -
  have "cors_allow_origin (op_glob_build demo_ops) (op_is_match demo_ops) (op_to_str demo_ops) (op_from_str demo_ops)
      (demo_request [(''origin'', ''null'')] []) (Some []) = CorsInvalid"
    by (simp add: demo_ops_def demo_request_def cors_allow_origin_def read_header_def headers_get_def
        get_cors_allow_origin_def same_server_def)
  then show ?thesis
    using invalid_cors_forbidden [of "demo_handler (ReadingHeaders (demo_request [(''origin'', ''null'')] []) (Some []) HeadersAny False True)"
        "demo_request [(''origin'', ''null'')] []" "Some []" HeadersAny True demo_ops True 7]
    by (auto simp: demo_handler_def)
qed

text \<open>C36: a cross-site form cannot reach the RPC handler. A POST request without a JSON content type, on a
  server whose REST converter is not \<open>Unsecure\<close>, is answered at the first poll: 403 when its origin or one of its headers is not
  allowed, 503 when the server is closing, and 415 otherwise. No method and no notification runs; in the last case the
  metadata extractor has run, in the other two nothing has.\<close>

theorem non_json_post_unsupported:
  assumes "rh_state h = ReadingHeaders req domains allow c ka" and "rq_method req = METHOD_POST"
    and "\<not> is_json (op_to_str ops) (headers_get (rq_headers req) ''content-type'')" and "rh_rest_api h \<noteq> RestUnsecure"
  shows "\<exists>r h' w'. rpc_poll ops ready h w = (Ready (Ok r), h', w') \<and>
    (if \<not> c \<and> (cors_allow_origin (op_glob_build ops) (op_is_match ops) (op_to_str ops) (op_from_str ops) req domains = CorsInvalid
        \<or> cors_allow_headers (op_to_str ops) (op_from_str ops) req allow = CorsInvalid)
     then hr_status r = 403 \<and> w' = w
     else case op_upgrade ops w of
            None \<Rightarrow> hr_status r = 503 \<and> w' = w
          | Some rpc \<Rightarrow> hr_status r = 415 \<and> w' = snd (rpc_extractor rpc req w))"
proof -
  let ?h = "headers_read ops h req domains allow ka"
  have h: "rh_rest_api ?h = rh_rest_api h"
    "rh_cors_allow_origin ?h = cors_allow_origin (op_glob_build ops) (op_is_match ops) (op_to_str ops) (op_from_str ops) req domains"
    "rh_cors_allow_headers ?h = cors_allow_headers (op_to_str ops) (op_from_str ops) req allow" by (simp_all add: headers_read_def)
  have "\<exists>res w'. read_headers ops ?h req c w = (Writing res, w') \<and>
     (if \<not> c \<and> (rh_cors_allow_origin ?h = CorsInvalid \<or> rh_cors_allow_headers ?h = CorsInvalid) then res_code res = 403 \<and> w' = w
      else case op_upgrade ops w of None \<Rightarrow> res_code res = 503 \<and> w' = w
        | Some rpc \<Rightarrow> res_code res = 415 \<and> w' = snd (rpc_extractor rpc req w))"
    using assms(2-4) h(1)
    by (cases "op_upgrade ops w") (auto simp: read_headers_def case_prod_beta response_invalid_allow_origin_def response_invalid_allow_headers_def
        response_unsupported_content_type_def response_closing_def split: if_splits)
  then obtain res w' where res: "read_headers ops ?h req c w = (Writing res, w')"
    and "if \<not> c \<and> (rh_cors_allow_origin ?h = CorsInvalid \<or> rh_cors_allow_headers ?h = CorsInvalid) then res_code res = 403 \<and> w' = w
      else case op_upgrade ops w of None \<Rightarrow> res_code res = 503 \<and> w' = w
        | Some rpc \<Rightarrow> res_code res = 415 \<and> w' = snd (rpc_extractor rpc req w)" by blast
  with rpc_poll_write [OF rpc_step_headers [OF assms(1) res]] show ?thesis
    unfolding h by (auto simp: finish_fields split: option.splits if_splits)
qed

theorem non_json_post_unsupported_witness:
  "\<exists>r h'. rpc_poll demo_ops True (demo_handler (ReadingHeaders (demo_request [(''content-type'', ''text/plain'')] [BodyChunk ''say'']) None HeadersAny False True)) 7
    = (Ready (Ok r), h', 7) \<and> hr_status r = 415"
  using non_json_post_unsupported [of "demo_handler (ReadingHeaders (demo_request [(''content-type'', ''text/plain'')] [BodyChunk ''say'']) None HeadersAny False True)"
        "demo_request [(''content-type'', ''text/plain'')] [BodyChunk ''say'']" None HeadersAny False True demo_ops True 7]
  by (auto simp: demo_handler_def demo_request_def demo_ops_def is_json_def headers_get_def eq_ignore_ascii_case_def
      to_lowercase_def lower_char_def cors_allow_origin_def cors_allow_headers_def read_header_def get_cors_allow_origin_def
      get_cors_allow_headers_def requested_headers_def headers_get_all_def map_filter_simps)

section \<open>The body\<close>

lemma process_body_chunks:
  assumes "limit < 2 ^ 64" "length request \<le> limit"
  shows "process_body ops limit (map BodyChunk cs) request uri metadata w =
    (if length request + length (concat cs) > limit then (Err BodyTooLarge, w)
     else body_complete ops (request @ concat cs) uri metadata w)"
  using assms(2)
proof (induction cs arbitrary: request)
  case (Cons c cs)
  show ?case
  proof (cases "exceeds_limit limit (length request) (length c)")
    case True
    then have "length request + length c > limit" using assms(1) by (auto simp: exceeds_limit_def split: if_splits)
    with True show ?thesis by simp
  next
    case False
    then have "length (request @ c) \<le> limit" by (auto simp: exceeds_limit_def split: if_splits)
    from Cons.IH [OF this] False show ?thesis by simp
  qed
qed simp

text \<open>A body that arrives in pieces, with pauses between them.\<close>

fun body_text :: "'e body_event list \<Rightarrow> string" where
  "body_text [] = []"
| "body_text (BodyChunk c # body) = c @ body_text body"
| "body_text (_ # body) = body_text body"

definition pauses :: "'e body_event list \<Rightarrow> nat" where
  "pauses body = length (filter (\<lambda>ev. ev = BodyPending) body)"

definition no_body_error :: "'e body_event list \<Rightarrow> bool" where
  "no_body_error body \<longleftrightarrow> list_all (\<lambda>ev. \<forall>e. ev \<noteq> BodyErr e) body"

lemma body_events_simps [simp]:
  "pauses [] = 0" "pauses (BodyChunk c # body) = pauses body" "pauses (BodyPending # body) = Suc (pauses body)"
  "pauses (BodyErr e # body) = pauses body"
  "no_body_error []" "no_body_error (BodyChunk c # body) = no_body_error body" "no_body_error (BodyPending # body) = no_body_error body"
  "\<not> no_body_error (BodyErr e # body)"
  by (simp_all add: pauses_def no_body_error_def)

text \<open>The polls of a request until it is answered. For each poll: whether the future that the request waits for is
  ready, and what happens to the world before it.\<close>

fun rpc_run ::
    "('n, 'm, 'w, 'g, 'e, 'x) http_ops \<Rightarrow> (bool \<times> ('w \<Rightarrow> 'w)) list \<Rightarrow> ('m, 'w, 'g, 'e) rpc_handler_state \<times> 'w
     \<Rightarrow> ((hyper_response, 'e) result \<times> 'w) option" where
  "rpc_run ops [] s = None"
| "rpc_run ops ((ready, g) # polls) (h, w) =
     (case rpc_poll ops ready h (g w) of
        (Ready res, _, w') \<Rightarrow> Some (res, w')
      | (Pending, h', w') \<Rightarrow> rpc_run ops polls (h', w'))"

definition world_after :: "(bool \<times> ('w \<Rightarrow> 'w)) list \<Rightarrow> 'w \<Rightarrow> 'w" where
  "world_after polls w = fold (\<lambda>(ready, g). g) polls w"

lemma world_after_simps [simp]: "world_after [] w = w" "world_after ((ready, g) # polls) w = world_after polls (g w)"
  by (simp_all add: world_after_def)

lemma rpc_poll_body_cong:
  assumes "process_body ops (rh_max_request_body_size h) body got uri metadata w = process_body ops (rh_max_request_body_size h) body' got' uri metadata w"
  shows "rpc_poll ops ready (h\<lparr>rh_state := ReadingBody body uri got metadata\<rparr>) w = rpc_poll ops ready (h\<lparr>rh_state := ReadingBody body' uri got' metadata\<rparr>) w"
  using assms by (simp add: rpc_poll.simps rpc_step_def finish_def split: prod.splits result.splits body_error.splits bool.splits rpc_state.splits)

lemma body_run:
  assumes "rh_max_request_body_size h < 2 ^ 64" and "length got \<le> rh_max_request_body_size h" and "no_body_error body"
    and "pauses body < length polls"
  shows "if length (got @ body_text body) > rh_max_request_body_size h
    then \<exists>k r. k \<le> pauses body \<and> hr_status r = 413 \<and>
      rpc_run ops polls (h\<lparr>rh_state := ReadingBody body uri got metadata\<rparr>, w) = Some (Ok r, world_after (take (Suc k) polls) w)
    else rpc_run ops polls (h\<lparr>rh_state := ReadingBody body uri got metadata\<rparr>, w) =
      rpc_run ops (drop (pauses body) polls)
        (h\<lparr>rh_state := ReadingBody [] uri (got @ body_text body) metadata\<rparr>, world_after (take (pauses body) polls) w)"
  using assms(2-4)
proof (induction body arbitrary: got polls w)
  case (Cons ev body)
  obtain ready g polls' where p: "polls = (ready, g) # polls'" using Cons.prems(3) by (cases polls) auto
  show ?case
  proof (cases ev)
    case (BodyChunk c)
    show ?thesis
    proof (cases "exceeds_limit (rh_max_request_body_size h) (length got) (length c)")
      case True
      let ?h = "h\<lparr>rh_state := ReadingBody (ev # body) uri got metadata\<rparr>"
      let ?res = "response_too_large ''request body size exceeds allowed maximum''"
      have "length got + length c > rh_max_request_body_size h"
        using True assms(1) by (auto simp: exceeds_limit_def split: if_splits)
      moreover have "rpc_step ops ready ?h (g w) = (Ok (Writing ?res, True), ?h, g w)"
        using True BodyChunk by (simp add: rpc_step_def body_error_response_def)
      from rpc_poll_write [OF this] have "rpc_run ops polls (?h, w) = Some (Ok (finish ?h ?res), world_after (take (Suc 0) polls) w)"
        by (simp add: p)
      moreover have "hr_status (finish ?h ?res) = 413" by (simp add: finish_fields response_too_large_def)
      ultimately show ?thesis using BodyChunk by auto
    next
      case False
      then have fits: "length (got @ c) \<le> rh_max_request_body_size h" by (auto simp: exceeds_limit_def split: if_splits)
      have "rpc_run ops polls (h\<lparr>rh_state := ReadingBody (ev # body) uri got metadata\<rparr>, w) =
          rpc_run ops polls (h\<lparr>rh_state := ReadingBody body uri (got @ c) metadata\<rparr>, w)"
        using rpc_poll_body_cong [of ops h "ev # body" got uri metadata "g w" body "got @ c" ready] False BodyChunk by (simp add: p)
      then show ?thesis using Cons.IH [OF fits, of polls w] Cons.prems(2,3) BodyChunk by (simp split: if_splits)
    qed
  next
    case BodyPending
    let ?h = "h\<lparr>rh_state := ReadingBody body uri got metadata\<rparr>"
    have "rpc_run ops polls (h\<lparr>rh_state := ReadingBody (ev # body) uri got metadata\<rparr>, w) = rpc_run ops polls' (?h, g w)"
      using BodyPending by (simp add: p rpc_poll.simps rpc_step_def)
    then show ?thesis using Cons.IH [OF Cons.prems(1), of polls' "g w"] Cons.prems(2,3) BodyPending p
      by (simp split: if_splits) (metis Suc_le_mono take_Suc_Cons world_after_simps(2))
  qed (use Cons.prems in simp)
qed simp

text \<open>C16: the body limit is exact. The body of a request arrives in any chunks, with any pauses in between and over any number of
  polls. If it is longer than the limit, it is refused with 413 by the poll after some pause, and the request has run nothing by then;
  otherwise the polls wait at the pauses, and the poll after the last one completes the body with the whole text, in
  order.\<close>

theorem body_limit_exact:
  assumes "rh_state h = ReadingBody body uri [] metadata" and "rh_max_request_body_size h < 2 ^ 64" and "no_body_error body"
    and "pauses body < length polls"
  shows "if length (body_text body) > rh_max_request_body_size h
    then \<exists>k r. k \<le> pauses body \<and> hr_status r = 413 \<and> rpc_run ops polls (h, w) = Some (Ok r, world_after (take (Suc k) polls) w)
    else rpc_run ops polls (h, w) =
        rpc_run ops (drop (pauses body) polls)
          (h\<lparr>rh_state := ReadingBody [] uri (body_text body) metadata\<rparr>, world_after (take (pauses body) polls) w) \<and>
      process_body ops (rh_max_request_body_size h) [] (body_text body) uri metadata w' = body_complete ops (body_text body) uri metadata w'"
proof -
  have "h\<lparr>rh_state := ReadingBody body uri [] metadata\<rparr> = h" using assms(1) by simp
  then show ?thesis using body_run [OF assms(2) _ assms(3,4), of "[]" ops uri metadata w] by (simp split: if_splits)
qed

theorem body_limit_exact_witness:
  "\<exists>r w. rpc_run demo_ops [(True, \<lambda>w. w), (True, Suc)]
      (demo_handler (ReadingBody [BodyChunk ''sa'', BodyPending, BodyChunk ''yxx''] None [] ()), 7) = Some (Ok r, w) \<and>
    w \<in> {7, 8} \<and> hr_status r = 413"
proof -
  let ?h = "demo_handler (ReadingBody [BodyChunk ''sa'', BodyPending, BodyChunk ''yxx''] None [] ())"
  have "rh_state ?h = ReadingBody [BodyChunk ''sa'', BodyPending, BodyChunk ''yxx''] None [] ()" by (simp add: demo_handler_def)
  from body_limit_exact [OF this, of "[(True, \<lambda>w. w), (True, Suc)]" demo_ops 7]
  show ?thesis by (auto simp: demo_handler_def le_Suc_eq)
qed

text \<open>C15: a JSON POST is answered with what the RPC handler says: if the checks pass and the body
  fits, a single poll with a ready future reads the headers and the body, hands the exact text
  to \<open>handle_request\<close> with the extracted metadata, and responds 200 with the handler's text and a
  line break (nothing for a notification).\<close>

theorem json_post_answered:
  assumes st: "rh_state h = ReadingHeaders req domains allow c ka"
    and cors: "cors_allow_origin (op_glob_build ops) (op_is_match ops) (op_to_str ops) (op_from_str ops) req domains \<noteq> CorsInvalid"
      "cors_allow_headers (op_to_str ops) (op_from_str ops) req allow \<noteq> CorsInvalid"
    and post: "rq_method req = METHOD_POST" "is_json (op_to_str ops) (headers_get (rq_headers req) ''content-type'')"
    and body: "rq_body req = map BodyChunk cs" "concat cs \<noteq> []" "utf8_valid (concat cs)"
      "length (concat cs) \<le> rh_max_request_body_size h" "rh_max_request_body_size h < 2 ^ 64"
    and up: "op_upgrade ops w = Some rpc" "rpc_extractor rpc req w = (metadata, w0)" "op_upgrade ops w0 = Some rpc"
    and run: "handle_request (op_read_request ops) (op_response_text ops) (op_sched ops) (rpc_handler rpc) (concat cs)
        metadata w0 = (f, w1)" "f w1 = Some (answer, w2)"
  shows "\<exists>r h'. rpc_poll ops True h w = (Ready (Ok r), h', w2) \<and> hr_status r = 200 \<and>
    hr_body r = (case answer of None \<Rightarrow> [] | Some t \<Rightarrow> t @ newline)"
proof -
  let ?h = "headers_read ops h req domains allow ka"
  let ?uri = "if rh_rest_api h \<noteq> RestDisabled then Some (rq_path req) else None"
  let ?body = "ReadingBody (map BodyChunk cs) ?uri [] metadata"
  let ?res = "case answer of None \<Rightarrow> response_ok [] | Some t \<Rightarrow> response_ok (t @ newline)"
  have "read_headers ops ?h req c w = (?body, w0)"
    using cors post up body(1) by (simp add: read_headers_def headers_read_def)
  note hdr = rpc_step_headers [OF st this, of True]
  have limit: "rh_max_request_body_size ?h = rh_max_request_body_size h" by (simp add: headers_read_def)
  have "process_body ops (rh_max_request_body_size h) (map BodyChunk cs) [] ?uri metadata w0 =
      (Ok (Waiting f, True), w1)"
    using process_body_chunks [OF body(5), of "[]" ops cs ?uri metadata w0] body up run(1)
    by (simp add: body_complete_def)
  then have bdy: "rpc_step ops True (?h\<lparr>rh_state := ?body\<rparr>) w0 = (Ok (Waiting f, True), ?h\<lparr>rh_state := ?body\<rparr>, w1)"
    by (simp add: rpc_step_def limit)
  have wai: "rpc_step ops True (?h\<lparr>rh_state := Waiting f\<rparr>) w1 = (Ok (Writing ?res, True), ?h\<lparr>rh_state := Waiting f\<rparr>, w2)"
    using run(2) by (simp add: rpc_step_def poll_fut_def)
  have "rpc_poll ops True h w = rpc_poll ops True (?h\<lparr>rh_state := Waiting f\<rparr>) w1"
    using rpc_poll_advance [OF hdr] rpc_poll_advance [OF bdy] by simp
  with rpc_poll_write [OF wai] show ?thesis
    by (auto simp: finish_fields response_ok_def split: option.splits)
qed

theorem json_post_answered_witness:
  "\<exists>r h'. rpc_poll demo_ops True (demo_handler (ReadingHeaders
      (demo_request [(''content-type'', ''application/json'')] (map BodyChunk [''s'', ''ay''])) None HeadersAny False True)) 7
    = (Ready (Ok r), h', 7) \<and> hr_status r = 200 \<and> hr_body r = (case Some ''hello'' of None \<Rightarrow> [] | Some t \<Rightarrow> t @ newline)"
proof (rule json_post_answered [where domains = None and allow = HeadersAny and c = False and ka = True and metadata = "()" and ?w0.0 = 7
      and req = "demo_request [(''content-type'', ''application/json'')] (map BodyChunk [''s'', ''ay''])"
      and rpc = "\<lparr>rpc_handler = say_handler, rpc_extractor = (\<lambda>_ w. ((), w))\<rparr>"])
  show "fut_map (as_string (\<lambda>_ :: nat response. ''hello'')) (fut_ready (Some (SingleResponse (Success \<lparr>su_jsonrpc = Some V2, su_result = VString ''hello'', su_id = IdNum 1\<rparr>)))) (7::nat)
      = Some (Some ''hello'', 7)"
    by (simp add: as_string_def write_response_def)
  show "handle_request (op_read_request demo_ops) (op_response_text demo_ops) (op_sched demo_ops)
      (rpc_handler \<lparr>rpc_handler = say_handler, rpc_extractor = (\<lambda>_ w. ((), w))\<rparr>) (concat [''s'', ''ay''])
      () 7 =
      (fut_map (as_string (\<lambda>_ :: nat response. ''hello'')) (fut_ready (Some (SingleResponse (Success \<lparr>su_jsonrpc = Some V2, su_result = VString ''hello'', su_id = IdNum 1\<rparr>)))), 7)"
    by (simp add: demo_ops_def handle_request_def read_request_def handle_rpc_request_noop say_handler_ok say_call_def
        handle_call_noop process_call_spec say_defs resolve_method_def output_as_response_def)
qed (simp_all add: demo_ops_def demo_handler_def demo_request_def cors_allow_origin_def cors_allow_headers_def read_header_def
      headers_get_def get_cors_allow_origin_def get_cors_allow_headers_def is_json_def requested_headers_def
      headers_get_all_def map_filter_simps in_range_def)

end
