(* ===== verification/Reactor.thy ===== *)
theory Reactor
  imports Prelude
begin

text \<open>
  Event loops (\<open>server-utils/src/reactor.rs\<close>): an executor that is shared or spawned for one server,
  and the ways of ending it. The runtime of the \<open>tokio\<close> crate and one-shot channels are operations
  on an environment \<open>'u\<close>.
\<close>

section \<open>Operations\<close>

text \<open>Creating a one-shot channel, sending on it, dropping its sender, building a runtime with one worker thread of a given
  name, spawning on it a task that waits for the channel, and dropping the runtime.\<close>

record ('u, 'h, 'c, 'e) reactor_ops =
  rx_oneshot :: "'u \<Rightarrow> 'c \<times> 'u"
  rx_send :: "'c \<Rightarrow> 'u \<Rightarrow> (unit, unit) result \<times> 'u"
  rx_drop_sender :: "'c \<Rightarrow> 'u \<Rightarrow> 'u"
  rx_build :: "string option \<Rightarrow> 'u \<Rightarrow> ('h, 'e) result \<times> 'u"
  rx_spawn_stop :: "'h \<Rightarrow> 'c \<Rightarrow> 'u \<Rightarrow> 'u"
  rx_drop_runtime :: "'h \<Rightarrow> 'u \<Rightarrow> 'u"

section \<open>Event loops\<close>

record ('h, 'c) rpc_event_loop =
  el_executor :: 'h
  el_close :: "'c option"
  el_runtime :: "'h option"

definition event_loop_with_name ::
    "('u, 'h, 'c, 'e) reactor_ops \<Rightarrow> string option \<Rightarrow> 'u \<Rightarrow> (('h, 'c) rpc_event_loop, 'e) result \<times> 'u" where
  "event_loop_with_name rx name u =
     (let (stop, u1) = rx_oneshot rx u
      in case rx_build rx name u1 of
           (Err e, u2) \<Rightarrow> (Err e, u2)
         | (Ok runtime, u2) \<Rightarrow>
             (Ok \<lparr>el_executor = runtime, el_close = Some stop, el_runtime = Some runtime\<rparr>, rx_spawn_stop rx runtime stop u2))"

definition event_loop_spawn ::
    "('u, 'h, 'c, 'e) reactor_ops \<Rightarrow> 'u \<Rightarrow> (('h, 'c) rpc_event_loop, 'e) result \<times> 'u" where
  "event_loop_spawn rx u = event_loop_with_name rx None u"

text \<open>The handle of the runtime; \<open>None\<close> is the panic of a loop whose runtime was taken.\<close>

definition event_loop_executor :: "('h, 'c) rpc_event_loop \<Rightarrow> 'h option" where
  "event_loop_executor el = el_runtime el"

text \<open>Dropping a loop: a stop signal that is still there is sent, then the runtime is dropped.\<close>

definition event_loop_drop :: "('u, 'h, 'c, 'e) reactor_ops \<Rightarrow> ('h, 'c) rpc_event_loop \<Rightarrow> 'u \<Rightarrow> 'u" where
  "event_loop_drop rx el u =
     (let u1 = (case el_close el of Some c \<Rightarrow> snd (rx_send rx c u) | None \<Rightarrow> u)
      in case el_runtime el of Some h \<Rightarrow> rx_drop_runtime rx h u1 | None \<Rightarrow> u1)"

definition event_loop_wait ::
    "('u, 'h, 'c, 'e) reactor_ops \<Rightarrow> ('h, 'c) rpc_event_loop \<Rightarrow> 'u \<Rightarrow> (unit, unit) result \<times> 'u" where
  "event_loop_wait rx el u =
     (case el_runtime el of
        None \<Rightarrow> (Err (), event_loop_drop rx el u)
      | Some h \<Rightarrow> (Ok (), event_loop_drop rx (el\<lparr>el_runtime := None\<rparr>) (rx_drop_runtime rx h u)))"

text \<open>\<open>None\<close> is the panic of a loop that was closed before.\<close>

definition event_loop_close :: "('u, 'h, 'c, 'e) reactor_ops \<Rightarrow> ('h, 'c) rpc_event_loop \<Rightarrow> 'u \<Rightarrow> 'u option" where
  "event_loop_close rx el u =
     (case el_close el of
        None \<Rightarrow> None
      | Some c \<Rightarrow> Some (event_loop_drop rx (el\<lparr>el_close := None\<rparr>) (snd (rx_send rx c u))))"

section \<open>Executors\<close>

datatype 'h uninitialized_executor = UninitShared 'h | Unspawned

datatype ('h, 'c) executor = ExecShared 'h | ExecSpawned "('h, 'c) rpc_event_loop"

fun init_with_name ::
    "('u, 'h, 'c, 'e) reactor_ops \<Rightarrow> string \<Rightarrow> 'h uninitialized_executor \<Rightarrow> 'u \<Rightarrow> (('h, 'c) executor, 'e) result \<times> 'u" where
  "init_with_name rx name (UninitShared h) u = (Ok (ExecShared h), u)"
| "init_with_name rx name Unspawned u = apfst (map_ok ExecSpawned) (event_loop_with_name rx (Some name) u)"

definition executor_initialize ::
    "('u, 'h, 'c, 'e) reactor_ops \<Rightarrow> 'h uninitialized_executor \<Rightarrow> 'u \<Rightarrow> (('h, 'c) executor, 'e) result \<times> 'u" where
  "executor_initialize rx ue u = init_with_name rx ''event.loop'' ue u"

fun executor_handle :: "('h, 'c) executor \<Rightarrow> 'h option" where
  "executor_handle (ExecShared h) = Some h"
| "executor_handle (ExecSpawned el) = event_loop_executor el"

fun executor_close :: "('u, 'h, 'c, 'e) reactor_ops \<Rightarrow> ('h, 'c) executor \<Rightarrow> 'u \<Rightarrow> 'u option" where
  "executor_close rx (ExecShared h) u = Some u"
| "executor_close rx (ExecSpawned el) u = event_loop_close rx el u"

fun executor_wait :: "('u, 'h, 'c, 'e) reactor_ops \<Rightarrow> ('h, 'c) executor \<Rightarrow> 'u \<Rightarrow> 'u" where
  "executor_wait rx (ExecShared h) u = u"
| "executor_wait rx (ExecSpawned el) u = snd (event_loop_wait rx el u)"

fun executor_drop :: "('u, 'h, 'c, 'e) reactor_ops \<Rightarrow> ('h, 'c) executor \<Rightarrow> 'u \<Rightarrow> 'u" where
  "executor_drop rx (ExecShared h) u = u"
| "executor_drop rx (ExecSpawned el) u = event_loop_drop rx el u"

section \<open>Lemmas\<close>

text \<open>An executor that was initialized and not used up: a spawned loop still has its stop signal and
  its runtime.\<close>

fun executor_live :: "('h, 'c) executor \<Rightarrow> bool" where
  "executor_live (ExecShared h) = True"
| "executor_live (ExecSpawned el) = (el_close el \<noteq> None \<and> el_runtime el = Some (el_executor el))"

lemma initialized_live: "init_with_name rx name ue u = (Ok ex, u') \<Longrightarrow> executor_live ex"
  by (cases ue) (auto simp: event_loop_with_name_def split: prod.splits result.splits)

lemma live_handle: "executor_live ex \<Longrightarrow> executor_handle ex \<noteq> None"
  by (cases ex) (auto simp: event_loop_executor_def)

text \<open>A live executor ends in one way, closed or dropped: the stop signal is sent once, then the runtime
  is dropped; closing does not panic.\<close>

lemma close_is_drop: "executor_live ex \<Longrightarrow> executor_close rx ex u = Some (executor_drop rx ex u)"
  by (cases ex) (auto simp: event_loop_close_def event_loop_drop_def)

lemma live_wait:
  "executor_live (ExecSpawned el) \<Longrightarrow>
     event_loop_wait rx el u = (Ok (), case el_close el of Some c \<Rightarrow> snd (rx_send rx c (rx_drop_runtime rx (el_executor el) u)) | None \<Rightarrow> u)"
  by (auto simp: event_loop_wait_def event_loop_drop_def)

section \<open>Closing from several handles\<close>

text \<open>The handles of a server share a state that the first close takes. \<open>None\<close> is a panic.\<close>

fun close_times :: "('s \<times> 'u \<Rightarrow> ('s \<times> 'u) option) \<Rightarrow> nat \<Rightarrow> 's \<times> 'u \<Rightarrow> ('s \<times> 'u) option" where
  "close_times close 0 s = Some s"
| "close_times close (Suc n) s = Option.bind (close s) (close_times close n)"

text \<open>What a server promises of \<open>close\<close>: on a live state it has the effect \<open>stop\<close> and leaves a closed state;
  on a closed state it does \<open>again\<close> and nothing else.\<close>

locale closable =
  fixes close :: "'s \<times> 'u \<Rightarrow> ('s \<times> 'u) option"
    and live :: "'s \<Rightarrow> bool" and closed :: "'s \<Rightarrow> bool"
    and stop :: "'s \<Rightarrow> 'u \<Rightarrow> 'u" and again :: "'s \<Rightarrow> 'u \<Rightarrow> 'u"
  assumes first_close: "live s \<Longrightarrow> \<exists>s'. closed s' \<and> close (s, u) = Some (s', stop s u)"
    and later_close: "closed s \<Longrightarrow> close (s, u) = Some (s, again s u)"
begin

lemma closed_times: "closed s \<Longrightarrow> close_times close n (s, u) = Some (s, (again s ^^ n) u)"
  by (induction n arbitrary: u) (simp_all add: later_close funpow_swap1)

lemma closes_once:
  assumes "live s"
  shows "\<exists>s'. closed s' \<and> close_times close (Suc n) (s, u) = Some (s', (again s' ^^ n) (stop s u))"
  using first_close [OF assms, of u] closed_times by fastforce

end

lemma funpow_same [simp]: "((\<lambda>u. u) ^^ n) u = u"
  by (induction n) simp_all

text \<open>Signals and event loops as a list of events, for examples.\<close>

definition log_reactor :: "(string list, unit, string, unit) reactor_ops" where
  "log_reactor = \<lparr>rx_oneshot = (\<lambda>u. (''stop'', u)), rx_send = (\<lambda>c u. (Ok (), u @ [''signal '' @ c])),
     rx_drop_sender = (\<lambda>_ u. u), rx_build = (\<lambda>name u. (Ok (), u @ [''build''])), rx_spawn_stop = (\<lambda>_ _ u. u),
     rx_drop_runtime = (\<lambda>_ u. u @ [''end''])\<rparr>"

end
