(* ===== verification/Http_Server.thy ===== *)
theory Http_Server
  imports Http_Handler Reactor
begin

text \<open>
  Starting and stopping the HTTP server (\<open>http/src/lib.rs\<close>): the builder with its defaults and setters,
  binding the socket of a worker thread, the service that every connection gets, and the handles that
  close the server.

  The socket operations of the \<open>net2\<close> crate and the event loops act on an environment \<open>'u\<close>; worker
  threads bind concurrently, so \<open>start_http\<close> takes the outcome of each as an argument. A closed or
  dropped handle is modelled by what it does to the shared list of executors.
\<close>

section \<open>The builder\<close>

record ('n, 'm, 'w, 'g, 'e, 'h) http_builder =
  hb_handler :: "('n, 'm, 'w) meta_io_handler"
  hb_executor :: "'h uninitialized_executor"
  hb_meta_extractor :: "'e http_request \<Rightarrow> 'w \<Rightarrow> 'm \<times> 'w"
  hb_request_middleware :: "'e http_request \<Rightarrow> 'w \<Rightarrow> ('w, 'e) middleware_action \<times> 'w"
  hb_cors_domains :: "'g allow_origin list option"
  hb_cors_max_age :: "u32 option"
  hb_allowed_headers :: allow_headers
  hb_allowed_hosts :: "'g host list option"
  hb_rest_api :: rest_api
  hb_health_api :: "(string \<times> string) option"
  hb_keep_alive :: bool
  hb_threads :: u64
  hb_max_request_body_size :: nat

definition http_with_meta_extractor ::
    "('n, 'm, 'w) meta_io_handler \<Rightarrow> ('e http_request \<Rightarrow> 'w \<Rightarrow> 'm \<times> 'w) \<Rightarrow> ('n, 'm, 'w, 'g, 'e, 'h) http_builder" where
  "http_with_meta_extractor handler extractor =
     \<lparr>hb_handler = handler, hb_executor = Unspawned, hb_meta_extractor = extractor,
      hb_request_middleware = noop_request_middleware, hb_cors_domains = None, hb_cors_max_age = None,
      hb_allowed_headers = HeadersAny, hb_allowed_hosts = None, hb_rest_api = RestDisabled, hb_health_api = None,
      hb_keep_alive = True, hb_threads = 1, hb_max_request_body_size = 5 * 1024 * 1024\<rparr>"

text \<open>\<open>NoopExtractor\<close>: the default metadata.\<close>

definition http_noop_extractor :: "'m \<Rightarrow> 'e http_request \<Rightarrow> 'w \<Rightarrow> 'm \<times> 'w" where
  "http_noop_extractor default_meta req w = (default_meta, w)"

definition http_builder_new :: "'m \<Rightarrow> ('n, 'm, 'w) meta_io_handler \<Rightarrow> ('n, 'm, 'w, 'g, 'e, 'h) http_builder" where
  "http_builder_new default_meta handler = http_with_meta_extractor handler (http_noop_extractor default_meta)"

definition http_event_loop_executor where
  "http_event_loop_executor executor b = b\<lparr>hb_executor := UninitShared executor\<rparr>"

definition http_rest_api where
  "http_rest_api r b = b\<lparr>hb_rest_api := r\<rparr>"

definition http_health_api where
  "http_health_api a b = b\<lparr>hb_health_api := a\<rparr>"

definition http_keep_alive where
  "http_keep_alive val b = b\<lparr>hb_keep_alive := val\<rparr>"

definition http_threads where
  "http_threads n b = b\<lparr>hb_threads := n\<rparr>"

definition http_cors where
  "http_cors cors_domains b = b\<lparr>hb_cors_domains := domains_into_option cors_domains\<rparr>"

definition http_cors_max_age where
  "http_cors_max_age a b = b\<lparr>hb_cors_max_age := a\<rparr>"

definition http_cors_allow_headers where
  "http_cors_allow_headers hs b = b\<lparr>hb_allowed_headers := hs\<rparr>"

definition http_request_middleware where
  "http_request_middleware mw b = b\<lparr>hb_request_middleware := mw\<rparr>"

definition http_meta_extractor where
  "http_meta_extractor extractor b = b\<lparr>hb_meta_extractor := extractor\<rparr>"

definition http_allow_only_bind_host where
  "http_allow_only_bind_host b = b\<lparr>hb_allowed_hosts := Some []\<rparr>"

definition http_allowed_hosts where
  "http_allowed_hosts hosts b = b\<lparr>hb_allowed_hosts := domains_into_option hosts\<rparr>"

definition http_max_request_body_size where
  "http_max_request_body_size val b = b\<lparr>hb_max_request_body_size := val\<rparr>"

section \<open>Strong and weak handles of the RPC\<close>

text \<open>A world tells whether the server still holds its handler and its extractor. A weak handle gives the
  strong one while both are held.\<close>

record weak_rpc =
  wk_handler :: nat
  wk_extractor :: nat

definition rpc_downgrade :: "nat \<Rightarrow> nat \<Rightarrow> weak_rpc" where
  "rpc_downgrade handler extractor = \<lparr>wk_handler = handler, wk_extractor = extractor\<rparr>"

definition weak_upgrade ::
    "(nat \<rightharpoonup> ('n, 'm, 'w) meta_io_handler) \<Rightarrow> (nat \<rightharpoonup> ('e http_request \<Rightarrow> 'w \<Rightarrow> 'm \<times> 'w)) \<Rightarrow> weak_rpc \<Rightarrow> ('n, 'm, 'w, 'e) rpc option" where
  "weak_upgrade handlers extractors wk =
     Option.bind (handlers (wk_handler wk)) (\<lambda>handler.
     Option.bind (extractors (wk_extractor wk)) (\<lambda>extractor.
       Some \<lparr>rpc_handler = handler, rpc_extractor = extractor\<rparr>))"

section \<open>Serving\<close>

type_synonym ('u, 'a, 'e) net_result = "'u \<Rightarrow> ('a, 'e) result \<times> 'u"

record ('u, 'l, 's, 'e) net_ops =
  nt_new_v4 :: "('u, 'l, 'e) net_result"
  nt_new_v6 :: "('u, 'l, 'e) net_result"
  nt_reuse_port :: "'l \<Rightarrow> ('u, unit, 'e) net_result"
  nt_reuse_address :: "'l \<Rightarrow> ('u, unit, 'e) net_result"
  nt_bind :: "socket_addr \<Rightarrow> 'l \<Rightarrow> ('u, unit, 'e) net_result"
  nt_listen :: "nat \<Rightarrow> 'l \<Rightarrow> ('u, 'l, 'e) net_result"
  nt_local_addr :: "'l \<Rightarrow> ('u, socket_addr, 'e) net_result"
  nt_nonblocking :: "'l \<Rightarrow> ('u, unit, 'e) net_result"
  nt_from_tcp :: "'l \<Rightarrow> ('u, 's, 'e) net_result"

text \<open>The operator \<open>?\<close> on an operation with effects.\<close>

definition net_then :: "('u, 'a, 'e) net_result \<Rightarrow> ('a \<Rightarrow> ('u, 'b, 'e) net_result) \<Rightarrow> ('u, 'b, 'e) net_result" where
  "net_then f g u = (case f u of (Ok a, u') \<Rightarrow> g a u' | (Err e, u') \<Rightarrow> (Err e, u'))"

definition configure_port :: "('u, 'l, 's, 'e) net_ops \<Rightarrow> bool \<Rightarrow> 'l \<Rightarrow> ('u, unit, 'e) net_result" where
  "configure_port nt reuse tcp = (if reuse then nt_reuse_port nt tcp else (\<lambda>u. (Ok (), u)))"

definition serve_bind ::
    "('u, 'l, 's, 'e) net_ops \<Rightarrow> bool \<Rightarrow> socket_addr \<Rightarrow> ('u, 's \<times> socket_addr, 'e) net_result" where
  "serve_bind nt reuse_port addr =
     net_then (case addr of SocketV4 _ _ _ _ _ \<Rightarrow> nt_new_v4 nt | _ \<Rightarrow> nt_new_v6 nt) (\<lambda>listener.
     net_then (configure_port nt reuse_port listener) (\<lambda>_.
     net_then (nt_reuse_address nt listener) (\<lambda>_.
     net_then (nt_bind nt addr listener) (\<lambda>_.
     net_then (nt_listen nt 1024 listener) (\<lambda>listener.
     net_then (nt_local_addr nt listener) (\<lambda>local_addr.
     net_then (nt_nonblocking nt listener) (\<lambda>_.
     net_then (nt_from_tcp nt listener) (\<lambda>server u. (Ok (server, local_addr), u)))))))))"

text \<open>The service that every connection to a worker gets; the list of hosts is completed by the address
  the worker is bound to.\<close>

definition serve_handler ::
    "(string \<Rightarrow> 'g option) \<Rightarrow> ('n, 'm, 'w, 'g, 'e, 'h) http_builder \<Rightarrow> socket_addr \<Rightarrow> ('w, 'g, 'e) server_handler" where
  "serve_handler glob_build b local_addr =
     \<lparr>sh_allowed_hosts = hosts_update glob_build (hb_allowed_hosts b) local_addr,
      sh_cors_domains = hb_cors_domains b, sh_cors_max_age = hb_cors_max_age b,
      sh_cors_allowed_headers = hb_allowed_headers b, sh_middleware = hb_request_middleware b,
      sh_rest_api = hb_rest_api b, sh_health_api = hb_health_api b,
      sh_max_request_body_size = hb_max_request_body_size b, sh_keep_alive = hb_keep_alive b\<rparr>"

text \<open>What a worker reports and whether it goes on to serve: the second component is the listening
  server, when the parent could be told its address.\<close>

definition serve_report ::
    "bool \<Rightarrow> ('s \<times> socket_addr, 'e) result \<Rightarrow> (socket_addr, 'e) result \<times> ('s \<times> socket_addr) option" where
  "serve_report parent_waits bound =
     (case bound of
        Ok (server, local_addr) \<Rightarrow> (Ok local_addr, if parent_waits then Some (server, local_addr) else None)
      | Err e \<Rightarrow> (Err e, None))"

section \<open>Starting\<close>

text \<open>\<open>interrupted\<close> is the error for a worker that ended without reporting.\<close>

definition recv_address :: "'e \<Rightarrow> (socket_addr, 'e) result option \<Rightarrow> (socket_addr, 'e) result" where
  "recv_address interrupted received = (case received of None \<Rightarrow> Err interrupted | Some r \<Rightarrow> r)"

text \<open>The workers beyond the first; the subtraction is that of the machine.\<close>

definition extra_workers :: "u64 \<Rightarrow> nat" where
  "extra_workers threads = unat (threads - 1)"

definition worker_name :: "nat \<Rightarrow> string" where
  "worker_name i = ''http.worker'' @ dec_of_nat i"

record ('h, 'c, 'd) http_server =
  hs_address :: socket_addr
  hs_executors :: "(('h, 'c) executor \<times> 'c) list option"
  hs_done :: "'d list option"

text \<open>A worker that is given up: its event loop ends, and the sender of its shutdown signal is dropped.\<close>

definition drop_worker :: "('u, 'h, 'c, 'e) reactor_ops \<Rightarrow> ('h, 'c) executor \<times> 'c \<Rightarrow> 'u \<Rightarrow> 'u" where
  "drop_worker rx w u = rx_drop_sender rx (snd w) (executor_drop rx (fst w) u)"

fun init_workers ::
    "('u, 'h, 'c, 'e) reactor_ops \<Rightarrow> (nat \<Rightarrow> 'c) \<Rightarrow> (('h, 'c) executor \<times> 'c) list \<Rightarrow> nat list \<Rightarrow> 'u
     \<Rightarrow> ((('h, 'c) executor \<times> 'c) list, 'e) result \<times> 'u" where
  "init_workers rx close_tx exs [] u = (Ok exs, u)"
| "init_workers rx close_tx exs (i # ks) u =
     (case init_with_name rx (worker_name i) Unspawned u of
        (Err e, u1) \<Rightarrow> (Err e, fold (drop_worker rx) exs u1)
      | (Ok ex, u1) \<Rightarrow> init_workers rx close_tx (exs @ [(ex, close_tx i)]) ks u1)"

text \<open>\<open>reports i\<close> is what worker \<open>i\<close> reported, \<open>close_tx i\<close> and \<open>done_rx i\<close> are its channels. On an error the
  workers that were started are given up.\<close>

definition start_http ::
    "('u, 'h, 'c, 'e) reactor_ops \<Rightarrow> 'e \<Rightarrow> (nat \<Rightarrow> (socket_addr, 'e) result option) \<Rightarrow> (nat \<Rightarrow> 'c) \<Rightarrow> (nat \<Rightarrow> 'd)
     \<Rightarrow> ('n, 'm, 'w, 'g, 'x, 'h) http_builder \<Rightarrow> 'u \<Rightarrow> (('h, 'c, 'd) http_server, 'e) result \<times> 'u" where
  "start_http rx interrupted reports close_tx done_rx b u =
     (let ks = [1..<Suc (extra_workers (hb_threads b))]
      in case init_with_name rx (worker_name 0) (hb_executor b) u of
           (Err e, u1) \<Rightarrow> (Err e, u1)
         | (Ok eloop, u1) \<Rightarrow>
             (case init_workers rx close_tx [] ks u1 of
                (Err e, u2) \<Rightarrow> (Err e, drop_worker rx (eloop, close_tx 0) u2)
              | (Ok exs, u2) \<Rightarrow>
                  (let workers = exs @ [(eloop, close_tx 0)]
                   in case and_then (collect_results (map (\<lambda>i. recv_address interrupted (reports i)) ks))
                             (\<lambda>_. recv_address interrupted (reports 0)) of
                        Err e \<Rightarrow> (Err e, fold (drop_worker rx) workers u2)
                      | Ok local_addr \<Rightarrow>
                          (Ok \<lparr>hs_address = local_addr, hs_executors = Some workers,
                               hs_done = Some (map done_rx ks @ [done_rx 0])\<rparr>, u2))))"

section \<open>Closing\<close>

text \<open>Close handles share the list of executors; the first close takes it. \<open>None\<close> is a panic.\<close>

fun close_executors ::
    "('u, 'h, 'c, 'e) reactor_ops \<Rightarrow> (('h, 'c) executor \<times> 'c) list \<Rightarrow> 'u \<Rightarrow> 'u option" where
  "close_executors rx [] u = Some u"
| "close_executors rx ((ex, closer) # exs) u =
     Option.bind (executor_close rx ex (snd (rx_send rx closer u))) (close_executors rx exs)"

definition close_handle_close ::
    "('u, 'h, 'c, 'e) reactor_ops \<Rightarrow> (('h, 'c) executor \<times> 'c) list option \<times> 'u
     \<Rightarrow> ((('h, 'c) executor \<times> 'c) list option \<times> 'u) option" where
  "close_handle_close rx s =
     (case s of
        (None, u) \<Rightarrow> Some (None, u)
      | (Some exs, u) \<Rightarrow> map_option (\<lambda>u'. (None, u')) (close_executors rx exs u))"

text \<open>Waiting takes the list of done signals; \<open>join\<close> waits for all of them on a thread of its own.\<close>

definition server_wait :: "('d list \<Rightarrow> 'u \<Rightarrow> 'u) \<Rightarrow> 'd list option \<times> 'u \<Rightarrow> 'd list option \<times> 'u" where
  "server_wait join s = (case s of (Some ds, u) \<Rightarrow> (None, join ds u) | (None, u) \<Rightarrow> (None, u))"

definition server_drop where
  "server_drop rx join s dones u =
     map_option (\<lambda>(exs, u1). (exs, server_wait join (dones, u1))) (close_handle_close rx (s, u))"

section \<open>A started server\<close>

lemma init_workers_live:
  "init_workers rx close_tx exs ks u = (Ok exs', u') \<Longrightarrow> list_all (executor_live \<circ> fst) exs \<Longrightarrow>
     length exs' = length exs + length ks \<and> list_all (executor_live \<circ> fst) exs'"
proof (induction ks arbitrary: u exs)
  case (Cons k ks)
  obtain r u1 where i: "init_with_name rx (worker_name k) Unspawned u = (r, u1)" by fastforce
  with Cons.prems obtain ex where r: "r = Ok ex" by (cases r) auto
  have "executor_live ex" by (rule initialized_live [OF i [unfolded r]])
  then show ?case using Cons.IH [of "exs @ [(ex, close_tx k)]" u1] Cons.prems i r by auto
qed auto

lemma extra_workers_Suc: "threads \<noteq> 0 \<Longrightarrow> Suc (extra_workers threads) = unat threads"
  using unat_minus_one [of threads] by (simp add: extra_workers_def unat_gt_0)

lemma recv_address_Ok: "recv_address interrupted r = Ok a \<longleftrightarrow> r = Some (Ok a)"
  by (auto simp: recv_address_def split: option.splits)

lemma all_reported:
  "collect_results (map (\<lambda>i. recv_address interrupted (reports i)) ks) = Ok as \<Longrightarrow> i \<in> set ks \<Longrightarrow> \<exists>a. reports i = Some (Ok a)"
proof (induction ks arbitrary: as)
  case (Cons k ks)
  then show ?case by (auto simp: collect_results_Ok Cons_eq_map_conv recv_address_Ok)
qed simp

lemma start_http_executors:
  assumes "start_http rx interrupted reports close_tx done_rx b u = (Ok s, u')"
  shows "\<exists>exs. hs_executors s = Some exs \<and> length exs = Suc (extra_workers (hb_threads b)) \<and>
    list_all (executor_live \<circ> fst) exs \<and> reports 0 = Some (Ok (hs_address s)) \<and>
    (\<forall>i\<in>{1..extra_workers (hb_threads b)}. \<exists>a. reports i = Some (Ok a))"
proof -
  define ks where "ks = [1..<Suc (extra_workers (hb_threads b))]"
  note start = assms [unfolded start_http_def Let_def, folded ks_def]
  obtain r u1 where i0: "init_with_name rx (worker_name 0) (hb_executor b) u = (r, u1)" by fastforce
  then obtain eloop where r: "r = Ok eloop" using start by (cases r) auto
  obtain r2 u2 where iw: "init_workers rx close_tx [] ks u1 = (r2, u2)" by fastforce
  then obtain exs where r2: "r2 = Ok exs" using start i0 r by (cases r2) auto
  obtain as a where as: "collect_results (map (\<lambda>i. recv_address interrupted (reports i)) ks) = Ok as"
    and a: "recv_address interrupted (reports 0) = Ok a"
    and s: "hs_address s = a" "hs_executors s = Some (exs @ [(eloop, close_tx 0)])"
    using start i0 r iw r2 by (auto simp: and_then_Ok split: result.splits)
  have "length exs = length ks" "list_all (executor_live \<circ> fst) exs" "executor_live eloop"
    using init_workers_live [OF iw [unfolded r2]] initialized_live [OF i0 [unfolded r]] by simp_all
  moreover have "reports 0 = Some (Ok a)" using a by (simp add: recv_address_Ok)
  ultimately show ?thesis
    using s all_reported [OF as] by (auto simp: ks_def simp del: upt_Suc)
qed

lemma close_live:
  "list_all (executor_live \<circ> fst) exs \<Longrightarrow>
     close_executors rx exs u = Some (fold (\<lambda>(ex, closer) u. executor_drop rx ex (snd (rx_send rx closer u))) exs u)"
  by (induction exs arbitrary: u) (auto simp: close_is_drop)

fun executors_live :: "(('h, 'c) executor \<times> 'c) list option \<Rightarrow> bool" where
  "executors_live None = False"
| "executors_live (Some exs) = list_all (executor_live \<circ> fst) exs"

fun stop_executors :: "('u, 'h, 'c, 'e) reactor_ops \<Rightarrow> (('h, 'c) executor \<times> 'c) list option \<Rightarrow> 'u \<Rightarrow> 'u" where
  "stop_executors rx None u = u"
| "stop_executors rx (Some exs) u = fold (\<lambda>(ex, closer) u. executor_drop rx ex (snd (rx_send rx closer u))) exs u"

interpretation http_close: closable "close_handle_close rx" executors_live "\<lambda>exs. exs = None" "stop_executors rx" "\<lambda>_ u. u"
  for rx :: "('u, 'h, 'c, 'e) reactor_ops"
proof unfold_locales
  show "\<exists>s'. s' = None \<and> close_handle_close rx (s, u) = Some (s', stop_executors rx s u)" if "executors_live s" for s u
    using that by (cases s) (auto simp: close_handle_close_def close_live)
qed (simp add: close_handle_close_def)

text \<open>C25: closing a server that was started, from any number of handles and again when it is dropped,
  never panics and closes every worker thread exactly once: the first close sends every worker its
  shutdown signal and ends its event loop, in this order; the others do nothing. The server has one
  worker per requested thread, and all of them have reported that they are bound.\<close>

theorem http_server_closes_once:
  assumes "start_http rx interrupted reports close_tx done_rx b u = (Ok s, u1)" and "hb_threads b \<noteq> 0"
  shows "\<exists>exs. hs_executors s = Some exs \<and> length exs = unat (hb_threads b) \<and>
    (\<forall>i<unat (hb_threads b). \<exists>a. reports i = Some (Ok a)) \<and>
    close_times (close_handle_close rx) (Suc n) (hs_executors s, u2) =
      Some (None, fold (\<lambda>(ex, closer) u. executor_drop rx ex (snd (rx_send rx closer u))) exs u2)"
proof -
  obtain exs where exs: "hs_executors s = Some exs" "length exs = Suc (extra_workers (hb_threads b))"
    "list_all (executor_live \<circ> fst) exs" "reports 0 = Some (Ok (hs_address s))"
    "\<forall>i\<in>{1..extra_workers (hb_threads b)}. \<exists>a. reports i = Some (Ok a)"
    using start_http_executors [OF assms(1)] by blast
  have "\<exists>a. reports i = Some (Ok a)" if "i < unat (hb_threads b)" for i
    using that exs(4,5) extra_workers_Suc [OF assms(2)] by (cases i) auto
  then show ?thesis
    using exs extra_workers_Suc [OF assms(2)] http_close.closes_once [of "Some exs" rx n u2]
    by (simp del: close_times.simps)
qed

theorem http_server_closes_once_witness:
  "close_times (close_handle_close log_reactor) (Suc 1)
     (hs_executors \<lparr>hs_address = SocketV4 127 0 0 1 80,
        hs_executors = Some [(ExecSpawned \<lparr>el_executor = (), el_close = Some ''stop'', el_runtime = Some ()\<rparr>, ''close'')],
        hs_done = Some [()]\<rparr>, []) = Some (None, [''signal close'', ''signal stop'', ''end''])"
  using http_server_closes_once [of log_reactor "()" "\<lambda>_. Some (Ok (SocketV4 127 0 0 1 80))" "\<lambda>_. ''close''" "\<lambda>_. ()"
      "http_builder_new () (default_handler :: (nat, unit, nat) meta_io_handler)" "[]"
      "\<lparr>hs_address = SocketV4 127 0 0 1 80,
        hs_executors = Some [(ExecSpawned \<lparr>el_executor = (), el_close = Some ''stop'', el_runtime = Some ()\<rparr>, ''close'')],
        hs_done = Some [()]\<rparr>" "[''build'']" 1 "[]"]
  by (simp add: start_http_def http_builder_new_def http_with_meta_extractor_def log_reactor_def event_loop_with_name_def
      extra_workers_def recv_address_def event_loop_drop_def)

section \<open>Hosts of a server\<close>

text \<open>A server that validates hosts accepts requests that name the address it is bound to, whatever
  else its builder was told: in the service that a connection gets, such a request is not refused
  for its host, also when the port was chosen by the system.\<close>

theorem bound_address_not_refused:
  assumes lit: "\<And>s g t. glob_plain s \<Longrightarrow> glob_build s = Some g \<Longrightarrow> is_match g t \<longleftrightarrow> eq_ignore_ascii_case s t"
    and "hb_allowed_hosts bld = Some hosts" and "list_all (host_wf glob_build) hosts"
    and "op_is_match ops = is_match"
    and "read_header (op_to_str ops) req ''host'' = Some (socket_addr_text (SocketV4 a b c d p))"
  shows "fst (service_call ops (serve_handler glob_build bld (SocketV4 a b c d p)) req w) \<noteq>
    HandlerErr (Some response_host_not_allowed)"
proof -
  obtain hs where "hosts_update glob_build (Some hosts) (SocketV4 a b c d p) = Some hs"
    "is_host_valid is_match (Some (socket_addr_text (SocketV4 a b c d p))) (Some hs)"
    using hosts_update_own [of glob_build is_match hosts a b c d p] lit assms(3) by blast
  then have "is_host_allowed (op_is_match ops) (op_to_str ops) req
      (sh_allowed_hosts (serve_handler glob_build bld (SocketV4 a b c d p)))"
    using assms(2,4,5) by (simp add: is_host_allowed_def serve_handler_def)
  then show ?thesis
    by (auto simp: service_call_def Let_def split: prod.splits middleware_action.splits result.splits)
qed

theorem bound_address_not_refused_witness:
  "fst (service_call
      \<lparr>op_glob_build = (\<lambda>s. if glob_plain s then Some s else None), op_is_match = eq_ignore_ascii_case, op_to_str = Some,
       op_from_str = Some, op_upgrade = (\<lambda>_. None), op_read_request = (\<lambda>_. Err ()), op_read_value = (\<lambda>_. Err ()),
       op_response_text = (\<lambda>_. []), op_value_text = (\<lambda>_. []), op_error_text = (\<lambda>_. []), op_debug = (\<lambda>_. []), op_sched = []\<rparr>
      (serve_handler (\<lambda>s. if glob_plain s then Some s else None)
        (http_allow_only_bind_host (http_builder_new () (default_handler :: (nat, unit, nat) meta_io_handler)))
        (SocketV4 127 0 0 1 8545))
      \<lparr>rq_method = METHOD_POST, rq_path = ''/'', rq_headers = [(''host'', socket_addr_text (SocketV4 127 0 0 1 8545))], rq_body = []\<rparr> 0)
     \<noteq> HandlerErr (Some response_host_not_allowed)"
  by (rule bound_address_not_refused [where is_match = eq_ignore_ascii_case and hosts = "[]"])
    (auto simp: http_allow_only_bind_host_def read_header_def headers_get_def split: if_splits)

text \<open>A builder validates no hosts unless it is told to.\<close>

theorem default_builder_accepts_any_host:
  "is_host_allowed is_match to_str req
     (sh_allowed_hosts (serve_handler glob_build (http_builder_new default_meta handler) local_addr))"
  by (simp add: is_host_allowed_def serve_handler_def http_builder_new_def http_with_meta_extractor_def hosts_update_def)

text \<open>Asking for no threads does not panic where arithmetic wraps: it asks for as many as there are.\<close>

lemma no_threads_wraps: "extra_workers 0 = 2 ^ 64 - 1"
  by (simp add: extra_workers_def unsigned_minus_1_eq_mask mask_eq_exp_minus_1)

end
