(* ===== verification/Ws.thy ===== *)
theory Ws
  imports Core_Handler Cors Stream_Codec
begin

text \<open>
  The WebSocket session (\<open>ws/src/session.rs\<close>, \<open>ws/src/metadata.rs\<close>, \<open>ws/src/error.rs\<close>): the
  handshake with its origin and host checks, the handling of messages, the liveness of the spawned
  tasks, and the sender that refuses to write to a closed connection.

  The flag \<open>active\<close> that a session shares with its senders and tasks is a cell of the world's
  store, and so is the slab of liveness signals. The \<open>ws\<close> crate (connections, requests, the
  standard handshake response), the slab's choice of a vacant key and the moment a future is ready
  are arguments.
\<close>

section \<open>Errors\<close>

datatype ('io, 'e) ws_error = WsIo 'io | WsError 'e | ConnectionClosed

text \<open>\<open>io_kind\<close> tells an error of the \<open>ws\<close> crate of kind \<open>Io\<close>.\<close>

definition ws_error_from :: "('e \<Rightarrow> 'io option) \<Rightarrow> 'e \<Rightarrow> ('io, 'e) ws_error" where
  "ws_error_from io_kind e = (case io_kind e of Some io \<Rightarrow> WsIo io | None \<Rightarrow> WsError e)"

definition ws_error_from_io :: "'io \<Rightarrow> ('io, 'e) ws_error" where
  "ws_error_from_io e = WsIo e"

fun ws_error_display :: "('io \<Rightarrow> string) \<Rightarrow> ('e \<Rightarrow> string) \<Rightarrow> ('io, 'e) ws_error \<Rightarrow> string" where
  "ws_error_display io_text ws_text ConnectionClosed = ''Action on closed connection.''"
| "ws_error_display io_text ws_text (WsError e) = ''WebSockets Error: '' @ ws_text e"
| "ws_error_display io_text ws_text (WsIo e) = ''Io Error: '' @ io_text e"

fun ws_error_source :: "('io, 'e) ws_error \<Rightarrow> ('io + 'e) option" where
  "ws_error_source (WsIo e) = Some (Inl e)"
| "ws_error_source (WsError e) = Some (Inr e)"
| "ws_error_source ConnectionClosed = None"

text \<open>An error of the \<open>ws\<close> crate has a source, and it is the inner error when it is one of input or output.\<close>

lemma ws_error_has_source:
  "ws_error_source (ws_error_from io_kind e) = Some (case io_kind e of Some io \<Rightarrow> Inl io | None \<Rightarrow> Inr e)"
  by (simp add: ws_error_from_def split: option.splits)

section \<open>The world and senders\<close>

text \<open>Cells: the active flags, the slab of each session, whose entries hold the one-shot channel of
  a task (\<open>None\<close> once taken), and for every such channel whether it was fired.\<close>

record 'u ws_world =
  ww_env :: 'u
  ww_flags :: "bool list"
  ww_slabs :: "(nat, nat option) hash_map list"
  ww_signals :: "bool list"

record ('c, 'u, 'e, 'io, 'a) ws_ops =
  wo_send :: "'c \<Rightarrow> string \<Rightarrow> 'u \<Rightarrow> (unit, 'e) result \<times> 'u"
  wo_broadcast :: "'c \<Rightarrow> string \<Rightarrow> 'u \<Rightarrow> (unit, 'e) result \<times> 'u"
  wo_close :: "'c \<Rightarrow> 'a \<Rightarrow> 'u \<Rightarrow> (unit, 'e) result \<times> 'u"
  wo_io_kind :: "'e \<Rightarrow> 'io option"
  wo_vacant :: "nat list \<Rightarrow> nat"

record 'c ws_sender =
  sd_out :: 'c
  sd_active :: nat

definition ws_sender_new :: "'c \<Rightarrow> nat \<Rightarrow> 'c ws_sender" where
  "ws_sender_new c a = \<lparr>sd_out = c, sd_active = a\<rparr>"

definition flag_set :: "nat \<Rightarrow> 'u ws_world \<Rightarrow> bool" where
  "flag_set a w = (a < length (ww_flags w) \<and> ww_flags w ! a)"

definition check_active :: "'c ws_sender \<Rightarrow> 'u ws_world \<Rightarrow> (unit, ('io, 'e) ws_error) result" where
  "check_active s w = (if flag_set (sd_active s) w then Ok () else Err ConnectionClosed)"

definition on_env :: "('u \<Rightarrow> 'a \<times> 'u) \<Rightarrow> 'u ws_world \<Rightarrow> 'a \<times> 'u ws_world" where
  "on_env f w = (case f (ww_env w) of (r, u) \<Rightarrow> (r, w\<lparr>ww_env := u\<rparr>))"

definition guarded ::
    "('e \<Rightarrow> 'io option) \<Rightarrow> 'c ws_sender \<Rightarrow> ('u \<Rightarrow> (unit, 'e) result \<times> 'u) \<Rightarrow> 'u ws_world
     \<Rightarrow> (unit, ('io, 'e) ws_error) result \<times> 'u ws_world" where
  "guarded io_kind s f w =
     (case check_active s w of
        Err e \<Rightarrow> (Err e, w)
      | Ok _ \<Rightarrow> apfst (map_err (ws_error_from io_kind)) (on_env f w))"

definition ws_send ::
    "('c, 'u, 'e, 'io, 'a) ws_ops \<Rightarrow> 'c ws_sender \<Rightarrow> string \<Rightarrow> 'u ws_world \<Rightarrow> (unit, ('io, 'e) ws_error) result \<times> 'u ws_world" where
  "ws_send ops s msg w = guarded (wo_io_kind ops) s (wo_send ops (sd_out s) msg) w"

definition ws_broadcast ::
    "('c, 'u, 'e, 'io, 'a) ws_ops \<Rightarrow> 'c ws_sender \<Rightarrow> string \<Rightarrow> 'u ws_world \<Rightarrow> (unit, ('io, 'e) ws_error) result \<times> 'u ws_world" where
  "ws_broadcast ops s msg w = guarded (wo_io_kind ops) s (wo_broadcast ops (sd_out s) msg) w"

definition ws_close ::
    "('c, 'u, 'e, 'io, 'a) ws_ops \<Rightarrow> 'c ws_sender \<Rightarrow> 'a \<Rightarrow> 'u ws_world \<Rightarrow> (unit, ('io, 'e) ws_error) result \<times> 'u ws_world" where
  "ws_close ops s code w = guarded (wo_io_kind ops) s (wo_close ops (sd_out s) code) w"

text \<open>The task behind \<open>RequestContext::sender\<close>: it forwards what is ready on its channel and ends
  when the channel is closed or a send fails. The result says whether it has ended.\<close>

fun sender_future_poll ::
    "('c, 'u, 'e, 'io, 'a) ws_ops \<Rightarrow> 'c ws_sender \<Rightarrow> string list \<Rightarrow> bool \<Rightarrow> 'u ws_world \<Rightarrow> unit poll \<times> 'u ws_world" where
  "sender_future_poll ops s [] closed w = (if closed then Ready () else Pending, w)"
| "sender_future_poll ops s (v # vs) closed w =
     (case ws_send ops s v w of
        (Err e, w') \<Rightarrow> (Ready (), w')
      | (Ok _, w') \<Rightarrow> sender_future_poll ops s vs closed w')"

section \<open>Requests, responses and middleware\<close>

record 'e ws_request =
  wr_header :: "string \<Rightarrow> string option"
  wr_protocols :: "(string list, 'e) result"

record ws_response =
  wsr_status :: nat
  wsr_reason :: string
  wsr_body :: string
  wsr_headers :: "(string \<times> string) list"

datatype ws_middleware_action =
    WsProceed
  | WsRespond ws_response bool bool

fun should_verify_origin :: "ws_middleware_action \<Rightarrow> bool" where
  "should_verify_origin WsProceed = True"
| "should_verify_origin (WsRespond r validate_origin validate_hosts) = validate_origin"

fun should_verify_hosts :: "ws_middleware_action \<Rightarrow> bool" where
  "should_verify_hosts WsProceed = True"
| "should_verify_hosts (WsRespond r validate_origin validate_hosts) = validate_hosts"

fun action_from_option :: "ws_response option \<Rightarrow> ws_middleware_action" where
  "action_from_option (Some res) = WsRespond res True True"
| "action_from_option None = WsProceed"

definition forbidden :: "string \<Rightarrow> string \<Rightarrow> ws_response" where
  "forbidden title message =
     \<lparr>wsr_status = 403, wsr_reason = ''Forbidden'', wsr_body = title @ [CHR 0x0A] @ message @ [CHR 0x0A],
      wsr_headers = [(''Connection'', ''close'')]\<rparr>"

definition header_is_allowed :: "('p \<Rightarrow> string \<Rightarrow> bool) \<Rightarrow> 'p list option \<Rightarrow> string option \<Rightarrow> bool" where
  "header_is_allowed pattern_matches allowed header =
     (case (header, allowed) of
        (None, _) \<Rightarrow> True
      | (_, None) \<Rightarrow> True
      | (Some val, Some values) \<Rightarrow> if utf8_valid val then list_ex (\<lambda>v. pattern_matches v val) values else False)"

section \<open>Sessions\<close>

record ('g, 'c) ws_context =
  cx_session_id :: u64
  cx_origin :: "'g origin option"
  cx_protocols :: "string list"
  cx_out :: "'c ws_sender"

text \<open>\<open>unbounded\<close> creates a channel, \<open>spawn\<close> runs the forwarding task on its receiving end.\<close>

definition request_context_sender ::
    "('u \<Rightarrow> 'q \<times> 'u) \<Rightarrow> ('c ws_sender \<Rightarrow> 'q \<Rightarrow> 'u \<Rightarrow> 'u) \<Rightarrow> ('g, 'c) ws_context \<Rightarrow> 'u \<Rightarrow> 'q \<times> 'u" where
  "request_context_sender unbounded spawn cx u = (let (q, u1) = unbounded u in (q, spawn (cx_out cx) q u1))"

definition ws_noop_extractor :: "'m \<Rightarrow> ('g, 'c) ws_context \<Rightarrow> 'u \<Rightarrow> 'm \<times> 'u" where
  "ws_noop_extractor dflt cx u = (dflt, u)"

record ('g, 'c, 'e, 'n, 'm, 'u) ws_session =
  ss_active :: nat
  ss_context :: "('g, 'c) ws_context"
  ss_handler :: "('n, 'm, 'u) meta_io_handler"
  ss_meta_extractor :: "('g, 'c) ws_context \<Rightarrow> 'u \<Rightarrow> 'm \<times> 'u"
  ss_allowed_origins :: "'g origin list option"
  ss_allowed_hosts :: "'g host list option"
  ss_request_middleware :: "('e ws_request \<Rightarrow> ws_middleware_action) option"
  ss_stats :: "'u session_stats option"
  ss_metadata :: "'m option"
  ss_task_slab :: nat

record ('g, 'c, 'e, 'n, 'm, 'u) ws_factory =
  fc_session_id :: u64
  fc_handler :: "('n, 'm, 'u) meta_io_handler"
  fc_meta_extractor :: "('g, 'c) ws_context \<Rightarrow> 'u \<Rightarrow> 'm \<times> 'u"
  fc_allowed_origins :: "'g origin list option"
  fc_allowed_hosts :: "'g host list option"
  fc_request_middleware :: "('e ws_request \<Rightarrow> ws_middleware_action) option"
  fc_stats :: "'u session_stats option"

definition ws_factory_new ::
    "('n, 'm, 'u) meta_io_handler \<Rightarrow> (('g, 'c) ws_context \<Rightarrow> 'u \<Rightarrow> 'm \<times> 'u) \<Rightarrow> 'g origin list option \<Rightarrow> 'g host list option
     \<Rightarrow> ('e ws_request \<Rightarrow> ws_middleware_action) option \<Rightarrow> 'u session_stats option \<Rightarrow> ('g, 'c, 'e, 'n, 'm, 'u) ws_factory" where
  "ws_factory_new handler extractor origins hosts mw stats =
     \<lparr>fc_session_id = 0, fc_handler = handler, fc_meta_extractor = extractor, fc_allowed_origins = origins,
      fc_allowed_hosts = hosts, fc_request_middleware = mw, fc_stats = stats\<rparr>"

definition connection_made ::
    "'c \<Rightarrow> ('g, 'c, 'e, 'n, 'm, 'u) ws_factory \<Rightarrow> 'u ws_world
     \<Rightarrow> ('g, 'c, 'e, 'n, 'm, 'u) ws_session \<times> ('g, 'c, 'e, 'n, 'm, 'u) ws_factory \<times> 'u ws_world" where
  "connection_made sender f w =
     (let i = fc_session_id f + 1;
          w1 = (case fc_stats f of Some st \<Rightarrow> w\<lparr>ww_env := open_session st i (ww_env w)\<rparr> | None \<Rightarrow> w);
          a = length (ww_flags w1);
          slab = length (ww_slabs w1)
      in (\<lparr>ss_active = a,
           ss_context = \<lparr>cx_session_id = i, cx_origin = None, cx_protocols = [], cx_out = ws_sender_new sender a\<rparr>,
           ss_handler = fc_handler f, ss_meta_extractor = fc_meta_extractor f,
           ss_allowed_origins = fc_allowed_origins f, ss_allowed_hosts = fc_allowed_hosts f,
           ss_request_middleware = fc_request_middleware f, ss_stats = fc_stats f,
           ss_metadata = None, ss_task_slab = slab\<rparr>,
          f\<lparr>fc_session_id := i\<rparr>,
          w1\<lparr>ww_flags := ww_flags w1 @ [True], ww_slabs := ww_slabs w1 @ [[]]\<rparr>))"

definition session_closed :: "('g, 'c, 'e, 'n, 'm, 'u) ws_session \<Rightarrow> 'u ws_world \<Rightarrow> 'u ws_world" where
  "session_closed s w =
     (let w1 = w\<lparr>ww_flags := (ww_flags w)[ss_active s := False]\<rparr>;
          w2 = (case ss_stats s of
                  Some st \<Rightarrow> w1\<lparr>ww_env := close_session st (cx_session_id (ss_context s)) (ww_env w1)\<rparr> | None \<Rightarrow> w1);
          slab = ww_slabs w2 ! ss_task_slab s
      in w2\<lparr>ww_slabs := (ww_slabs w2)[ss_task_slab s := map (\<lambda>(k, _). (k, None)) slab],
            ww_signals := fold (\<lambda>(k, task) sigs. case task of Some c \<Rightarrow> sigs[c := True] | None \<Rightarrow> sigs) slab (ww_signals w2)\<rparr>)"

section \<open>The handshake\<close>

definition verify_origin ::
    "('g \<Rightarrow> string \<Rightarrow> bool) \<Rightarrow> ('g, 'c, 'e, 'n, 'm, 'u) ws_session \<Rightarrow> string option \<Rightarrow> ws_response option" where
  "verify_origin is_match s org =
     (if \<not> header_is_allowed (origin_matches is_match) (ss_allowed_origins s) org
      then Some (forbidden ''URL Blocked'' ''Connection Origin has been rejected.'') else None)"

definition verify_host ::
    "('g \<Rightarrow> string \<Rightarrow> bool) \<Rightarrow> ('g, 'c, 'e, 'n, 'm, 'u) ws_session \<Rightarrow> 'e ws_request \<Rightarrow> ws_response option" where
  "verify_host is_match s req =
     (if \<not> header_is_allowed (host_matches is_match) (ss_allowed_hosts s) (wr_header req ''host'')
      then Some (forbidden ''URL Blocked'' ''Connection Host has been rejected.'') else None)"

text \<open>\<open>from_request\<close> is the standard handshake response of the \<open>ws\<close> crate, \<open>set_protocol\<close> adds a
  protocol to it.\<close>

definition request_context_of ::
    "(string \<Rightarrow> 'g option) \<Rightarrow> 'e ws_request \<Rightarrow> ('g, 'c) ws_context \<Rightarrow> ('g, 'c) ws_context" where
  "request_context_of glob_build req cx =
     cx\<lparr>cx_origin := (case wr_header req ''origin'' of
            Some val \<Rightarrow> if utf8_valid val then Some (origin_parse glob_build val) else None | None \<Rightarrow> None),
        cx_protocols := (case wr_protocols req of Ok ps \<Rightarrow> ps | Err _ \<Rightarrow> [])\<rparr>"

text \<open>A function on requests as a middleware.\<close>

definition request_middleware_process :: "('e ws_request \<Rightarrow> ws_response option) \<Rightarrow> 'e ws_request \<Rightarrow> ws_middleware_action" where
  "request_middleware_process f req = action_from_option (f req)"

definition middleware_of :: "('g, 'c, 'e, 'n, 'm, 'u) ws_session \<Rightarrow> 'e ws_request \<Rightarrow> ws_middleware_action" where
  "middleware_of s req = (case ss_request_middleware s of Some mw \<Rightarrow> mw req | None \<Rightarrow> WsProceed)"

definition on_request ::
    "('g \<Rightarrow> string \<Rightarrow> bool) \<Rightarrow> (string \<Rightarrow> 'g option) \<Rightarrow> ('e ws_request \<Rightarrow> (ws_response, 'e) result)
     \<Rightarrow> (string \<Rightarrow> ws_response \<Rightarrow> ws_response) \<Rightarrow> 'e ws_request \<Rightarrow> ('g, 'c, 'e, 'n, 'm, 'u) ws_session \<Rightarrow> 'u ws_world
     \<Rightarrow> (ws_response, 'e) result \<times> ('g, 'c, 'e, 'n, 'm, 'u) ws_session \<times> 'u ws_world" where
  "on_request is_match glob_build from_request set_protocol req s w =
     (let action = middleware_of s req;
          blocked_origin = (if should_verify_origin action then verify_origin is_match s (wr_header req ''origin'') else None);
          blocked_host = (if should_verify_hosts action then verify_host is_match s req else None)
      in case (blocked_origin, blocked_host) of
           (Some response, _) \<Rightarrow> (Ok response, s, w)
         | (None, Some response) \<Rightarrow> (Ok response, s, w)
         | (None, None) \<Rightarrow>
             (let cx = request_context_of glob_build req (ss_context s);
                  (m, w') = on_env (ss_meta_extractor s cx) w;
                  s' = s\<lparr>ss_context := cx, ss_metadata := Some m\<rparr>
              in (case action of
                    WsProceed \<Rightarrow> map_ok (\<lambda>res. case cx_protocols cx of p # _ \<Rightarrow> set_protocol p res | [] \<Rightarrow> res) (from_request req)
                  | WsRespond response _ _ \<Rightarrow> Ok response, s', w')))"

section \<open>Messages and their tasks\<close>

record liveness_poll =
  lp_task_slab :: nat
  lp_slab_handle :: nat
  lp_rx :: nat

definition liveness_create :: "(nat list \<Rightarrow> nat) \<Rightarrow> nat \<Rightarrow> 'u ws_world \<Rightarrow> liveness_poll \<times> 'u ws_world" where
  "liveness_create vacant slab w =
     (let c = length (ww_signals w); k = vacant (map fst (ww_slabs w ! slab))
      in (\<lparr>lp_task_slab = slab, lp_slab_handle = k, lp_rx = c\<rparr>,
          w\<lparr>ww_signals := ww_signals w @ [False],
            ww_slabs := (ww_slabs w)[slab := snd (hm_insert k (Some c) (ww_slabs w ! slab))]\<rparr>))"

definition liveness_poll_next :: "liveness_poll \<Rightarrow> 'u ws_world \<Rightarrow> unit poll" where
  "liveness_poll_next l w = (if lp_rx l < length (ww_signals w) \<and> ww_signals w ! lp_rx l then Ready () else Pending)"

definition liveness_drop :: "liveness_poll \<Rightarrow> 'u ws_world \<Rightarrow> 'u ws_world" where
  "liveness_drop l w =
     w\<lparr>ww_slabs := (ww_slabs w)[lp_task_slab l := snd (hm_remove (lp_slab_handle l) (ww_slabs w ! lp_task_slab l))]\<rparr>"

record ('c, 'u) ws_task =
  wt_response :: "('u, string option) fut"
  wt_sender :: "'c ws_sender"
  wt_active :: nat
  wt_liveness :: liveness_poll

datatype ('e, 't) ws_message_outcome = MessageSpawned 't | MessageError 'e | MessagePanic

text \<open>\<open>as_text\<close> reads a message of the \<open>ws\<close> crate as text.\<close>

definition on_message ::
    "(string \<Rightarrow> ('n request, 'x) result) \<Rightarrow> ('n response \<Rightarrow> string) \<Rightarrow> nat list \<Rightarrow> (nat list \<Rightarrow> nat) \<Rightarrow> ('msg \<Rightarrow> (string, 'e) result)
     \<Rightarrow> 'msg \<Rightarrow> ('g, 'c, 'e, 'n, 'm, 'u) ws_session \<Rightarrow> 'u ws_world \<Rightarrow> ('e, ('c, 'u) ws_task) ws_message_outcome \<times> 'u ws_world" where
  "on_message serde_from_str to_string sched vacant as_text msg s w =
     (case as_text msg of
        Err e \<Rightarrow> (MessageError e, w)
      | Ok req \<Rightarrow>
          (case ss_metadata s of
             None \<Rightarrow> (MessagePanic, w)
           | Some meta \<Rightarrow>
               (let (l, w1) = liveness_create vacant (ss_task_slab s) w;
                    (response, w2) = on_env (handle_request serde_from_str to_string sched (ss_handler s) req meta) w1
                in (MessageSpawned \<lparr>wt_response = response, wt_sender = cx_out (ss_context s),
                      wt_active = ss_active s, wt_liveness = l\<rparr>, w2))))"

definition send_response ::
    "('c, 'u, 'e, 'io, 'a) ws_ops \<Rightarrow> ('c, 'u) ws_task \<Rightarrow> string option \<Rightarrow> 'u ws_world \<Rightarrow> 'u ws_world" where
  "send_response ops t response w =
     (if \<not> flag_set (wt_active t) w then w
      else case response of
        None \<Rightarrow> w
      | Some result \<Rightarrow>
          (case ws_send ops (wt_sender t) result w of
             (Err ConnectionClosed, w') \<Rightarrow> w'\<lparr>ww_flags := (ww_flags w')[wt_active t := False]\<rparr>
           | (_, w') \<Rightarrow> w'))"

text \<open>\<open>select\<close> of the response and the liveness; \<open>ready\<close> says whether the response is ready. When
  either is, the task ends and its liveness is dropped.\<close>

definition ws_task_poll ::
    "('c, 'u, 'e, 'io, 'a) ws_ops \<Rightarrow> bool \<Rightarrow> ('c, 'u) ws_task \<Rightarrow> 'u ws_world \<Rightarrow> unit poll \<times> 'u ws_world" where
  "ws_task_poll ops ready t w =
     (case (if ready then wt_response t (ww_env w) else None) of
        Some (response, u) \<Rightarrow> (Ready (), liveness_drop (wt_liveness t) (send_response ops t response (w\<lparr>ww_env := u\<rparr>)))
      | None \<Rightarrow>
          (case liveness_poll_next (wt_liveness t) w of
             Ready _ \<Rightarrow> (Ready (), liveness_drop (wt_liveness t) w)
           | Pending \<Rightarrow> (Pending, w)))"

section \<open>The handshake decides\<close>

definition refused :: "('p \<Rightarrow> string \<Rightarrow> bool) \<Rightarrow> 'p list option \<Rightarrow> string option \<Rightarrow> bool" where
  "refused pattern_matches allowed header \<longleftrightarrow>
     (\<exists>val values. header = Some val \<and> allowed = Some values \<and>
        (\<not> utf8_valid val \<or> (\<forall>v\<in>set values. \<not> pattern_matches v val)))"

lemma header_is_allowed_refused: "header_is_allowed pm allowed header \<longleftrightarrow> \<not> refused pm allowed header"
  by (auto simp: header_is_allowed_def refused_def list_ex_iff split: option.splits)

text \<open>C32: the handshake of a WebSocket session. A request with an \<open>Origin\<close> or \<open>Host\<close> header that the
  configured list does not cover (or that is not UTF-8) is answered with 403 before anything of the
  session changes, unless the request middleware answers itself and waives the check (the
  middleware is a function of the request: effects of its own are not modelled); every other
  request gives the session metadata extracted from the request's own origin and protocols, so that
  its messages are handled and never hit the missing metadata.\<close>

theorem handshake_decides:
  assumes "on_request is_match glob_build from_request set_protocol req s w = (r, s', w')"
  shows "if should_verify_origin (middleware_of s req) \<and>
        refused (origin_matches is_match) (ss_allowed_origins s) (wr_header req ''origin'') \<or>
      should_verify_hosts (middleware_of s req) \<and>
        refused (host_matches is_match) (ss_allowed_hosts s) (wr_header req ''host'')
    then (\<exists>resp. r = Ok resp \<and> wsr_status resp = 403) \<and> s' = s \<and> w' = w
    else ss_context s' = request_context_of glob_build req (ss_context s) \<and>
      ss_metadata s' = Some (fst (ss_meta_extractor s (ss_context s') (ww_env w))) \<and>
      fst (on_message serde_from_str to_string sched vacant as_text msg s' w2) \<noteq> MessagePanic"
proof -
  let ?o = "should_verify_origin (middleware_of s req) \<and>
    refused (origin_matches is_match) (ss_allowed_origins s) (wr_header req ''origin'')"
  let ?h = "should_verify_hosts (middleware_of s req) \<and>
    refused (host_matches is_match) (ss_allowed_hosts s) (wr_header req ''host'')"
  consider (origin) ?o | (host) "\<not> ?o" ?h | (passes) "\<not> ?o" "\<not> ?h" by blast
  then show ?thesis
  proof cases
    case origin
    then show ?thesis
      using assms by (auto simp: on_request_def verify_origin_def header_is_allowed_refused forbidden_def Let_def)
  next
    case host
    then show ?thesis
      using assms
      by (auto simp: on_request_def verify_origin_def verify_host_def header_is_allowed_refused forbidden_def Let_def
          split: if_splits)
  next
    case passes
    then have "ss_context s' = request_context_of glob_build req (ss_context s) \<and>
        ss_metadata s' = Some (fst (ss_meta_extractor s (ss_context s') (ww_env w)))"
      using assms
      by (auto simp: on_request_def verify_origin_def verify_host_def header_is_allowed_refused on_env_def Let_def case_prod_beta
          split: if_splits)
    then show ?thesis using passes by (auto simp: on_message_def Let_def case_prod_beta split: result.splits)
  qed
qed

definition demo_ws_session :: "(string, nat, unit, u64, nat, nat) ws_session" where
  "demo_ws_session = fst (connection_made 7
     (ws_factory_new default_handler (\<lambda>cx u. (length (cx_protocols cx), u))
        (Some []) None None None)
     \<lparr>ww_env = 0, ww_flags = [], ww_slabs = [], ww_signals = []\<rparr>)"

theorem handshake_decides_witness:
  "let req = \<lparr>wr_header = [''origin'' \<mapsto> ''http://evil.org''], wr_protocols = Ok []\<rparr>;
       w = \<lparr>ww_env = (0::nat), ww_flags = [True], ww_slabs = [[]], ww_signals = []\<rparr>
   in snd (on_request (\<lambda>g s. g = s) Some (\<lambda>req. Err ()) (\<lambda>p r. r) req demo_ws_session w) = (demo_ws_session, w)"
proof -
  let ?req = "\<lparr>wr_header = [''origin'' \<mapsto> ''http://evil.org''], wr_protocols = Ok []\<rparr> :: unit ws_request"
  let ?w = "\<lparr>ww_env = (0::nat), ww_flags = [True], ww_slabs = [[]], ww_signals = []\<rparr>"
  have m: "middleware_of demo_ws_session ?req = WsProceed"
    by (simp add: middleware_of_def demo_ws_session_def connection_made_def ws_factory_new_def Let_def)
  have r: "refused (origin_matches (\<lambda>g s. g = s)) (ss_allowed_origins demo_ws_session) (wr_header ?req ''origin'')"
    by (simp add: refused_def demo_ws_session_def connection_made_def ws_factory_new_def Let_def)
  obtain x s' w' where e: "on_request (\<lambda>g s. g = s) Some (\<lambda>req. Err ()) (\<lambda>p r. r) ?req demo_ws_session ?w = (x, s', w')"
    by (metis surj_pair)
  show ?thesis using handshake_decides [OF e] m r e by (simp add: Let_def)
qed

section \<open>A closed session is silent\<close>

text \<open>What the sessions of one server share: the handler and the functions of the libraries.\<close>

record ('g, 'e, 'n, 'x, 'msg, 'm, 'u) ws_server =
  sv_handler :: "('n, 'm, 'u) meta_io_handler"
  sv_is_match :: "'g \<Rightarrow> string \<Rightarrow> bool"
  sv_glob_build :: "string \<Rightarrow> 'g option"
  sv_from_request :: "'e ws_request \<Rightarrow> (ws_response, 'e) result"
  sv_set_protocol :: "string \<Rightarrow> ws_response \<Rightarrow> ws_response"
  sv_serde_from_str :: "string \<Rightarrow> ('n request, 'x) result"
  sv_to_string :: "'n response \<Rightarrow> string"
  sv_as_text :: "'msg \<Rightarrow> (string, 'e) result"

text \<open>Any operation of any session of the server.\<close>

inductive ws_step ::
    "('g, 'e, 'n, 'x, 'msg, 'm, 'u) ws_server \<Rightarrow> ('c, 'u, 'e, 'io, 'a) ws_ops \<Rightarrow> 'u ws_world \<Rightarrow> 'u ws_world \<Rightarrow> bool"
    for sv :: "('g, 'e, 'n, 'x, 'msg, 'm, 'u) ws_server" and ops :: "('c, 'u, 'e, 'io, 'a) ws_ops" where
  step_connection: "fc_handler (f :: ('g, 'c, 'e, 'n, 'm, 'u) ws_factory) = sv_handler sv \<Longrightarrow>
     connection_made sender f w = (s, f', w') \<Longrightarrow> ws_step sv ops w w'"
| step_request: "ss_handler (s :: ('g, 'c, 'e, 'n, 'm, 'u) ws_session) = sv_handler sv \<Longrightarrow>
     on_request (sv_is_match sv) (sv_glob_build sv) (sv_from_request sv) (sv_set_protocol sv) req s w = (r, s', w')
     \<Longrightarrow> ws_step sv ops w w'"
| step_message: "ss_handler (s :: ('g, 'c, 'e, 'n, 'm, 'u) ws_session) = sv_handler sv \<Longrightarrow>
     on_message (sv_serde_from_str sv) (sv_to_string sv) sched (wo_vacant ops) (sv_as_text sv) msg s w = (m, w')
     \<Longrightarrow> ws_step sv ops w w'"
| step_task: "ws_task_poll ops ready t w = (p, w') \<Longrightarrow> ws_step sv ops w w'"
| step_forward: "sender_future_poll ops sd vs closed w = (p, w') \<Longrightarrow> ws_step sv ops w w'"
| step_close: "ws_close ops sd code w = (res, w') \<Longrightarrow> ws_step sv ops w w'"
| step_broadcast: "ws_broadcast ops sd msg' w = (res, w') \<Longrightarrow> ws_step sv ops w w'"
| step_drop: "ss_handler (s :: ('g, 'c, 'e, 'n, 'm, 'u) ws_session) = sv_handler sv \<Longrightarrow> ws_step sv ops w (session_closed s w)"

text \<open>A flag that was cleared and a channel that was fired.\<close>

definition settled :: "nat \<Rightarrow> nat set \<Rightarrow> 'u ws_world \<Rightarrow> bool" where
  "settled a cs w \<longleftrightarrow> a < length (ww_flags w) \<and> \<not> ww_flags w ! a \<and>
     (\<forall>c\<in>cs. c < length (ww_signals w) \<and> ww_signals w ! c)"

lemma settled_env [simp]: "settled a cs (w\<lparr>ww_env := u\<rparr>) = settled a cs w"
  by (simp add: settled_def)

lemma settled_slabs [simp]: "settled a cs (w\<lparr>ww_slabs := x\<rparr>) = settled a cs w"
  by (simp add: settled_def)

lemma settled_flag: "settled a cs w \<Longrightarrow> settled a cs (w\<lparr>ww_flags := (ww_flags w)[b := False]\<rparr>)"
  by (cases "a = b") (simp_all add: settled_def)

lemma guarded_settled: "settled a cs w \<Longrightarrow> settled a cs (snd (guarded k s f w))"
  by (simp add: guarded_def on_env_def case_prod_beta split: result.splits)

lemma ws_send_settled: "settled a cs w \<Longrightarrow> ws_send ops s m w = (r, w') \<Longrightarrow> settled a cs w'"
  using guarded_settled [of a cs w "wo_io_kind ops" s] by (metis snd_conv ws_send_def)

lemma sender_future_settled: "settled a cs w \<Longrightarrow> settled a cs (snd (sender_future_poll ops s vs closed w))"
proof (induction vs arbitrary: w)
  case (Cons v vs)
  obtain r w' where "ws_send ops s v w = (r, w')" by fastforce
  then show ?case using Cons.prems Cons.IH [of w'] ws_send_settled [OF Cons.prems, of ops s v r w'] by (cases r) simp_all
qed simp

lemma send_response_settled:
  assumes "settled a cs w"
  shows "settled a cs (send_response ops t resp w)"
proof (cases resp)
  case (Some x)
  obtain r w' where s: "ws_send ops (wt_sender t) x w = (r, w')" by fastforce
  then have "settled a cs w'" using ws_send_settled [OF assms] by blast
  then show ?thesis
    using Some assms s settled_flag by (auto simp: send_response_def split: result.splits ws_error.splits)
qed (use assms in \<open>simp add: send_response_def\<close>)

lemma fire_all:
  "c < length sigs \<Longrightarrow> sigs ! c \<or> Some c \<in> snd ` set slab \<Longrightarrow>
   let sigs' = fold (\<lambda>(k, task) sigs. case task of Some c \<Rightarrow> sigs[c := True] | None \<Rightarrow> sigs) slab sigs
   in length sigs' = length sigs \<and> sigs' ! c"
proof (induction slab arbitrary: sigs)
  case (Cons x slab)
  obtain k task where x: "x = (k, task)" by (cases x)
  show ?case
  proof (cases task)
    case None
    then show ?thesis using Cons x by auto
  next
    case (Some d)
    then show ?thesis
      using Cons.IH [of "sigs[d := True]"] Cons.prems x by (cases "c = d") (auto simp: Let_def)
  qed
qed simp

lemma session_closed_settled:
  assumes "settled a cs w \<or> a = ss_active s \<and> a < length (ww_flags w) \<and> cs = {}"
    and "\<forall>c\<in>ds. c < length (ww_signals w) \<and> Some c \<in> snd ` set (ww_slabs w ! ss_task_slab s)"
  shows "settled a (cs \<union> ds) (session_closed s w)"
proof -
  let ?slab = "ww_slabs w ! ss_task_slab s"
  let ?sigs = "fold (\<lambda>(k, task) sigs. case task of Some c \<Rightarrow> sigs[c := True] | None \<Rightarrow> sigs) ?slab (ww_signals w)"
  have env: "ww_signals (session_closed s w) = ?sigs" "ww_flags (session_closed s w) = (ww_flags w)[ss_active s := False]"
    by (simp_all add: session_closed_def Let_def split: option.splits)
  have "c < length ?sigs \<and> ?sigs ! c" if "c \<in> cs \<union> ds" for c
    using fire_all [of c "ww_signals w" ?slab] that assms by (auto simp: settled_def Let_def)
  moreover have "a < length (ww_flags w)" "\<not> (ww_flags w)[ss_active s := False] ! a"
    using assms(1) by (cases "a = ss_active s"; auto simp: settled_def)+
  ultimately show ?thesis by (simp add: settled_def env)
qed

lemma ws_step_settled:
  assumes "ws_step sv ops w w'" "settled a cs w"
  shows "settled a cs w'"
  using assms(1)
proof cases
  case step_connection
  then show ?thesis
    using assms(2) by (auto simp: connection_made_def settled_def nth_append Let_def split: option.splits)
next
  case step_request
  then show ?thesis
    using assms(2) by (auto simp: on_request_def on_env_def Let_def case_prod_beta split: option.splits)
next
  case step_message
  then show ?thesis
    using assms(2)
    by (auto simp: on_message_def on_env_def liveness_create_def settled_def nth_append Let_def case_prod_beta
        split: result.splits option.splits)
next
  case step_task
  then show ?thesis
    using assms(2)
    by (auto simp: ws_task_poll_def liveness_drop_def intro!: send_response_settled
        split: option.splits poll.splits if_splits)
next
  case (step_forward sd vs closed p)
  then show ?thesis using assms(2) sender_future_settled [of a cs w ops sd vs closed] by simp
next
  case step_close
  then show ?thesis using assms(2) guarded_settled [of a cs w] by (metis snd_conv ws_close_def)
next
  case step_broadcast
  then show ?thesis using assms(2) guarded_settled [of a cs w] by (metis snd_conv ws_broadcast_def)
next
  case (step_drop s)
  then show ?thesis using assms(2) session_closed_settled [of a cs w s "{}"] by simp
qed

interpretation ws: invariant_system "settled a cs" "ws_step sv ops" "settled a cs" for a cs sv ops
  by unfold_locales (auto intro: ws_step_settled)

lemma settled_silent:
  assumes "settled (sd_active sd) cs w"
  shows "guarded k sd f w = (Err ConnectionClosed, w)"
  using assms by (simp add: guarded_def check_active_def flag_set_def settled_def)

lemma settled_task:
  assumes "settled (wt_active t) cs w" "lp_rx (wt_liveness t) \<in> cs"
  shows "fst (ws_task_poll ops ready t w) = Ready () \<and>
    ww_env (snd (ws_task_poll ops ready t w)) =
      (case (if ready then wt_response t (ww_env w) else None) of Some (_, u) \<Rightarrow> u | None \<Rightarrow> ww_env w)"
  using assms
  by (auto simp: ws_task_poll_def send_response_def flag_set_def settled_def liveness_drop_def liveness_poll_next_def
      split: option.splits)

text \<open>C17: a closed session is silent and its tasks end. After a session was dropped, whatever the
  server does afterwards with any of its sessions, a sender of the closed session sends, broadcasts
  and closes nothing and reports a closed connection, and every task of the session that was
  waiting in its slab ends at its next poll without sending its response (its effect on the
  environment is that of the response's own computation, if that was ready).\<close>

theorem closed_session_is_silent:
  assumes "ss_active s < length (ww_flags w)"
    and "reaches (ws_step sv ops) (session_closed s w) w1"
    and "sd_active sd = ss_active s"
    and "wt_active t = ss_active s"
    and "lp_rx (wt_liveness t) < length (ww_signals w)"
    and "(lp_slab_handle (wt_liveness t), Some (lp_rx (wt_liveness t))) \<in> set (ww_slabs w ! ss_task_slab s)"
  shows "ws_send ops sd msg w1 = (Err ConnectionClosed, w1) \<and>
    ws_broadcast ops sd msg w1 = (Err ConnectionClosed, w1) \<and>
    ws_close ops sd code w1 = (Err ConnectionClosed, w1) \<and>
    fst (ws_task_poll ops ready t w1) = Ready () \<and>
    ww_env (snd (ws_task_poll ops ready t w1)) =
      (case (if ready then wt_response t (ww_env w1) else None) of Some (_, u) \<Rightarrow> u | None \<Rightarrow> ww_env w1)"
proof -
  let ?c = "lp_rx (wt_liveness t)"
  have "Some ?c \<in> snd ` set (ww_slabs w ! ss_task_slab s)" using assms(6) by force
  then have "settled (ss_active s) ({} \<union> {?c}) (session_closed s w)"
    using session_closed_settled [of "ss_active s" "{}" w s "{?c}"] assms(1,5) by simp
  then have st: "settled (ss_active s) {?c} w1" using ws.inv_reaches [OF _ assms(2)] by simp
  then show ?thesis
    using settled_task [of t "{?c}" w1 ops ready] assms(3,4)
    by (simp add: ws_send_def ws_broadcast_def ws_close_def settled_silent [of sd "{?c}" w1])
qed

definition demo_ws_ops :: "(nat, nat, unit, unit, unit) ws_ops" where
  "demo_ws_ops = \<lparr>wo_send = (\<lambda>c m u. (Ok (), u + 1)), wo_broadcast = (\<lambda>c m u. (Ok (), u + 1)),
     wo_close = (\<lambda>c a u. (Ok (), u + 1)), wo_io_kind = (\<lambda>_. None), wo_vacant = length\<rparr>"

definition demo_ws_task :: "(nat, nat) ws_task" where
  "demo_ws_task = \<lparr>wt_response = (\<lambda>u. Some (Some ''reply'', u + 10)), wt_sender = \<lparr>sd_out = 7, sd_active = 0\<rparr>,
     wt_active = 0, wt_liveness = \<lparr>lp_task_slab = 0, lp_slab_handle = 0, lp_rx = 0\<rparr>\<rparr>"

definition demo_ws_world :: "nat ws_world" where
  "demo_ws_world = \<lparr>ww_env = 0, ww_flags = [True], ww_slabs = [[(0, Some 0)]], ww_signals = [False]\<rparr>"

theorem closed_session_is_silent_witness:
  "ws_send demo_ws_ops \<lparr>sd_out = 7, sd_active = 0\<rparr> ''late'' (session_closed demo_ws_session demo_ws_world) =
     (Err ConnectionClosed, session_closed demo_ws_session demo_ws_world) \<and>
   ww_env (snd (ws_task_poll demo_ws_ops True demo_ws_task (session_closed demo_ws_session demo_ws_world))) = 10"
proof -
  have s: "ss_active demo_ws_session = 0" "ss_task_slab demo_ws_session = 0" "ss_stats demo_ws_session = None"
    by (simp_all add: demo_ws_session_def connection_made_def ws_factory_new_def Let_def)
  then have "ww_env (session_closed demo_ws_session demo_ws_world) = 0"
    by (simp add: session_closed_def demo_ws_world_def Let_def)
  then show ?thesis
    using closed_session_is_silent [OF _ reaches_refl, of demo_ws_session demo_ws_world "\<lparr>sd_out = 7, sd_active = 0\<rparr>"
        demo_ws_task demo_ws_ops "''late''" "()" True] s
    by (simp add: demo_ws_world_def demo_ws_task_def)
qed

end
