(* ===== verification/Ws_Server.thy ===== *)
theory Ws_Server
  imports Ws Reactor
begin

text \<open>
  Starting and stopping the WebSocket server (\<open>ws/src/server_builder.rs\<close>, \<open>ws/src/server.rs\<close>): the builder,
  the settings of the socket, the server with its close handles, and the broadcaster.

  The socket is that of the \<open>ws\<close> crate: its default settings are an argument, and building, binding,
  running and shutting down are operations on an environment \<open>'u\<close>. Sizes are unbounded numbers, since they
  are only compared and divided.
\<close>

section \<open>The builder\<close>

record ('g, 'c, 'r, 'n, 'm, 'u, 'h) ws_builder =
  wb_handler :: "('n, 'm, 'u) meta_io_handler"
  wb_meta_extractor :: "('g, 'c) ws_context \<Rightarrow> 'u \<Rightarrow> 'm \<times> 'u"
  wb_allowed_origins :: "'g origin list option"
  wb_allowed_hosts :: "'g host list option"
  wb_request_middleware :: "('r ws_request \<Rightarrow> ws_middleware_action) option"
  wb_session_stats :: "'u session_stats option"
  wb_executor :: "'h uninitialized_executor"
  wb_max_connections :: nat
  wb_max_payload_bytes :: nat
  wb_max_in_buffer_capacity :: nat
  wb_max_out_buffer_capacity :: nat

definition ws_with_meta_extractor ::
    "('n, 'm, 'u) meta_io_handler \<Rightarrow> (('g, 'c) ws_context \<Rightarrow> 'u \<Rightarrow> 'm \<times> 'u) \<Rightarrow> ('g, 'c, 'r, 'n, 'm, 'u, 'h) ws_builder" where
  "ws_with_meta_extractor handler extractor =
     \<lparr>wb_handler = handler, wb_meta_extractor = extractor, wb_allowed_origins = None, wb_allowed_hosts = None,
      wb_request_middleware = None, wb_session_stats = None, wb_executor = Unspawned, wb_max_connections = 100,
      wb_max_payload_bytes = 5 * 1024 * 1024, wb_max_in_buffer_capacity = 10 * 1024 * 1024,
      wb_max_out_buffer_capacity = 10 * 1024 * 1024\<rparr>"

definition ws_builder_new :: "'m \<Rightarrow> ('n, 'm, 'u) meta_io_handler \<Rightarrow> ('g, 'c, 'r, 'n, 'm, 'u, 'h) ws_builder" where
  "ws_builder_new default_meta handler = ws_with_meta_extractor handler (ws_noop_extractor default_meta)"

definition ws_event_loop_executor where
  "ws_event_loop_executor executor b = b\<lparr>wb_executor := UninitShared executor\<rparr>"

definition ws_session_meta_extractor where
  "ws_session_meta_extractor extractor b = b\<lparr>wb_meta_extractor := extractor\<rparr>"

definition ws_allowed_origins where
  "ws_allowed_origins origins b = b\<lparr>wb_allowed_origins := domains_into_option origins\<rparr>"

definition ws_allowed_hosts where
  "ws_allowed_hosts hosts b = b\<lparr>wb_allowed_hosts := domains_into_option hosts\<rparr>"

definition ws_session_stats where
  "ws_session_stats stats b = b\<lparr>wb_session_stats := Some stats\<rparr>"

definition ws_request_middleware where
  "ws_request_middleware mw b = b\<lparr>wb_request_middleware := Some mw\<rparr>"

definition ws_max_connections where
  "ws_max_connections n b = b\<lparr>wb_max_connections := n\<rparr>"

definition ws_max_payload where
  "ws_max_payload n b = b\<lparr>wb_max_payload_bytes := n\<rparr>"

definition ws_max_in_buffer_capacity where
  "ws_max_in_buffer_capacity n b = b\<lparr>wb_max_in_buffer_capacity := n\<rparr>"

definition ws_max_out_buffer_capacity where
  "ws_max_out_buffer_capacity n b = b\<lparr>wb_max_out_buffer_capacity := n\<rparr>"

section \<open>The settings of the socket\<close>

text \<open>The fields of \<open>ws::Settings\<close> that the server reads or sets.\<close>

record ws_settings =
  st_max_connections :: nat
  st_max_fragment_size :: nat
  st_max_total_fragments_size :: nat
  st_in_buffer_capacity_hard_limit :: nat
  st_out_buffer_capacity_hard_limit :: nat
  st_fragment_size :: nat
  st_fragments_grow :: bool
  st_fragments_capacity :: nat
  st_method_strict :: bool
  st_masking_strict :: bool
  st_shutdown_on_interrupt :: bool

text \<open>\<open>None\<close> is the panic of a division by a fragment size of zero.\<close>

definition ws_config :: "ws_settings \<Rightarrow> nat \<Rightarrow> nat \<Rightarrow> nat \<Rightarrow> nat \<Rightarrow> ws_settings option" where
  "ws_config dflt max_connections max_payload_bytes max_in max_out =
     (if st_fragment_size dflt = 0 then None
      else
        let config = dflt\<lparr>st_max_connections := max_connections, st_max_fragment_size := max_payload_bytes,
              st_max_total_fragments_size := max_payload_bytes, st_in_buffer_capacity_hard_limit := max_in,
              st_out_buffer_capacity_hard_limit := max_out, st_fragments_grow := False,
              st_fragments_capacity := max 1 (max_payload_bytes div st_fragment_size dflt)\<rparr>;
            config = (if 4096 < st_fragments_capacity config
              then config\<lparr>st_fragments_capacity := 4096, st_fragments_grow := True\<rparr> else config)
        in Some (config\<lparr>st_method_strict := True, st_masking_strict := True, st_shutdown_on_interrupt := False\<rparr>))"

section \<open>The server\<close>

text \<open>Building a socket that makes sessions with a factory, its broadcaster, binding, asking for the bound
  address, running it on a thread of its own, joining that thread (\<open>None\<close> when the thread panicked),
  shutting down and sending on a broadcaster.\<close>

record ('g, 'c, 'r, 'n, 'm, 'u, 's, 'b, 'j, 'io, 'e, 'msg) ws_socket_ops =
  wk_build :: "ws_settings \<Rightarrow> ('g, 'c, 'r, 'n, 'm, 'u) ws_factory \<Rightarrow> 'u \<Rightarrow> ('s, 'e) result \<times> 'u"
  wk_broadcaster :: "'s \<Rightarrow> 'b"
  wk_bind :: "socket_addr \<Rightarrow> 's \<Rightarrow> 'u \<Rightarrow> ('s, 'e) result \<times> 'u"
  wk_local_addr :: "'s \<Rightarrow> 'u \<Rightarrow> (socket_addr, 'e) result \<times> 'u"
  wk_spawn_run :: "'s \<Rightarrow> 'u \<Rightarrow> 'j \<times> 'u"
  wk_join :: "'j \<Rightarrow> 'u \<Rightarrow> (unit, 'e) result option \<times> 'u"
  wk_shutdown :: "'b \<Rightarrow> 'u \<Rightarrow> (unit, 'e) result \<times> 'u"
  wk_send :: "'b \<Rightarrow> 'msg \<Rightarrow> 'u \<Rightarrow> (unit, 'e) result \<times> 'u"
  wk_as_io :: "'e \<Rightarrow> 'io option"

text \<open>\<open>wv_executor\<close> is shared with the close handles.\<close>

record ('h, 'c, 'j, 'b) ws_server_handle =
  wv_addr :: socket_addr
  wv_handle :: "'j option"
  wv_executor :: "('h, 'c) executor option"
  wv_broadcaster :: 'b

type_synonym ('u, 'a, 'io, 'e) ws_start_result = "(('a, ('io, 'e) ws_error) result \<times> 'u) option"

text \<open>The hosts that the sessions of a server accept.\<close>

definition ws_session_hosts ::
    "(string \<Rightarrow> 'g option) \<Rightarrow> ('g, 'c, 'r, 'n, 'm, 'u, 'h) ws_builder \<Rightarrow> socket_addr \<Rightarrow> 'g host list option" where
  "ws_session_hosts glob_build b addr = hosts_update glob_build (wb_allowed_hosts b) addr"

text \<open>An error gives up the event loop; \<open>None\<close> is a panic.\<close>

definition ws_try ::
    "('u, 'h, 'q, 'io) reactor_ops \<Rightarrow> ('e \<Rightarrow> 'io option) \<Rightarrow> ('h, 'q) executor \<Rightarrow> ('a, 'e) result \<times> 'u
     \<Rightarrow> ('a \<Rightarrow> 'u \<Rightarrow> ('u, 'v, 'io, 'e) ws_start_result) \<Rightarrow> ('u, 'v, 'io, 'e) ws_start_result" where
  "ws_try rx as_io eloop r k =
     (case r of (Ok a, u) \<Rightarrow> k a u | (Err e, u) \<Rightarrow> Some (Err (ws_error_from as_io e), executor_drop rx eloop u))"

definition ws_start ::
    "('u, 'h, 'q, 'io) reactor_ops \<Rightarrow> ('g, 'c, 'r, 'n, 'm, 'u, 's, 'b, 'j, 'io, 'e, 'msg) ws_socket_ops
     \<Rightarrow> (string \<Rightarrow> 'g option) \<Rightarrow> ws_settings \<Rightarrow> ('g, 'c, 'r, 'n, 'm, 'u, 'h) ws_builder \<Rightarrow> socket_addr \<Rightarrow> 'u
     \<Rightarrow> ('u, ('h, 'q, 'j, 'b) ws_server_handle, 'io, 'e) ws_start_result" where
  "ws_start rx wk glob_build dflt b addr u =
     (case ws_config dflt (wb_max_connections b) (wb_max_payload_bytes b) (wb_max_in_buffer_capacity b)
             (wb_max_out_buffer_capacity b) of
        None \<Rightarrow> None
      | Some config \<Rightarrow>
          (let allowed_hosts = ws_session_hosts glob_build b addr
           in case executor_initialize rx (wb_executor b) u of
                (Err e, u1) \<Rightarrow> Some (Err (WsIo e), u1)
              | (Ok eloop, u1) \<Rightarrow>
                  ws_try rx (wk_as_io wk) eloop
                    (wk_build wk config (ws_factory_new (wb_handler b) (wb_meta_extractor b) (wb_allowed_origins b)
                       allowed_hosts (wb_request_middleware b) (wb_session_stats b)) u1) (\<lambda>ws u2.
                  ws_try rx (wk_as_io wk) eloop (wk_bind wk addr ws u2) (\<lambda>ws' u3.
                  ws_try rx (wk_as_io wk) eloop (wk_local_addr wk ws' u3) (\<lambda>local_addr u4.
                    (case wk_spawn_run wk ws' u4 of
                       (handle, u5) \<Rightarrow>
                         Some (Ok \<lparr>wv_addr = local_addr, wv_handle = Some handle, wv_executor = Some eloop,
                                  wv_broadcaster = wk_broadcaster wk ws\<rparr>, u5)))))))"

text \<open>Closing: the socket is told to shut down, and the executor is closed if no handle closed it before.\<close>

definition ws_handle_close ::
    "('u, 'h, 'q, 'io) reactor_ops \<Rightarrow> ('b \<Rightarrow> 'u \<Rightarrow> (unit, 'e) result \<times> 'u) \<Rightarrow> 'b
     \<Rightarrow> ('h, 'q) executor option \<times> 'u \<Rightarrow> (('h, 'q) executor option \<times> 'u) option" where
  "ws_handle_close rx shutdown bc s =
     (case s of (ex, u) \<Rightarrow>
        (let u1 = snd (shutdown bc u)
         in case ex of
              None \<Rightarrow> Some (None, u1)
            | Some executor \<Rightarrow> map_option (\<lambda>u2. (None, u2)) (executor_close rx executor u1)))"

definition ws_server_drop where
  "ws_server_drop rx wk sv u =
     map_option (\<lambda>(ex, u1). case wv_handle sv of Some h \<Rightarrow> snd (wk_join wk h u1) | None \<Rightarrow> u1)
       (ws_handle_close rx (wk_shutdown wk) (wv_broadcaster sv) (wv_executor sv, u))"

text \<open>\<open>wait\<close> joins the thread, then the server is dropped. A server whose thread panicked, or that has no
  thread, panics.\<close>

definition ws_server_wait where
  "ws_server_wait rx wk sv u =
     Option.bind (wv_handle sv) (\<lambda>h.
       (case wk_join wk h u of
          (None, u1) \<Rightarrow> None
        | (Some r, u1) \<Rightarrow> map_option (\<lambda>u2. (map_err (ws_error_from (wk_as_io wk)) r, u2))
                            (ws_server_drop rx wk (sv\<lparr>wv_handle := None\<rparr>) u1)))"

definition ws_broadcaster_send where
  "ws_broadcaster_send wk bc msg u = apfst (map_err (ws_error_from (wk_as_io wk))) (wk_send wk bc msg u)"

text \<open>What a server gives out: its address, a broadcaster, and a close handle, which shares the executor. Closing
  a server closes a handle of it; then the server is dropped.\<close>

definition ws_addr :: "('h, 'q, 'j, 'b) ws_server_handle \<Rightarrow> socket_addr" where
  "ws_addr sv = wv_addr sv"

definition ws_broadcaster :: "('h, 'q, 'j, 'b) ws_server_handle \<Rightarrow> 'b" where
  "ws_broadcaster sv = wv_broadcaster sv"

definition ws_close_handle :: "('h, 'q, 'j, 'b) ws_server_handle \<Rightarrow> ('h, 'q) executor option \<times> 'b" where
  "ws_close_handle sv = (wv_executor sv, wv_broadcaster sv)"

definition ws_server_close where
  "ws_server_close rx wk sv u =
     (case ws_close_handle sv of (executor, broadcaster) \<Rightarrow>
        Option.bind (ws_handle_close rx (wk_shutdown wk) broadcaster (executor, u)) (\<lambda>(ex, u1).
          ws_server_drop rx wk (sv\<lparr>wv_executor := ex\<rparr>) u1))"

text \<open>The builder passes its fields on.\<close>

definition ws_builder_start where
  "ws_builder_start rx wk glob_build dflt b addr u = ws_start rx wk glob_build dflt b addr u"

section \<open>Settings fit the payload\<close>

text \<open>The settings of the socket fit the largest payload. They never ask for more than 4096 fragments
  in advance and always for at least one; more are allowed exactly when the payload has more than 4096
  full fragments; and otherwise every payload up to the limit fits into the fragments, but for less than
  one more fragment. The handshake is strict about its method and the masks of frames.\<close>

theorem ws_settings_fit:
  assumes "0 < st_fragment_size dflt"
  shows "\<exists>config. ws_config dflt conns payload max_in max_out = Some config \<and>
    1 \<le> st_fragments_capacity config \<and> st_fragments_capacity config \<le> 4096 \<and>
    (st_fragments_grow config \<longleftrightarrow> 4097 * st_fragment_size config \<le> payload) \<and>
    (st_fragments_grow config \<or> payload < Suc (st_fragments_capacity config) * st_fragment_size config) \<and>
    st_fragment_size config = st_fragment_size dflt \<and> st_max_fragment_size config = payload \<and>
    st_max_total_fragments_size config = payload \<and> st_max_connections config = conns \<and>
    st_method_strict config \<and> st_masking_strict config \<and> \<not> st_shutdown_on_interrupt config"
proof -
  let ?q = "payload div st_fragment_size dflt"
  have big: "4096 < max 1 ?q \<longleftrightarrow> 4097 * st_fragment_size dflt \<le> payload"
    using less_eq_div_iff_mult_less_eq [OF assms, of 4097 payload] by auto
  have "payload < Suc ?q * st_fragment_size dflt"
    using assms by (metis dividend_less_div_times mult_Suc add.commute)
  also have "\<dots> \<le> Suc (max 1 ?q) * st_fragment_size dflt" by simp
  finally show ?thesis
    using assms big by (cases "4097 * st_fragment_size dflt \<le> payload") (simp_all add: ws_config_def Let_def)
qed

theorem ws_settings_fit_witness:
  "\<exists>config. ws_config \<lparr>st_max_connections = 100, st_max_fragment_size = 0, st_max_total_fragments_size = 0,
      st_in_buffer_capacity_hard_limit = 0, st_out_buffer_capacity_hard_limit = 0, st_fragment_size = 65535, st_fragments_grow = True,
      st_fragments_capacity = 10, st_method_strict = False, st_masking_strict = False, st_shutdown_on_interrupt = True\<rparr>
      100 5242880 0 0 = Some config \<and> \<not> st_fragments_grow config \<and> st_fragments_capacity config \<le> 4096"
  using ws_settings_fit [of "\<lparr>st_max_connections = 100, st_max_fragment_size = 0, st_max_total_fragments_size = 0,
      st_in_buffer_capacity_hard_limit = 0, st_out_buffer_capacity_hard_limit = 0, st_fragment_size = 65535, st_fragments_grow = True,
      st_fragments_capacity = 10, st_method_strict = False, st_masking_strict = False, st_shutdown_on_interrupt = True\<rparr>"
      100 5242880 0 0] by fastforce

section \<open>Closing a server\<close>

lemma ws_start_server:
  assumes "ws_start rx wk glob_build dflt b addr u = Some (Ok sv, u')"
  shows "\<exists>eloop handle. wv_executor sv = Some eloop \<and> executor_live eloop \<and> wv_handle sv = Some handle"
proof -
  obtain config where c: "ws_config dflt (wb_max_connections b) (wb_max_payload_bytes b) (wb_max_in_buffer_capacity b)
      (wb_max_out_buffer_capacity b) = Some config"
    using assms by (auto simp: ws_start_def split: option.splits)
  obtain r u1 where i: "executor_initialize rx (wb_executor b) u = (r, u1)" by fastforce
  with assms c obtain eloop where r: "r = Ok eloop" by (cases r) (auto simp: ws_start_def)
  have "executor_live eloop" using initialized_live i r by (fastforce simp: executor_initialize_def)
  moreover have "wv_executor sv = Some eloop \<and> wv_handle sv \<noteq> None"
    using assms c i r by (auto simp: ws_start_def ws_try_def split: prod.splits result.splits)
  ultimately show ?thesis by auto
qed

fun ws_stop where
  "ws_stop rx shutdown bc None u = snd (shutdown bc u)"
| "ws_stop rx shutdown bc (Some ex) u = executor_drop rx ex (snd (shutdown bc u))"

interpretation ws_closing: closable "ws_handle_close rx shutdown bc" "\<lambda>ex. \<exists>e. ex = Some e \<and> executor_live e" "\<lambda>ex. ex = None"
    "ws_stop rx shutdown bc" "\<lambda>_ u. snd (shutdown bc u)"
  for rx :: "('u, 'h, 'q, 'io) reactor_ops" and shutdown :: "'b \<Rightarrow> 'u \<Rightarrow> (unit, 'e) result \<times> 'u" and bc :: 'b
  by unfold_locales (auto simp: ws_handle_close_def close_is_drop)

text \<open>Closing a started WebSocket server, from any number of close handles and by dropping it, never
  panics and ends its event loop exactly once, after the socket was told to shut down; a later close only
  repeats the shutdown of the socket. Dropping the closed server then waits for the thread of the socket.\<close>

theorem ws_server_closes_once:
  assumes "ws_start rx wk glob_build dflt b addr u = Some (Ok sv, u1)"
  shows "\<exists>eloop handle. wv_executor sv = Some eloop \<and> wv_handle sv = Some handle \<and>
    close_times (ws_handle_close rx (wk_shutdown wk) (wv_broadcaster sv)) (Suc n) (wv_executor sv, u2) =
      Some (None, ((\<lambda>u. snd (wk_shutdown wk (wv_broadcaster sv) u)) ^^ n)
        (executor_drop rx eloop (snd (wk_shutdown wk (wv_broadcaster sv) u2)))) \<and>
    ws_server_drop rx wk (sv\<lparr>wv_executor := None\<rparr>) u2 =
      Some (snd (wk_join wk handle (snd (wk_shutdown wk (wv_broadcaster sv) u2))))"
proof -
  obtain eloop handle where sv: "wv_executor sv = Some eloop" "executor_live eloop" "wv_handle sv = Some handle"
    using ws_start_server [OF assms] by blast
  then show ?thesis
    using ws_closing.closes_once [of "Some eloop" rx "wk_shutdown wk" "wv_broadcaster sv" n u2]
    by (simp add: ws_server_drop_def ws_handle_close_def del: close_times.simps)
qed

text \<open>Closing a started server does not panic, ends its event loop once and waits for the thread of the socket; the
  socket is told to shut down twice, by the close handle and by the drop of the server.\<close>

theorem ws_close_waits:
  assumes "ws_builder_start rx wk glob_build dflt b addr u = Some (Ok sv, u1)"
  shows "\<exists>eloop handle. wv_executor sv = Some eloop \<and> wv_handle sv = Some handle \<and>
    ws_server_close rx wk sv u2 = Some (snd (wk_join wk handle (snd (wk_shutdown wk (ws_broadcaster sv)
      (executor_drop rx eloop (snd (wk_shutdown wk (ws_broadcaster sv) u2)))))))"
proof -
  obtain eloop handle where sv: "wv_executor sv = Some eloop" "executor_live eloop" "wv_handle sv = Some handle"
    using ws_start_server [OF assms [unfolded ws_builder_start_def]] by blast
  then show ?thesis
    by (simp add: ws_server_close_def ws_close_handle_def ws_broadcaster_def ws_handle_close_def ws_server_drop_def close_is_drop)
qed

text \<open>A socket that logs what is done with it.\<close>

definition demo_settings :: ws_settings where
  "demo_settings = \<lparr>st_max_connections = 100, st_max_fragment_size = 0, st_max_total_fragments_size = 0,
      st_in_buffer_capacity_hard_limit = 0, st_out_buffer_capacity_hard_limit = 0, st_fragment_size = 65535, st_fragments_grow = True,
      st_fragments_capacity = 10, st_method_strict = False, st_masking_strict = False, st_shutdown_on_interrupt = True\<rparr>"

definition demo_socket ::
    "(string, nat, unit, nat, unit, string list, unit, unit, unit, unit, unit, unit) ws_socket_ops" where
  "demo_socket = \<lparr>wk_build = (\<lambda>_ _ u. (Ok (), u)), wk_broadcaster = (\<lambda>_. ()), wk_bind = (\<lambda>_ _ u. (Ok (), u)),
     wk_local_addr = (\<lambda>_ u. (Ok (SocketV4 127 0 0 1 8545), u)), wk_spawn_run = (\<lambda>_ u. ((), u)),
     wk_join = (\<lambda>_ u. (Some (Ok ()), u @ [''join''])), wk_shutdown = (\<lambda>_ u. (Ok (), u @ [''shutdown''])),
     wk_send = (\<lambda>_ _ u. (Ok (), u)), wk_as_io = (\<lambda>_. None)\<rparr>"

theorem ws_server_closes_once_witness:
  "close_times (ws_handle_close log_reactor (wk_shutdown demo_socket) ()) (Suc 1)
     (Some (ExecSpawned \<lparr>el_executor = (), el_close = Some ''stop'', el_runtime = Some ()\<rparr>), []) =
   Some (None, [''shutdown'', ''signal stop'', ''end'', ''shutdown''])"
  using ws_server_closes_once [of log_reactor demo_socket Some demo_settings
      "ws_builder_new () (default_handler :: (nat, unit, string list) meta_io_handler)" "SocketV4 127 0 0 1 0" "[]"
      "\<lparr>wv_addr = SocketV4 127 0 0 1 8545, wv_handle = Some (),
        wv_executor = Some (ExecSpawned \<lparr>el_executor = (), el_close = Some ''stop'', el_runtime = Some ()\<rparr>), wv_broadcaster = ()\<rparr>"
      "[''build'']" 1 "[]"]
  by (simp add: ws_start_def ws_try_def ws_config_def demo_settings_def demo_socket_def ws_builder_new_def ws_with_meta_extractor_def
      log_reactor_def executor_initialize_def event_loop_with_name_def event_loop_drop_def)

section \<open>Hosts of a server\<close>

text \<open>The hosts are completed by the address that was asked for, not by the one the socket is bound to: a
  server that asks for any port refuses requests that name its own address.\<close>

lemma demo_addresses:
  "socket_addr_text (SocketV4 10 0 0 1 8545) = ''10.0.0.1:8545''" "socket_addr_text (SocketV4 10 0 0 1 0) = ''10.0.0.1:0''"
  by (simp_all add: ipv4_text_def u8_text_def u16_text_def dec_of_nat.simps digit_char_def char_of_def bit_Suc_0_iff)

theorem ws_own_address_refused:
  "\<not> is_host_valid eq_ignore_ascii_case (Some (socket_addr_text (SocketV4 10 0 0 1 8545)))
      (ws_session_hosts (\<lambda>s. if glob_plain s then Some s else None)
        (ws_allowed_hosts (AllowOnly []) (ws_builder_new () (default_handler :: (nat, unit, nat) meta_io_handler)))
        (SocketV4 10 0 0 1 0))"
proof -
  have h: "host_parse gb (socket_addr_text (SocketV4 10 0 0 1 0)) = host_new gb (ipv4_text 10 0 0 1) (PortFixed 0)"
    for gb :: "string \<Rightarrow> string option"
    using host_parse_text [of "ipv4_text 10 0 0 1" "PortFixed 0" gb] ipv4_text_ok [of 10 0 0 1] by simp
  have "host_to_string (ipv4_text 10 0 0 1) (PortFixed 0) = ''10.0.0.1:0''" using demo_addresses(2) by simp
  then show ?thesis
    unfolding ws_session_hosts_def ws_allowed_hosts_def hosts_update_def
    by (simp add: hosts_insert_def h host_matches_def host_new_def matcher_new_def demo_addresses(1) pre_process_clean
        ipv4_text_ok Let_def eq_ignore_ascii_case_def to_lowercase_def del: socket_addr_text.simps)
qed

end
