(* ===== verification/Stream_Merge.thy ===== *)
theory Stream_Merge
  imports Prelude
begin

text \<open>
  Streams that merge two sources. A stream is polled and gives its next item, says that it has
  ended, or that nothing is ready. The transports merge the responses of a connection with the
  messages pushed to it (\<open>tcp/src/dispatch.rs\<close>, \<open>ipc/src/select_with_weak.rs\<close>); the locale states
  what such a merge promises, and what follows for a whole run.
\<close>

type_synonym ('s, 'a) stream = "'s \<Rightarrow> 'a option poll \<times> 's"

text \<open>The stream of a channel: the queued items, and whether the sending side is closed.\<close>

fun chan_poll :: "('a list \<times> bool, 'a) stream" where
  "chan_poll (x # xs, closed) = (Ready (Some x), (xs, closed))"
| "chan_poll ([], True) = (Ready None, ([], True))"
| "chan_poll ([], False) = (Pending, ([], False))"

text \<open>Sending on a channel and closing it; a closed channel takes no items.\<close>

fun chan_send :: "'a \<Rightarrow> 'a list \<times> bool \<Rightarrow> 'a list \<times> bool" where
  "chan_send x (xs, closed) = (if closed then xs else xs @ [x], closed)"

definition chan_close :: "'a list \<times> bool \<Rightarrow> 'a list \<times> bool" where
  "chan_close c = (fst c, True)"

lemma chan_poll_Ready: "chan_poll c = (Ready (Some x), c') \<longleftrightarrow> fst c = x # fst c' \<and> snd c' = snd c"
  by (cases c rule: chan_poll.cases) auto

lemma chan_poll_None: "chan_poll c = (Ready None, c') \<longleftrightarrow> c = ([], True) \<and> c' = c"
  by (cases c rule: chan_poll.cases) auto

lemma chan_poll_Pending: "chan_poll c = (Pending, c') \<longleftrightarrow> c = ([], False) \<and> c' = c"
  by (cases c rule: chan_poll.cases) auto

lemmas chan_poll_results = chan_poll_Ready chan_poll_None chan_poll_Pending

section \<open>Runs of a merged stream\<close>

text \<open>A run: sources are fed and the stream is polled, in any order. The run records what the two
  sources took and what the polls gave.\<close>

record ('q, 'a) merge_run =
  mr_queue :: 'q
  mr_left :: "'a list"
  mr_right :: "'a list"
  mr_polls :: "'a option poll list"

definition merge_start :: "'q \<Rightarrow> ('q, 'a) merge_run" where
  "merge_start q = \<lparr>mr_queue = q, mr_left = [], mr_right = [], mr_polls = []\<rparr>"

datatype 'f merge_event = Feed 'f | Poll

fun do_event ::
    "('q \<Rightarrow> 'a option poll \<times> 'q) \<Rightarrow> ('f \<Rightarrow> 'q \<Rightarrow> 'q) \<Rightarrow> ('f \<Rightarrow> 'q \<Rightarrow> 'a list \<times> 'a list) \<Rightarrow> 'f merge_event
     \<Rightarrow> ('q, 'a) merge_run \<Rightarrow> ('q, 'a) merge_run" where
  "do_event poll feed fed (Feed f) r =
     r\<lparr>mr_queue := feed f (mr_queue r), mr_left := mr_left r @ fst (fed f (mr_queue r)),
       mr_right := mr_right r @ snd (fed f (mr_queue r))\<rparr>"
| "do_event poll feed fed Poll r =
     r\<lparr>mr_queue := snd (poll (mr_queue r)), mr_polls := mr_polls r @ [fst (poll (mr_queue r))]\<rparr>"

definition delivered :: "'a option poll list \<Rightarrow> 'a list" where
  "delivered ps = concat (map (\<lambda>p. case p of Ready (Some x) \<Rightarrow> [x] | _ \<Rightarrow> []) ps)"

lemma delivered_snoc [simp]:
  "delivered (ps @ [p]) = delivered ps @ (case p of Ready (Some x) \<Rightarrow> [x] | _ \<Rightarrow> [])"
  by (simp add: delivered_def)

lemma delivered_Nil [simp]: "delivered [] = []"
  by (simp add: delivered_def)

lemma snoc_in_shuffles_left: "zs \<in> shuffles xs ys \<Longrightarrow> zs @ [x] \<in> shuffles (xs @ [x]) ys"
proof (induction xs ys arbitrary: zs rule: shuffles.induct)
  case (1 ys)
  then show ?case by (induction ys arbitrary: zs) (auto intro: Cons_in_shuffles_rightI)
qed (auto intro: Cons_in_shuffles_leftI Cons_in_shuffles_rightI)

lemma snoc_in_shuffles_right: "zs \<in> shuffles xs ys \<Longrightarrow> zs @ [y] \<in> shuffles xs (ys @ [y])"
  using snoc_in_shuffles_left [of zs ys xs y] by (simp add: shuffles_commutes)

section \<open>What a merge promises\<close>

locale merged_stream =
  fixes poll :: "'q \<Rightarrow> 'a option poll \<times> 'q"
    and feed :: "'f \<Rightarrow> 'q \<Rightarrow> 'q"
    and fed :: "'f \<Rightarrow> 'q \<Rightarrow> 'a list \<times> 'a list"
    and left :: "'q \<Rightarrow> 'a list"
    and right :: "'q \<Rightarrow> 'a list"
    and finished :: "'q \<Rightarrow> bool"
    and valid :: "'q \<Rightarrow> bool"
  assumes poll_item: "poll q = (Ready (Some x), q') \<Longrightarrow>
      left q = x # left q' \<and> right q' = right q \<or> right q = x # right q' \<and> left q' = left q"
    and poll_idle: "poll q = (r, q') \<Longrightarrow> r = Pending \<or> r = Ready None \<Longrightarrow> left q' = left q \<and> right q' = right q"
    and poll_end: "valid q \<Longrightarrow> poll q = (Ready None, q') \<Longrightarrow> finished q'"
    and poll_valid: "valid q \<Longrightarrow> valid (snd (poll q))"
    and feed_valid: "valid q \<Longrightarrow> valid (feed f q)"
    and poll_finished: "finished q \<Longrightarrow> finished (snd (poll q))"
    and feed_left: "left (feed f q) = left q @ fst (fed f q)"
    and feed_right: "right (feed f q) = right q @ snd (fed f q)"
    and feed_finished: "finished q \<Longrightarrow> finished (feed f q)"
begin

lemma event_shuffle:
  assumes "delivered (mr_polls r) \<in> shuffles xs ys"
    and "mr_left r = xs @ left (mr_queue r)" "mr_right r = ys @ right (mr_queue r)"
  shows "\<exists>xs ys. delivered (mr_polls (do_event poll feed fed e r)) \<in> shuffles xs ys \<and>
    mr_left (do_event poll feed fed e r) = xs @ left (mr_queue (do_event poll feed fed e r)) \<and>
    mr_right (do_event poll feed fed e r) = ys @ right (mr_queue (do_event poll feed fed e r))"
proof (cases e)
  case (Feed f)
  then show ?thesis using assms by (auto simp: feed_left feed_right intro!: exI [of _ xs] exI [of _ ys])
next
  case Poll
  obtain p q' where p: "poll (mr_queue r) = (p, q')" by fastforce
  show ?thesis
  proof (cases "\<exists>x. p = Ready (Some x)")
    case True
    then obtain x where x: "p = Ready (Some x)" by blast
    from poll_item [OF p [unfolded x]] show ?thesis
    proof
      assume "left (mr_queue r) = x # left q' \<and> right q' = right (mr_queue r)"
      then show ?thesis
        using Poll p x assms snoc_in_shuffles_left [OF assms(1), of x]
        by (intro exI [of _ "xs @ [x]"] exI [of _ ys]) simp
    next
      assume "right (mr_queue r) = x # right q' \<and> left q' = left (mr_queue r)"
      then show ?thesis
        using Poll p x assms snoc_in_shuffles_right [OF assms(1), of x]
        by (intro exI [of _ xs] exI [of _ "ys @ [x]"]) simp
    qed
  next
    case False
    then have "p = Pending \<or> p = Ready None" by (metis option.exhaust poll.exhaust)
    then show ?thesis
      using Poll p assms poll_idle [OF p] by (intro exI [of _ xs] exI [of _ ys]) auto
  qed
qed

lemma run_shuffle:
  assumes "delivered (mr_polls r) \<in> shuffles xs ys"
    and "mr_left r = xs @ left (mr_queue r)" "mr_right r = ys @ right (mr_queue r)"
  shows "\<exists>xs ys. delivered (mr_polls (fold (do_event poll feed fed) es r)) \<in> shuffles xs ys \<and>
    mr_left (fold (do_event poll feed fed) es r) = xs @ left (mr_queue (fold (do_event poll feed fed) es r)) \<and>
    mr_right (fold (do_event poll feed fed) es r) = ys @ right (mr_queue (fold (do_event poll feed fed) es r))"
  using assms
proof (induction es arbitrary: r xs ys)
  case (Cons e es)
  obtain xs' ys' where e: "delivered (mr_polls (do_event poll feed fed e r)) \<in> shuffles xs' ys'"
    "mr_left (do_event poll feed fed e r) = xs' @ left (mr_queue (do_event poll feed fed e r))"
    "mr_right (do_event poll feed fed e r) = ys' @ right (mr_queue (do_event poll feed fed e r))"
    using event_shuffle [OF Cons.prems, of e] by blast
  show ?case using Cons.IH [OF e] by simp
qed auto

lemma run_finished:
  assumes "valid (mr_queue r)" "Ready None \<in> set (mr_polls r) \<Longrightarrow> finished (mr_queue r)"
    and "Ready None \<in> set (mr_polls (fold (do_event poll feed fed) es r))"
  shows "finished (mr_queue (fold (do_event poll feed fed) es r))"
  using assms
proof (induction es arbitrary: r)
  case (Cons e es)
  have "valid (mr_queue (do_event poll feed fed e r))"
    using Cons.prems(1) by (cases e) (simp_all add: poll_valid feed_valid)
  moreover have "finished (mr_queue (do_event poll feed fed e r))"
    if "Ready None \<in> set (mr_polls (do_event poll feed fed e r))"
    using that Cons.prems(1,2) poll_end [of "mr_queue r"] poll_finished [of "mr_queue r"] feed_finished [of "mr_queue r"]
    by (cases e) (auto simp: prod_eq_iff)
  ultimately show ?case using Cons.IH [of "do_event poll feed fed e r"] Cons.prems(3) by simp
qed simp

lemma run_from_start:
  assumes "left q = []" "right q = []" "valid q" "fold (do_event poll feed fed) es (merge_start q) = run"
  shows "\<exists>xs ys. delivered (mr_polls run) \<in> shuffles xs ys \<and> mr_left run = xs @ left (mr_queue run) \<and>
    mr_right run = ys @ right (mr_queue run) \<and> (Ready None \<in> set (mr_polls run) \<longrightarrow> finished (mr_queue run))"
proof -
  let ?r = "merge_start q :: ('q, 'a) merge_run"
  have start: "delivered (mr_polls ?r) \<in> shuffles [] []" "mr_left ?r = [] @ left (mr_queue ?r)"
    "mr_right ?r = [] @ right (mr_queue ?r)" "mr_polls ?r = []" "valid (mr_queue ?r)"
    using assms(1-3) by (simp_all add: merge_start_def)
  have "finished (mr_queue run)" if "Ready None \<in> set (mr_polls run)"
    unfolding assms(4) [symmetric] by (rule run_finished) (use start(4,5) that assms(4) in auto)
  then show ?thesis using run_shuffle [OF start(1-3), of es] assms(4) by auto
qed

end

end
