(* ===== verification/Tcp.thy ===== *)
theory Tcp
  imports Core_Handler Hosts Stream_Merge
begin

text \<open>
  The TCP server's connections (\<open>tcp/src/dispatch.rs\<close>, \<open>tcp/src/service.rs\<close>, \<open>tcp/src/meta.rs\<close>
  and the connection handler of \<open>tcp/src/server.rs\<close>): the queue that merges a peer's responses with
  the messages pushed to it, the dispatcher, and the registration of peers.

  Streams are polled through an argument that gives the next item and the stream's next state; the
  channels a peer's messages are pushed to are values of a type of their own, and sending on them
  is an argument acting on the environment.
\<close>

section \<open>The queue of a peer\<close>

record ('s, 'r) peer_message_queue =
  pq_up :: 's
  pq_receiver :: "'r option"
  pq_addr :: socket_addr

definition peer_queue_new :: "'s \<Rightarrow> 'r \<Rightarrow> socket_addr \<Rightarrow> ('s, 'r) peer_message_queue" where
  "peer_queue_new response_stream receiver addr =
     \<lparr>pq_up = response_stream, pq_receiver = Some receiver, pq_addr = addr\<rparr>"

definition peer_queue_poll ::
    "('s, (string, 'e) result) stream \<Rightarrow> ('r, string) stream \<Rightarrow> ('s, 'r) peer_message_queue
     \<Rightarrow> (string, 'e) result option poll \<times> ('s, 'r) peer_message_queue" where
  "peer_queue_poll poll_up poll_rx q =
     (case poll_up (pq_up q) of
        (Ready (Some (Ok item)), s) \<Rightarrow> (Ready (Some (Ok item)), q\<lparr>pq_up := s\<rparr>)
      | (Ready (Some (Err e)), s) \<Rightarrow> (Ready (Some (Err e)), q\<lparr>pq_up := s\<rparr>)
      | (up, s) \<Rightarrow>
          (let up_closed = (up = Ready None); q = q\<lparr>pq_up := s\<rparr>
           in case pq_receiver q of
                None \<Rightarrow> (Ready None, q)
              | Some rx \<Rightarrow>
                  (case poll_rx rx of
                     (Ready (Some item), rx') \<Rightarrow> (Ready (Some (Ok item)), q\<lparr>pq_receiver := Some rx'\<rparr>)
                   | (_, rx') \<Rightarrow>
                       if up_closed then (Ready None, q\<lparr>pq_receiver := None\<rparr>)
                       else (Pending, q\<lparr>pq_receiver := Some rx'\<rparr>))))"

section \<open>The dispatcher\<close>

datatype 'x push_message_error = NoSuchPeer | PushSend 'x

type_synonym 'c sender_channels = "(socket_addr, 'c) hash_map"

definition push_message ::
    "('c \<Rightarrow> string \<Rightarrow> 'u \<Rightarrow> (unit, 'x) result \<times> 'u) \<Rightarrow> 'c sender_channels \<Rightarrow> socket_addr \<Rightarrow> string \<Rightarrow> 'u
     \<Rightarrow> (unit, 'x push_message_error) result \<times> 'u" where
  "push_message send channels peer_addr msg u =
     (case map_of channels peer_addr of
        Some channel \<Rightarrow> apfst (map_err PushSend) (send channel msg u)
      | None \<Rightarrow> (Err NoSuchPeer, u))"

definition is_connected :: "'c sender_channels \<Rightarrow> socket_addr \<Rightarrow> bool" where
  "is_connected channels addr \<longleftrightarrow> map_of channels addr \<noteq> None"

definition peer_count :: "'c sender_channels \<Rightarrow> nat" where
  "peer_count channels = length channels"

section \<open>Connections\<close>

record ('n, 'm, 'w) tcp_service =
  ts_handler :: "('n, 'm, 'w) meta_io_handler"
  ts_peer_addr :: socket_addr
  ts_meta :: 'm

definition tcp_service_new :: "socket_addr \<Rightarrow> ('n, 'm, 'w) meta_io_handler \<Rightarrow> 'm \<Rightarrow> ('n, 'm, 'w) tcp_service" where
  "tcp_service_new peer_addr handler meta = \<lparr>ts_handler = handler, ts_peer_addr = peer_addr, ts_meta = meta\<rparr>"

definition tcp_service_call ::
    "(string \<Rightarrow> ('n request, 'x) result) \<Rightarrow> ('n response \<Rightarrow> string) \<Rightarrow> nat list \<Rightarrow> ('n, 'm, 'w) tcp_service \<Rightarrow> string \<Rightarrow> 'w
     \<Rightarrow> ('w, (string option, unit) result) fut \<times> 'w" where
  "tcp_service_call serde_from_str to_string sched sv req w =
     apfst (fut_map Ok) (handle_request serde_from_str to_string sched (ts_handler sv) req (ts_meta sv) w)"

text \<open>What is written for the outcome of a call: an empty message when there is no response.\<close>

fun response_message :: "(string option, unit) result \<Rightarrow> string" where
  "response_message (Err _) = []"
| "response_message (Ok None) = []"
| "response_message (Ok (Some response_data)) = response_data"

record 'c tcp_context =
  tc_peer_addr :: socket_addr
  tc_sender :: 'c

definition tcp_noop_extractor :: "'m \<Rightarrow> 'c tcp_context \<Rightarrow> 'm" where
  "tcp_noop_extractor dflt cx = dflt"

text \<open>A new connection: nothing happens when the peer's address is unknown; otherwise a channel is
  created and registered and the connection has its service and its queue.\<close>

definition tcp_accept ::
    "('u \<Rightarrow> ('c \<times> 'r) \<times> 'u) \<Rightarrow> ('c tcp_context \<Rightarrow> 'm) \<Rightarrow> ('n, 'm, 'w) meta_io_handler \<Rightarrow> 's \<Rightarrow> (socket_addr, 'e) result
     \<Rightarrow> 'c sender_channels \<Rightarrow> 'u
     \<Rightarrow> (('n, 'm, 'w) tcp_service \<times> ('s, 'r) peer_message_queue) option \<times> 'c sender_channels \<times> 'u" where
  "tcp_accept unbounded extract rpc_handler responses addr channels u =
     (case addr of
        Err e \<Rightarrow> (None, channels, u)
      | Ok peer_addr \<Rightarrow>
          (let ((sender, receiver), u1) = unbounded u;
               meta = extract \<lparr>tc_peer_addr = peer_addr, tc_sender = sender\<rparr>
           in (Some (tcp_service_new peer_addr rpc_handler meta, peer_queue_new responses receiver peer_addr),
               snd (hm_insert peer_addr sender channels), u1)))"

text \<open>The end of a connection, with the result of writing the whole queue to the socket.\<close>

definition tcp_finished :: "socket_addr \<Rightarrow> (unit, 'e) result \<Rightarrow> 'c sender_channels \<Rightarrow> (unit, 'e) result \<times> 'c sender_channels" where
  "tcp_finished peer_addr written channels =
     (case written of
        Err e \<Rightarrow> (Err e, channels)
      | Ok _ \<Rightarrow> (Ok (), snd (hm_remove peer_addr channels)))"

section \<open>A peer's queue loses nothing\<close>

text \<open>Feeding a peer's queue: the connection's responses and the messages pushed to the peer, both
  channels, and the end of the responses. The receiver may be gone.\<close>

datatype 'e peer_feed = Respond "(string, 'e) result" | RespondEnd | PushMessage string

type_synonym 'e peer_queue = "((string, 'e) result list \<times> bool, string list \<times> bool) peer_message_queue"

fun feed_peer :: "'e peer_feed \<Rightarrow> 'e peer_queue \<Rightarrow> 'e peer_queue" where
  "feed_peer (Respond r) q = q\<lparr>pq_up := chan_send r (pq_up q)\<rparr>"
| "feed_peer RespondEnd q = q\<lparr>pq_up := chan_close (pq_up q)\<rparr>"
| "feed_peer (PushMessage m) q = q\<lparr>pq_receiver := map_option (chan_send m) (pq_receiver q)\<rparr>"

fun peer_fed :: "'e peer_feed \<Rightarrow> 'e peer_queue \<Rightarrow> (string, 'e) result list \<times> (string, 'e) result list" where
  "peer_fed (Respond r) q = (if snd (pq_up q) then [] else [r], [])"
| "peer_fed RespondEnd q = ([], [])"
| "peer_fed (PushMessage m) q =
     ([], case pq_receiver q of Some (ms, closed) \<Rightarrow> if closed then [] else [Ok m] | None \<Rightarrow> [])"

definition responses_left :: "'e peer_queue \<Rightarrow> (string, 'e) result list" where
  "responses_left q = fst (pq_up q)"

definition messages_left :: "'e peer_queue \<Rightarrow> (string, 'e) result list" where
  "messages_left q = (case pq_receiver q of Some (ms, closed) \<Rightarrow> map Ok ms | None \<Rightarrow> [])"

definition peer_finished :: "'e peer_queue \<Rightarrow> bool" where
  "peer_finished q \<longleftrightarrow> pq_up q = ([], True) \<and> pq_receiver q = None"

definition peer_valid :: "'e peer_queue \<Rightarrow> bool" where
  "peer_valid q \<longleftrightarrow> (pq_receiver q = None \<longrightarrow> pq_up q = ([], True))"

lemma peer_poll_response:
  "pq_up q = (r # rs, c) \<Longrightarrow> peer_queue_poll chan_poll chan_poll q = (Ready (Some r), q\<lparr>pq_up := (rs, c)\<rparr>)"
  by (cases r) (simp_all add: peer_queue_poll_def)

lemma peer_poll_message:
  assumes "pq_up q = ([], c)"
  shows "peer_queue_poll chan_poll chan_poll q =
    (case pq_receiver q of
       None \<Rightarrow> (Ready None, q)
     | Some (m # ms, b) \<Rightarrow> (Ready (Some (Ok m)), q\<lparr>pq_receiver := Some (ms, b)\<rparr>)
     | Some ([], b) \<Rightarrow> if c then (Ready None, q\<lparr>pq_receiver := None\<rparr>) else (Pending, q))"
proof (cases q)
  case (fields up rx addr)
  have "chan_poll ([], b) = (if b then Ready None else Pending, ([] :: string list, b))" for b by (cases b) simp_all
  then show ?thesis
    using assms fields by (cases c) (auto simp: peer_queue_poll_def Let_def split: option.splits list.splits)
qed

lemma peer_poll_split:
  obtains r rs c where "pq_up q = (r # rs, c)"
  | c where "pq_up q = ([], c)" "pq_receiver q = None"
  | c m ms b where "pq_up q = ([], c)" "pq_receiver q = Some (m # ms, b)"
  | c b where "pq_up q = ([], c)" "pq_receiver q = Some ([], b)"
  by (cases "pq_up q"; cases "fst (pq_up q)"; cases "pq_receiver q"; cases "fst (the (pq_receiver q))") auto

lemmas peer_defs = responses_left_def messages_left_def peer_finished_def peer_valid_def

interpretation peer: merged_stream "peer_queue_poll chan_poll chan_poll" feed_peer peer_fed
  responses_left messages_left peer_finished peer_valid
proof unfold_locales
  fix q q' :: "'e peer_queue" and x
  assume "peer_queue_poll chan_poll chan_poll q = (Ready (Some x), q')"
  then show "responses_left q = x # responses_left q' \<and> messages_left q' = messages_left q \<or>
      messages_left q = x # messages_left q' \<and> responses_left q' = responses_left q"
    by (cases q rule: peer_poll_split) (auto simp: peer_poll_response peer_poll_message peer_defs split: if_splits)
next
  fix q q' :: "'e peer_queue" and r
  assume "peer_queue_poll chan_poll chan_poll q = (r, q')" "r = Pending \<or> r = Ready None"
  then show "responses_left q' = responses_left q \<and> messages_left q' = messages_left q"
    by (cases q rule: peer_poll_split) (auto simp: peer_poll_response peer_poll_message peer_defs split: if_splits)
next
  fix q q' :: "'e peer_queue"
  assume "peer_valid q" "peer_queue_poll chan_poll chan_poll q = (Ready None, q')"
  then show "peer_finished q'"
    by (cases q rule: peer_poll_split) (auto simp: peer_poll_response peer_poll_message peer_defs split: if_splits)
next
  fix q :: "'e peer_queue"
  show "peer_valid q \<Longrightarrow> peer_valid (snd (peer_queue_poll chan_poll chan_poll q))"
    by (cases q rule: peer_poll_split) (auto simp: peer_poll_response peer_poll_message peer_defs split: if_splits)
next
  fix q :: "'e peer_queue"
  show "peer_finished q \<Longrightarrow> peer_finished (snd (peer_queue_poll chan_poll chan_poll q))"
    by (cases q rule: peer_poll_split) (auto simp: peer_poll_response peer_poll_message peer_defs split: if_splits)
next
  fix q :: "'e peer_queue" and f
  show "responses_left (feed_peer f q) = responses_left q @ fst (peer_fed f q)"
    by (cases f; cases "pq_up q") (simp_all add: peer_defs chan_close_def)
  show "messages_left (feed_peer f q) = messages_left q @ snd (peer_fed f q)"
    by (cases f; cases "pq_receiver q") (auto simp: peer_defs)
  show "peer_finished q \<Longrightarrow> peer_finished (feed_peer f q)"
    by (cases f) (simp_all add: peer_defs chan_close_def)
  show "peer_valid q \<Longrightarrow> peer_valid (feed_peer f q)"
    by (cases f) (auto simp: peer_defs chan_close_def)
qed

text \<open>C22: nothing is lost on a TCP connection. However responses are produced, messages are pushed
  to the peer and the queue is polled, what the polls gave is an interleaving of the responses and of
  the accepted messages, each in its order, with only the items still queued missing; and once
  the queue has said that it ended, nothing is missing.\<close>

theorem peer_queue_loses_nothing:
  assumes "fold (do_event (peer_queue_poll chan_poll chan_poll) feed_peer peer_fed) evs
      (merge_start (peer_queue_new ([], False) ([], False) addr)) = run"
  shows "\<exists>xs ys. delivered (mr_polls run) \<in> shuffles xs ys \<and>
    mr_left run = xs @ responses_left (mr_queue run) \<and> mr_right run = ys @ messages_left (mr_queue run) \<and>
    (Ready None \<in> set (mr_polls run) \<longrightarrow> xs = mr_left run \<and> ys = mr_right run)"
proof -
  let ?q = "peer_queue_new ([], False) ([], False) addr :: 'a peer_queue"
  have "responses_left ?q = []" "messages_left ?q = []" "peer_valid ?q"
    by (simp_all add: peer_queue_new_def peer_defs)
  from peer.run_from_start [OF this assms] show ?thesis by (auto simp: peer_defs)
qed

theorem peer_queue_loses_nothing_witness:
  "\<exists>xs ys. delivered [Ready (Some (Ok ''r'')), Ready (Some (Ok ''m'')), Ready None] \<in> shuffles xs ys \<and>
     xs = [Ok ''r''] \<and> ys = [Ok ''m'' :: (string, unit) result]"
proof -
  let ?evs = "map Feed [PushMessage ''m'', Respond (Ok ''r''), RespondEnd] @ [Poll, Poll, Poll] :: unit peer_feed merge_event list"
  let ?run = "\<lparr>mr_queue = \<lparr>pq_up = ([], True), pq_receiver = None, pq_addr = SocketV4 127 0 0 1 80\<rparr>, mr_left = [Ok ''r''],
    mr_right = [Ok ''m''], mr_polls = [Ready (Some (Ok ''r'')), Ready (Some (Ok ''m'')), Ready None]\<rparr>"
  have "fold (do_event (peer_queue_poll chan_poll chan_poll) feed_peer peer_fed) ?evs
      (merge_start (peer_queue_new ([], False) ([], False) (SocketV4 127 0 0 1 80))) = ?run"
    by (simp add: merge_start_def peer_queue_new_def peer_queue_poll_def chan_close_def Let_def)
  from peer_queue_loses_nothing [OF this] show ?thesis by auto
qed

section \<open>The dispatcher follows the connections\<close>

text \<open>C24: messages are pushed to the connections that are registered. After a connection was accepted,
  messages to its address go to its channel, and the other peers are reached as before; after it
  ended with everything written, the address is unknown. (When writing failed, the registration is
  left behind: the address stays connected until it is reused.)\<close>

theorem dispatcher_follows_connections:
  assumes "tcp_accept unbounded extract h responses (Ok addr) channels u = (Some (sv, q), channels1, u1)"
    and "tcp_finished addr written channels1 = (r, channels2)"
  shows "(\<exists>sender. fst (fst (unbounded u)) = sender \<and> push_message send channels1 addr msg v = apfst (map_err PushSend) (send sender msg v)) \<and>
    is_connected channels1 addr \<and>
    (\<forall>other v. other \<noteq> addr \<longrightarrow> push_message send channels1 other msg v = push_message send channels other msg v) \<and>
    (if written = Ok () then \<not> is_connected channels2 addr \<and> push_message send channels2 addr msg v = (Err NoSuchPeer, v)
     else is_connected channels2 addr)"
  using assms
  by (auto simp: tcp_accept_def tcp_finished_def push_message_def is_connected_def Let_def case_prod_beta split: result.splits)

theorem dispatcher_follows_connections_witness:
  "let addr = SocketV4 127 0 0 1 80;
       (conn, channels1, u1) = tcp_accept (\<lambda>u. ((u, u), Suc u)) (\<lambda>cx. ()) (default_handler :: (nat, unit, nat) meta_io_handler)
          () (Ok addr :: (socket_addr, unit) result) [] (0::nat);
       (r, channels2) = tcp_finished addr (Err ()) channels1
   in is_connected channels2 addr"
proof -
  let ?addr = "SocketV4 127 0 0 1 80"
  let ?run = "tcp_accept (\<lambda>u. ((u, u), Suc u)) (\<lambda>cx. ()) (default_handler :: (nat, unit, nat) meta_io_handler)
    () (Ok ?addr :: (socket_addr, unit) result) [] (0::nat)"
  obtain sv q channels1 u1 where a: "?run = (Some (sv, q), channels1, u1)"
    by (simp add: tcp_accept_def)
  have f: "tcp_finished ?addr (Err () :: (unit, unit) result) channels1 = (Err (), channels1)"
    by (simp add: tcp_finished_def)
  have "is_connected channels1 ?addr"
    using dispatcher_follows_connections [OF a f, of "\<lambda>c m u. (Ok (), u)" "[]" "()"] by blast
  then show ?thesis by (simp add: a f Let_def)
qed

end
