(* ===== verification/Tcp_Server.thy ===== *)
theory Tcp_Server
  imports Tcp Stream_Codec Reactor
begin

text \<open>
  The TCP server (\<open>tcp/src/server.rs\<close>): the builder, starting, the requests of one connection from the bytes
  that arrive to the bytes that are written, and closing, waiting for and dropping a server.

  Binding a socket is an operation on an environment \<open>'u\<close>; the accept loop runs the connections of \<open>Tcp\<close> at
  most 1024 at a time on the executor.
\<close>

section \<open>The builder\<close>

record ('c, 'n, 'm, 'w, 'h) tcp_builder =
  tb_executor :: "'h uninitialized_executor"
  tb_handler :: "('n, 'm, 'w) meta_io_handler"
  tb_meta_extractor :: "'c tcp_context \<Rightarrow> 'm"
  tb_channels :: "'c sender_channels"
  tb_incoming_separator :: separator
  tb_outgoing_separator :: separator

definition tcp_with_meta_extractor ::
    "('n, 'm, 'w) meta_io_handler \<Rightarrow> ('c tcp_context \<Rightarrow> 'm) \<Rightarrow> ('c, 'n, 'm, 'w, 'h) tcp_builder" where
  "tcp_with_meta_extractor handler extractor =
     \<lparr>tb_executor = Unspawned, tb_handler = handler, tb_meta_extractor = extractor, tb_channels = [],
      tb_incoming_separator = default_separator, tb_outgoing_separator = default_separator\<rparr>"

definition tcp_builder_new :: "'m \<Rightarrow> ('n, 'm, 'w) meta_io_handler \<Rightarrow> ('c, 'n, 'm, 'w, 'h) tcp_builder" where
  "tcp_builder_new default_meta handler = tcp_with_meta_extractor handler (tcp_noop_extractor default_meta)"

definition tcp_event_loop_executor where
  "tcp_event_loop_executor handle b = b\<lparr>tb_executor := UninitShared handle\<rparr>"

definition tcp_session_meta_extractor where
  "tcp_session_meta_extractor extractor b = b\<lparr>tb_meta_extractor := extractor\<rparr>"

definition tcp_request_separators where
  "tcp_request_separators incoming outgoing b = b\<lparr>tb_incoming_separator := incoming, tb_outgoing_separator := outgoing\<rparr>"

definition tcp_codec :: "('c, 'n, 'm, 'w, 'h) tcp_builder \<Rightarrow> stream_codec" where
  "tcp_codec b = codec_new (tb_incoming_separator b) (tb_outgoing_separator b)"

section \<open>The requests of one connection\<close>

text \<open>The stream of responses: each request is answered before the next is taken from the reader. \<open>None\<close> is
  a connection that waits forever for an answer.\<close>

fun tcp_responses ::
    "(string \<Rightarrow> ('n request, 'x) result) \<Rightarrow> ('n response \<Rightarrow> string) \<Rightarrow> (string \<Rightarrow> nat list) \<Rightarrow> ('n, 'm, 'w) tcp_service
     \<Rightarrow> string list \<Rightarrow> 'w \<Rightarrow> (string list \<times> 'w) option" where
  "tcp_responses serde_from_str to_string sched sv [] w = Some ([], w)"
| "tcp_responses serde_from_str to_string sched sv (req # reqs) w =
     (case tcp_service_call serde_from_str to_string (sched req) sv req w of
        (f, w1) \<Rightarrow>
          (case f w1 of
             None \<Rightarrow> None
           | Some (r, w2) \<Rightarrow>
               map_option (apfst (Cons (response_message r))) (tcp_responses serde_from_str to_string sched sv reqs w2)))"

section \<open>Starting and closing\<close>

record ('h, 'q) tcp_server =
  tv_executor :: "('h, 'q) executor option"
  tv_stop :: "'q option"

text \<open>The parent waits for the outcome of binding. On an error the executor is given up and the stop signal
  is dropped; the thread of the server then ends as well.\<close>

definition tcp_start ::
    "('u, 'h, 'q, 'e) reactor_ops \<Rightarrow> (socket_addr \<Rightarrow> 'u \<Rightarrow> (unit, 'e) result \<times> 'u) \<Rightarrow> ('c, 'n, 'm, 'w, 'h) tcp_builder
     \<Rightarrow> socket_addr \<Rightarrow> 'u \<Rightarrow> (('h, 'q) tcp_server, 'e) result \<times> 'u" where
  "tcp_start rx bind b addr u =
     (let (stop_tx, u1) = rx_oneshot rx u
      in case executor_initialize rx (tb_executor b) u1 of
           (Err e, u2) \<Rightarrow> (Err e, rx_drop_sender rx stop_tx u2)
         | (Ok executor, u2) \<Rightarrow>
             (case bind addr u2 of
                (Err e, u3) \<Rightarrow> (Err e, rx_drop_sender rx stop_tx (executor_drop rx executor u3))
              | (Ok _, u3) \<Rightarrow> (Ok \<lparr>tv_executor = Some executor, tv_stop = Some stop_tx\<rparr>, u3)))"

definition send_stop :: "('u, 'h, 'q, 'e) reactor_ops \<Rightarrow> 'q option \<Rightarrow> 'u \<Rightarrow> 'u" where
  "send_stop rx stop u = (case stop of Some sg \<Rightarrow> snd (rx_send rx sg u) | None \<Rightarrow> u)"

text \<open>\<open>None\<close> is a panic. A server that was closed or waited for is dropped as well.\<close>

definition tcp_server_drop :: "('u, 'h, 'q, 'e) reactor_ops \<Rightarrow> ('h, 'q) tcp_server \<Rightarrow> 'u \<Rightarrow> 'u option" where
  "tcp_server_drop rx sv u =
     (let u1 = send_stop rx (tv_stop sv) u
      in case tv_executor sv of Some ex \<Rightarrow> executor_close rx ex u1 | None \<Rightarrow> Some u1)"

definition tcp_server_close :: "('u, 'h, 'q, 'e) reactor_ops \<Rightarrow> ('h, 'q) tcp_server \<Rightarrow> 'u \<Rightarrow> 'u option" where
  "tcp_server_close rx sv u =
     Option.bind (tv_executor sv) (\<lambda>ex.
     Option.bind (executor_close rx ex (send_stop rx (tv_stop sv) u))
       (tcp_server_drop rx \<lparr>tv_executor = None, tv_stop = None\<rparr>))"

definition tcp_server_wait :: "('u, 'h, 'q, 'e) reactor_ops \<Rightarrow> ('h, 'q) tcp_server \<Rightarrow> 'u \<Rightarrow> 'u option" where
  "tcp_server_wait rx sv u =
     Option.bind (tv_executor sv) (\<lambda>ex. tcp_server_drop rx (sv\<lparr>tv_executor := None\<rparr>) (executor_wait rx ex u))"

text \<open>The dispatcher shares the channels of the builder.\<close>

definition tcp_dispatcher :: "('c, 'n, 'm, 'w, 'h) tcp_builder \<Rightarrow> 'c sender_channels" where
  "tcp_dispatcher b = tb_channels b"

section \<open>A session over TCP\<close>

definition message_answered where
  "message_answered serde_from_str to_string cmpt req answer \<longleftrightarrow>
     (\<exists>t. answer = (case t of Some res \<Rightarrow> res | None \<Rightarrow> '''') \<and> text_answer serde_from_str to_string cmpt req t)"

lemma message_answered_response:
  "text_answer serde_from_str to_string cmpt req t \<Longrightarrow>
     message_answered serde_from_str to_string cmpt req (response_message (Ok t))"
  unfolding message_answered_def by (rule exI [of _ t]) (cases t; simp)

lemma tcp_responses_answer:
  assumes "middleware (ts_handler sv) = Noop" and "procs_resolve (ts_handler sv)"
    and cover: "\<And>req r. serde_from_str req = Ok r \<Longrightarrow> sched_covers (sched req) r"
  shows "\<exists>answers w'. tcp_responses serde_from_str to_string sched sv reqs w = Some (answers, w') \<and>
    list_all2 (message_answered serde_from_str to_string (compatibility (ts_handler sv))) reqs answers"
proof (induction reqs arbitrary: w)
  case (Cons req reqs)
  obtain f w1 where f: "handle_request serde_from_str to_string (sched req) (ts_handler sv) req (ts_meta sv) w = (f, w1)" by fastforce
  then obtain t w2 where t: "f w1 = Some (t, w2)" "text_answer serde_from_str to_string (compatibility (ts_handler sv)) req t"
    using handle_request_answers [OF assms(1,2), of serde_from_str req "sched req" to_string "ts_meta sv" w] cover by auto
  obtain answers w' where "tcp_responses serde_from_str to_string sched sv reqs w2 = Some (answers, w')"
    "list_all2 (message_answered serde_from_str to_string (compatibility (ts_handler sv))) reqs answers"
    using Cons.IH by blast
  then show ?case
    using f t message_answered_response [OF t(2)] by (auto simp: tcp_service_call_def fut_map_def)
qed simp

lemma message_answered_plain:
  assumes "\<And>r. P (to_string r)" and "P ''''" and "message_answered serde_from_str to_string cmpt req answer"
  shows "P answer"
  using assms by (auto simp: message_answered_def text_answer_def option.case_eq_if)

text \<open>C7: a session over TCP is answered message by message. Requests that a client writes with the separator
  of the server arrive as they were sent however the bytes are cut into chunks; the server answers each
  one before it takes the next; and a client that reads the bytes the server writes, again in any chunks,
  gets exactly one message per request, in the order of the requests: the response to it, the parse
  error for a message that is no request, and an empty message where there is no response.\<close>

theorem tcp_session_in_order:
  assumes "tb_incoming_separator b = SepByte sep_in" and "tb_outgoing_separator b = SepByte sep_out"
    and "middleware (tb_handler b) = Noop" and "procs_resolve (tb_handler b)"
    and "\<And>req r. serde_from_str req = Ok r \<Longrightarrow> sched_covers (sched req) r"
    and "list_all (\<lambda>m. utf8_valid m \<and> sep_in \<notin> set m) reqs"
    and "concat received = concat (map (\<lambda>m. encode (codec_new i (SepByte sep_in)) m []) reqs)"
    and "\<And>r. utf8_valid (to_string r) \<and> sep_out \<notin> set (to_string r)"
  shows "\<exists>answers w'. tcp_responses serde_from_str to_string sched (tcp_service_new peer (tb_handler b) meta)
      (read_chunks (next_message (incoming_separator (tcp_codec b))) [] received) w = Some (answers, w') \<and>
    list_all2 (message_answered serde_from_str to_string (compatibility (tb_handler b))) reqs answers \<and>
    (\<forall>sent. concat sent = concat (map (\<lambda>m. encode (tcp_codec b) m []) answers) \<longrightarrow>
       read_chunks (next_message (SepByte sep_out)) [] sent = answers)"
proof -
  have reqs: "read_chunks (next_message (incoming_separator (tcp_codec b))) [] received = reqs"
    using separator_stream [OF assms(6,7)] assms(1) by (simp add: tcp_codec_def codec_new_def)
  obtain answers w' where a: "tcp_responses serde_from_str to_string sched (tcp_service_new peer (tb_handler b) meta) reqs w = Some (answers, w')"
    "list_all2 (message_answered serde_from_str to_string (compatibility (tb_handler b))) reqs answers"
    using tcp_responses_answer [of "tcp_service_new peer (tb_handler b) meta" serde_from_str sched to_string reqs w] assms(3-5)
    by (auto simp: tcp_service_new_def)
  have "utf8_valid m \<and> sep_out \<notin> set m"
    if "message_answered serde_from_str to_string (compatibility (tb_handler b)) req m" for req m
    using message_answered_plain [of "\<lambda>m. utf8_valid m \<and> sep_out \<notin> set m", OF _ _ that] assms(8) by simp
  then have "list_all (\<lambda>m. utf8_valid m \<and> sep_out \<notin> set m) answers"
    using a(2) unfolding list_all_length list_all2_conv_all_nth by metis
  then show ?thesis
    using reqs a separator_stream [of sep_out answers _ "tb_incoming_separator b"] assms(2) by (auto simp: tcp_codec_def)
qed

text \<open>Bytes cut in the middle of a request: a call and a notification.\<close>

theorem tcp_session_in_order_witness:
  "let b = tcp_builder_new () say_handler :: (nat, nat, unit, nat, unit) tcp_builder;
       from_str = (\<lambda>s. if s = ''say'' then Ok (SingleRequest say_call) else if s = ''tick'' then Ok (SingleRequest tick_call) else Err ())
   in \<exists>answers w'. tcp_responses from_str (\<lambda>r. ''r'') (\<lambda>_. []) (tcp_service_new (SocketV4 127 0 0 1 80) say_handler ())
      (read_chunks (next_message (incoming_separator (tcp_codec b))) [] [''sa'', ''y'' @ [CHR 0x0A], ''tick'' @ [CHR 0x0A]]) 0
        = Some (answers, w') \<and>
      list_all2 (message_answered from_str (\<lambda>r. ''r'') (compatibility say_handler)) [''say'', ''tick''] answers"
  using tcp_session_in_order [of "tcp_builder_new () say_handler :: (nat, nat, unit, nat, unit) tcp_builder" "CHR 0x0A" "CHR 0x0A"
      "\<lambda>s. if s = ''say'' then Ok (SingleRequest say_call) else if s = ''tick'' then Ok (SingleRequest tick_call) else Err ()"
      "\<lambda>_. []" "[''say'', ''tick'']" "[''sa'', ''y'' @ [CHR 0x0A], ''tick'' @ [CHR 0x0A]]" SepEmpty "\<lambda>r. ''r''"
      "SocketV4 127 0 0 1 80" "()" 0] say_handler_ok
  by (fastforce simp: tcp_builder_new_def tcp_with_meta_extractor_def default_separator_def encode_def codec_new_def in_range_def
      split: if_splits)

section \<open>Ending a server\<close>

lemma tcp_start_server:
  assumes "tcp_start rx bind b addr u = (Ok sv, u')"
  shows "\<exists>ex stop. sv = \<lparr>tv_executor = Some ex, tv_stop = Some stop\<rparr> \<and> executor_live ex"
proof -
  obtain stop u1 where o: "rx_oneshot rx u = (stop, u1)" by fastforce
  obtain r u2 where i: "executor_initialize rx (tb_executor b) u1 = (r, u2)" by fastforce
  with assms o obtain ex where r: "r = Ok ex" by (cases r) (auto simp: tcp_start_def)
  have "executor_live ex" using initialized_live i r by (fastforce simp: executor_initialize_def)
  then show ?thesis using assms o i r by (auto simp: tcp_start_def split: prod.splits result.splits)
qed

text \<open>A started TCP server ends in one way, closed or dropped: it is sent its stop signal, then its event
  loop ends, without a panic. Waiting for it never panics either; but on a shared executor there is
  nothing to wait for, so waiting sends the stop signal at once.\<close>

theorem tcp_server_ends:
  assumes "tcp_start rx bind b addr u = (Ok sv, u1)"
  shows "\<exists>ex stop. sv = \<lparr>tv_executor = Some ex, tv_stop = Some stop\<rparr> \<and>
    tcp_server_close rx sv u2 = Some (executor_drop rx ex (snd (rx_send rx stop u2))) \<and>
    tcp_server_drop rx sv u2 = Some (executor_drop rx ex (snd (rx_send rx stop u2))) \<and>
    tcp_server_wait rx sv u2 = Some (snd (rx_send rx stop (executor_wait rx ex u2))) \<and>
    (\<forall>h. tb_executor b = UninitShared h \<longrightarrow> tcp_server_wait rx sv u2 = Some (snd (rx_send rx stop u2)))"
proof -
  obtain ex stop where sv: "sv = \<lparr>tv_executor = Some ex, tv_stop = Some stop\<rparr>" "executor_live ex"
    using tcp_start_server [OF assms] by blast
  have "executor_wait rx ex u2 = u2" if "tb_executor b = UninitShared h" for h
    using assms sv that by (auto simp: tcp_start_def executor_initialize_def split: prod.splits result.splits)
  then show ?thesis
    using sv by (auto simp: tcp_server_close_def tcp_server_drop_def tcp_server_wait_def send_stop_def close_is_drop)
qed

theorem tcp_server_ends_witness:
  "tcp_server_wait log_reactor \<lparr>tv_executor = Some (ExecShared ()), tv_stop = Some ''stop''\<rparr> [] = Some [''signal stop'']"
  using tcp_server_ends [of log_reactor "\<lambda>_ u. (Ok (), u)"
      "tcp_event_loop_executor () (tcp_builder_new () say_handler :: (nat, nat, unit, nat, unit) tcp_builder)" "SocketV4 127 0 0 1 0" "[]"
      "\<lparr>tv_executor = Some (ExecShared ()), tv_stop = Some ''stop''\<rparr>" "[]" "[]"]
  by (simp add: tcp_start_def log_reactor_def executor_initialize_def tcp_event_loop_executor_def)

end
