(* ===== verification/Ipc.thy ===== *)
theory Ipc
  imports Core_Handler Stream_Merge
begin

text \<open>
  The IPC server's connections (\<open>ipc/src/select_with_weak.rs\<close>, and the service, the metadata and
  the connection handler of \<open>ipc/src/server.rs\<close> and \<open>ipc/src/meta.rs\<close>): the merge of a
  connection's responses (strong) with the messages sent to it (weak), which ends with the strong
  stream, and the opening and closing of sessions.
\<close>

section \<open>The merge\<close>

text \<open>A fused stream: once it has ended it is not polled again.\<close>

record 's fuse =
  fu_stream :: 's
  fu_done :: bool

definition fuse_new :: "'s \<Rightarrow> 's fuse" where
  "fuse_new s = \<lparr>fu_stream = s, fu_done = False\<rparr>"

definition fuse_poll :: "('s, 'a) stream \<Rightarrow> ('s fuse, 'a) stream" where
  "fuse_poll poll f =
     (if fu_done f then (Ready None, f)
      else case poll (fu_stream f) of (r, s) \<Rightarrow> (r, \<lparr>fu_stream = s, fu_done = (r = Ready None)\<rparr>))"

record ('s, 't) select_with_weak =
  sw_strong :: "'s fuse"
  sw_weak :: "'t fuse"
  sw_use_strong :: bool

definition select_new :: "'s \<Rightarrow> 't \<Rightarrow> ('s, 't) select_with_weak" where
  "select_new stream1 stream2 =
     \<lparr>sw_strong = fuse_new stream1, sw_weak = fuse_new stream2, sw_use_strong = False\<rparr>"

text \<open>The loop of \<open>poll_next\<close>; every turn either returns or moves on in the order: weak, strong,
  weak again, strong again.\<close>

function select_loop ::
    "('s, 'a) stream \<Rightarrow> ('t, 'a) stream \<Rightarrow> bool \<Rightarrow> ('s, 't) select_with_weak \<Rightarrow> 'a option poll \<times> ('s, 't) select_with_weak" where
  "select_loop poll_strong poll_weak checked_strong q =
     (if sw_use_strong q then
        (case fuse_poll poll_strong (sw_strong q) of
           (Ready (Some item), s) \<Rightarrow> (Ready (Some item), q\<lparr>sw_strong := s, sw_use_strong := False\<rparr>)
         | (Ready None, s) \<Rightarrow> (Ready None, q\<lparr>sw_strong := s\<rparr>)
         | (Pending, s) \<Rightarrow>
             if \<not> checked_strong then select_loop poll_strong poll_weak True (q\<lparr>sw_strong := s, sw_use_strong := False\<rparr>)
             else (Pending, q\<lparr>sw_strong := s\<rparr>))
      else
        (case fuse_poll poll_weak (sw_weak q) of
           (Ready (Some item), s) \<Rightarrow> (Ready (Some item), q\<lparr>sw_weak := s, sw_use_strong := True\<rparr>)
         | (_, s) \<Rightarrow> select_loop poll_strong poll_weak checked_strong (q\<lparr>sw_weak := s, sw_use_strong := True\<rparr>)))"
  by pat_completeness auto
termination
  by (relation "measure (\<lambda>(_, _, checked, q). (if checked then 0 else 2) + (if sw_use_strong q then 0 else 1))") auto

declare select_loop.simps [simp del]

definition select_poll_next ::
    "('s, 'a) stream \<Rightarrow> ('t, 'a) stream \<Rightarrow> ('s, 't) select_with_weak \<Rightarrow> 'a option poll \<times> ('s, 't) select_with_weak" where
  "select_poll_next poll_strong poll_weak q = select_loop poll_strong poll_weak False q"

section \<open>Connections\<close>

record ('n, 'm, 'w) ipc_service =
  is_handler :: "('n, 'm, 'w) meta_io_handler"
  is_meta :: 'm

definition ipc_service_new :: "('n, 'm, 'w) meta_io_handler \<Rightarrow> 'm \<Rightarrow> ('n, 'm, 'w) ipc_service" where
  "ipc_service_new handler meta = \<lparr>is_handler = handler, is_meta = meta\<rparr>"

definition ipc_service_call ::
    "(string \<Rightarrow> ('n request, 'x) result) \<Rightarrow> ('n response \<Rightarrow> string) \<Rightarrow> nat list \<Rightarrow> ('n, 'm, 'w) ipc_service \<Rightarrow> string \<Rightarrow> 'w
     \<Rightarrow> ('w, (string option, unit) result) fut \<times> 'w" where
  "ipc_service_call serde_from_str to_string sched sv req w =
     apfst (fut_map Ok) (handle_request serde_from_str to_string sched (is_handler sv) req (is_meta sv) w)"

text \<open>The outcome of a call as an item of the response stream: errors and missing responses are
  filtered out.\<close>

fun response_item :: "(string option, unit) result \<Rightarrow> string option" where
  "response_item (Ok r) = r"
| "response_item (Err _) = None"

record 'c ipc_context =
  ic_session_id :: u64
  ic_endpoint_addr :: string
  ic_sender :: 'c

definition ipc_noop_extractor :: "'m \<Rightarrow> 'c ipc_context \<Rightarrow> 'm" where
  "ipc_noop_extractor dflt cx = dflt"

definition ipc_accept ::
    "'u session_stats option \<Rightarrow> ('u \<Rightarrow> ('c \<times> 'r) \<times> 'u) \<Rightarrow> ('c ipc_context \<Rightarrow> 'm) \<Rightarrow> ('n, 'm, 'w) meta_io_handler \<Rightarrow> string \<Rightarrow> 's
     \<Rightarrow> u64 \<Rightarrow> 'u \<Rightarrow> (u64 \<times> ('n, 'm, 'w) ipc_service \<times> ('s, 'r) select_with_weak) \<times> 'u" where
  "ipc_accept stats unbounded extract rpc_handler endpoint_addr responses i u =
     (let session_id = i + 1;
          u1 = (case stats of Some st \<Rightarrow> open_session st session_id u | None \<Rightarrow> u);
          ((sender, receiver), u2) = unbounded u1;
          meta = extract \<lparr>ic_session_id = session_id, ic_endpoint_addr = endpoint_addr, ic_sender = sender\<rparr>
      in ((session_id, ipc_service_new rpc_handler meta, select_new responses receiver), u2))"

definition ipc_finished :: "'u session_stats option \<Rightarrow> u64 \<Rightarrow> 'u \<Rightarrow> 'u" where
  "ipc_finished stats session_id u = (case stats of Some st \<Rightarrow> close_session st session_id u | None \<Rightarrow> u)"

section \<open>Fairness and the end of the merge\<close>

datatype 'a select_feed = FeedStrong 'a | EndStrong | FeedWeak 'a | EndWeak

type_synonym 'a select_queue = "('a list \<times> bool, 'a list \<times> bool) select_with_weak"

definition on_stream :: "('s \<Rightarrow> 's) \<Rightarrow> 's fuse \<Rightarrow> 's fuse" where
  "on_stream f fu = fu\<lparr>fu_stream := f (fu_stream fu)\<rparr>"

fun feed_select :: "'a select_feed \<Rightarrow> 'a select_queue \<Rightarrow> 'a select_queue" where
  "feed_select (FeedStrong x) q = q\<lparr>sw_strong := on_stream (chan_send x) (sw_strong q)\<rparr>"
| "feed_select EndStrong q = q\<lparr>sw_strong := on_stream chan_close (sw_strong q)\<rparr>"
| "feed_select (FeedWeak x) q = q\<lparr>sw_weak := on_stream (chan_send x) (sw_weak q)\<rparr>"
| "feed_select EndWeak q = q\<lparr>sw_weak := on_stream chan_close (sw_weak q)\<rparr>"

fun select_fed :: "'a select_feed \<Rightarrow> 'a select_queue \<Rightarrow> 'a list \<times> 'a list" where
  "select_fed (FeedStrong x) q = (if snd (fu_stream (sw_strong q)) then [] else [x], [])"
| "select_fed (FeedWeak x) q = ([], if snd (fu_stream (sw_weak q)) then [] else [x])"
| "select_fed _ q = ([], [])"

definition strong_left :: "'a select_queue \<Rightarrow> 'a list" where
  "strong_left q = fst (fu_stream (sw_strong q))"

definition weak_left :: "'a select_queue \<Rightarrow> 'a list" where
  "weak_left q = fst (fu_stream (sw_weak q))"

definition strong_ended :: "'a select_queue \<Rightarrow> bool" where
  "strong_ended q \<longleftrightarrow> fu_stream (sw_strong q) = ([], True)"

definition fuse_valid :: "('a list \<times> bool) fuse \<Rightarrow> bool" where
  "fuse_valid f \<longleftrightarrow> (fu_done f \<longrightarrow> fu_stream f = ([], True))"

definition select_valid :: "'a select_queue \<Rightarrow> bool" where
  "select_valid q \<longleftrightarrow> fuse_valid (sw_strong q) \<and> fuse_valid (sw_weak q)"

text \<open>What a poll of a fused channel gives.\<close>

lemma fuse_item:
  "fuse_poll chan_poll f = (Ready (Some x), f') \<Longrightarrow>
     fst (fu_stream f) = x # fst (fu_stream f') \<and> \<not> fu_done f \<and> \<not> fu_done f'"
  by (cases "fu_stream f" rule: chan_poll.cases) (auto simp: fuse_poll_def split: if_splits)

lemma fuse_end:
  "fuse_poll chan_poll f = (Ready None, f') \<Longrightarrow> fuse_valid f \<Longrightarrow> fu_stream f = ([], True) \<and> fu_stream f' = ([], True)"
  by (cases "fu_stream f" rule: chan_poll.cases) (auto simp: fuse_poll_def fuse_valid_def split: if_splits)

lemma fuse_idle:
  "fuse_poll chan_poll f = (r, f') \<Longrightarrow> r = Pending \<or> r = Ready None \<Longrightarrow> fst (fu_stream f') = fst (fu_stream f)"
  by (cases "fu_stream f" rule: chan_poll.cases) (auto simp: fuse_poll_def split: if_splits)

lemma fuse_poll_valid: "fuse_poll chan_poll f = (r, f') \<Longrightarrow> fuse_valid f \<Longrightarrow> fuse_valid f'"
  by (cases "fu_stream f" rule: chan_poll.cases) (auto simp: fuse_poll_def fuse_valid_def split: if_splits)

lemma fuse_ended: "fuse_poll chan_poll f = (r, f') \<Longrightarrow> fu_stream f = ([], True) \<Longrightarrow> fu_stream f' = ([], True)"
  by (auto simp: fuse_poll_def split: if_splits)

lemmas select_defs = strong_left_def weak_left_def strong_ended_def select_valid_def

text \<open>The laws of the merge, and what a turn of the loop that gives nothing keeps.\<close>

definition select_law :: "'a select_queue \<Rightarrow> 'a option poll \<Rightarrow> 'a select_queue \<Rightarrow> bool" where
  "select_law q r q' \<longleftrightarrow>
     (\<forall>x. r = Ready (Some x) \<longrightarrow> strong_left q = x # strong_left q' \<and> weak_left q' = weak_left q \<or>
        weak_left q = x # weak_left q' \<and> strong_left q' = strong_left q) \<and>
     (r = Pending \<or> r = Ready None \<longrightarrow> strong_left q' = strong_left q \<and> weak_left q' = weak_left q) \<and>
     (select_valid q \<longrightarrow> select_valid q' \<and> (r = Ready None \<longrightarrow> strong_ended q')) \<and>
     (strong_ended q \<longrightarrow> strong_ended q')"

definition select_keeps :: "'a select_queue \<Rightarrow> 'a select_queue \<Rightarrow> bool" where
  "select_keeps q q' \<longleftrightarrow> strong_left q' = strong_left q \<and> weak_left q' = weak_left q \<and>
     (select_valid q \<longrightarrow> select_valid q') \<and> (strong_ended q \<longrightarrow> strong_ended q')"

lemma select_law_after: "select_keeps q q1 \<Longrightarrow> select_law q1 r q' \<Longrightarrow> select_law q r q'"
  by (auto simp: select_keeps_def select_law_def)

lemma strong_idle:
  "fuse_poll chan_poll (sw_strong q) = (Pending, s) \<Longrightarrow> select_keeps q (q\<lparr>sw_strong := s, sw_use_strong := b\<rparr>)"
  by (auto simp: select_keeps_def select_defs dest: fuse_idle fuse_poll_valid fuse_ended)

lemma weak_idle:
  "fuse_poll chan_poll (sw_weak q) = (r, s) \<Longrightarrow> r = Pending \<or> r = Ready None \<Longrightarrow>
   select_keeps q (q\<lparr>sw_weak := s, sw_use_strong := b\<rparr>)"
  by (auto simp: select_keeps_def select_defs dest: fuse_idle fuse_poll_valid fuse_ended)

lemma select_loop_law:
  "select_loop chan_poll chan_poll checked q = (r, q') \<Longrightarrow> select_law q r q'"
proof (induction "chan_poll :: ('a list \<times> bool, 'a) stream" "chan_poll :: ('a list \<times> bool, 'a) stream" checked q
    arbitrary: r q' rule: select_loop.induct)
  case (1 checked q)
  note unfold = select_loop.simps [of chan_poll chan_poll _ q]
  show ?case
  proof (cases "sw_use_strong q")
    case True
    obtain p s where p: "fuse_poll chan_poll (sw_strong q) = (p, s)" by fastforce
    show ?thesis
    proof (cases "p = Pending \<and> \<not> checked")
      case again: True
      then have "select_loop chan_poll chan_poll True (q\<lparr>sw_strong := s, sw_use_strong := False\<rparr>) = (r, q')"
        using "1.prems" True p by (simp add: unfold)
      then have "select_law (q\<lparr>sw_strong := s, sw_use_strong := False\<rparr>) r q'"
        using "1.hyps"(1) [OF True p [symmetric]] again by simp
      then show ?thesis using select_law_after strong_idle p again by blast
    next
      case False
      then show ?thesis
        using "1.prems" True p
        by (auto simp: unfold select_law_def select_defs split: poll.splits option.splits if_splits
            dest: fuse_item fuse_end fuse_idle fuse_poll_valid fuse_ended)
    qed
  next
    case False
    obtain p s where p: "fuse_poll chan_poll (sw_weak q) = (p, s)" by fastforce
    show ?thesis
    proof (cases "p = Pending \<or> p = Ready None")
      case again: True
      then have "select_loop chan_poll chan_poll checked (q\<lparr>sw_weak := s, sw_use_strong := True\<rparr>) = (r, q')"
        using "1.prems" False p by (auto simp: unfold)
      then have "select_law (q\<lparr>sw_weak := s, sw_use_strong := True\<rparr>) r q'"
        using "1.hyps"(2,3) [OF False p [symmetric]] again by auto
      then show ?thesis using select_law_after weak_idle p again by blast
    next
      case item: False
      then show ?thesis
        using "1.prems" False p
        by (auto simp: unfold select_law_def select_defs split: poll.splits option.splits
            dest: fuse_item fuse_poll_valid)
    qed
  qed
qed

lemmas select_poll_law = select_loop_law [of False, folded select_poll_next_def]

interpretation select: merged_stream "select_poll_next chan_poll chan_poll" feed_select select_fed
  strong_left weak_left strong_ended select_valid
proof unfold_locales
  fix q q' :: "'a select_queue" and x
  assume "select_poll_next chan_poll chan_poll q = (Ready (Some x), q')"
  from select_poll_law [OF this] show "strong_left q = x # strong_left q' \<and> weak_left q' = weak_left q \<or>
      weak_left q = x # weak_left q' \<and> strong_left q' = strong_left q"
    by (simp add: select_law_def)
next
  fix q q' :: "'a select_queue" and r
  assume "select_poll_next chan_poll chan_poll q = (r, q')" "r = Pending \<or> r = Ready None"
  with select_poll_law [OF this(1)] show "strong_left q' = strong_left q \<and> weak_left q' = weak_left q"
    by (simp add: select_law_def)
next
  fix q q' :: "'a select_queue"
  assume "select_valid q" "select_poll_next chan_poll chan_poll q = (Ready None, q')"
  with select_poll_law [OF this(2)] show "strong_ended q'" by (simp add: select_law_def)
next
  fix q :: "'a select_queue"
  obtain r q' where "select_poll_next chan_poll chan_poll q = (r, q')" by fastforce
  with select_poll_law [OF this]
  show "select_valid q \<Longrightarrow> select_valid (snd (select_poll_next chan_poll chan_poll q))"
    and "strong_ended q \<Longrightarrow> strong_ended (snd (select_poll_next chan_poll chan_poll q))"
    by (simp_all add: select_law_def)
next
  fix q :: "'a select_queue" and f
  show "strong_left (feed_select f q) = strong_left q @ fst (select_fed f q)"
    by (cases f; cases "fu_stream (sw_strong q)") (simp_all add: select_defs on_stream_def chan_close_def)
  show "weak_left (feed_select f q) = weak_left q @ snd (select_fed f q)"
    by (cases f; cases "fu_stream (sw_weak q)") (simp_all add: select_defs on_stream_def chan_close_def)
  show "strong_ended q \<Longrightarrow> strong_ended (feed_select f q)"
    by (cases f) (simp_all add: select_defs on_stream_def chan_close_def)
  show "select_valid q \<Longrightarrow> select_valid (feed_select f q)"
    by (cases f) (auto simp: select_defs fuse_valid_def on_stream_def chan_close_def)
qed

text \<open>Neither source starves the other: with items on both, polls take them in turn.\<close>

fun select_polls :: "nat \<Rightarrow> 'a select_queue \<Rightarrow> 'a option poll list" where
  "select_polls 0 q = []"
| "select_polls (Suc n) q =
     (case select_poll_next chan_poll chan_poll q of (r, q') \<Rightarrow> r # select_polls n q')"

lemma select_alternates:
  assumes "\<not> fu_done (sw_strong q)" "\<not> fu_done (sw_weak q)" "\<not> sw_use_strong q"
    and "length xs = length ys" "strong_left q = xs @ xs'" "weak_left q = ys @ ys'"
  shows "delivered (select_polls (2 * length xs) q) = splice ys xs"
  using assms
proof (induction xs ys arbitrary: q rule: list_induct2')
  case (4 x xs y ys)
  obtain c d where s: "fu_stream (sw_strong q) = (x # xs @ xs', c)" "fu_stream (sw_weak q) = (y # ys @ ys', d)"
    using "4.prems"(5,6) by (auto simp: select_defs prod_eq_iff)
  let ?q1 = "q\<lparr>sw_weak := \<lparr>fu_stream = (ys @ ys', d), fu_done = False\<rparr>, sw_use_strong := True\<rparr>"
  let ?q2 = "?q1\<lparr>sw_strong := \<lparr>fu_stream = (xs @ xs', c), fu_done = False\<rparr>, sw_use_strong := False\<rparr>"
  have "select_poll_next chan_poll chan_poll q = (Ready (Some y), ?q1)"
    using "4.prems"(2,3) s by (simp add: select_poll_next_def select_loop.simps fuse_poll_def)
  moreover have "select_poll_next chan_poll chan_poll ?q1 = (Ready (Some x), ?q2)"
    using "4.prems"(1) s by (simp add: select_poll_next_def select_loop.simps fuse_poll_def)
  moreover have "delivered (select_polls (2 * length xs) ?q2) = splice ys xs"
    using "4.IH" [of ?q2] "4.prems"(4) by (simp add: select_defs)
  ultimately show ?case by (simp add: delivered_def)
qed simp_all

text \<open>C23: the merge of an IPC connection loses no response. However responses and pushed messages
  arrive and the merge is polled, what the polls gave is an interleaving of both, each in its
  order, with only the items still queued missing; once it has said that it ended, the responses
  have ended and every one was delivered.\<close>

theorem ipc_merge_loses_no_response:
  assumes "fold (do_event (select_poll_next chan_poll chan_poll) feed_select select_fed) evs
      (merge_start (select_new ([], False) ([], False))) = run"
  shows "\<exists>xs ys. delivered (mr_polls run) \<in> shuffles xs ys \<and>
    mr_left run = xs @ strong_left (mr_queue run) \<and> mr_right run = ys @ weak_left (mr_queue run) \<and>
    (Ready None \<in> set (mr_polls run) \<longrightarrow> xs = mr_left run \<and> strong_ended (mr_queue run))"
proof -
  let ?q = "select_new ([], False) ([], False) :: 'a select_queue"
  have "strong_left ?q = []" "weak_left ?q = []" "select_valid ?q"
    by (simp_all add: select_new_def fuse_new_def fuse_valid_def select_defs)
  from select.run_from_start [OF this assms] show ?thesis by (auto simp: select_defs)
qed

theorem ipc_merge_loses_no_response_witness:
  "\<exists>xs ys. delivered [Ready (Some (1::nat)), Ready (Some 2), Ready None] \<in> shuffles xs ys \<and> xs = [1] \<and> [2, 3] = ys @ [3]"
proof -
  let ?evs = "[Feed (FeedStrong 1), Poll, Feed (FeedWeak 2), Poll, Feed (FeedWeak 3), Feed EndStrong, Poll]
    :: nat select_feed merge_event list"
  let ?run = "\<lparr>mr_queue = \<lparr>sw_strong = \<lparr>fu_stream = ([], True), fu_done = True\<rparr>,
      sw_weak = \<lparr>fu_stream = ([3], False), fu_done = False\<rparr>, sw_use_strong = True\<rparr>,
    mr_left = [1], mr_right = [2, 3], mr_polls = [Ready (Some 1), Ready (Some 2), Ready None]\<rparr>"
  have "fold (do_event (select_poll_next chan_poll chan_poll) feed_select select_fed) ?evs
      (merge_start (select_new ([], False) ([], False))) = ?run"
    by (simp add: merge_start_def select_new_def fuse_new_def select_poll_next_def select_loop.simps fuse_poll_def
        on_stream_def chan_close_def)
  from ipc_merge_loses_no_response [OF this] show ?thesis by (auto simp: select_defs)
qed

end
