(* ===== verification/Ipc_Server.thy ===== *)
theory Ipc_Server
  imports Ipc Stream_Codec Reactor
begin

text \<open>
  The IPC server (\<open>ipc/src/server.rs\<close>): the builder, starting on a socket file, and the handles that close
  the server.

  Removing a file and listening on an endpoint are operations on an environment \<open>'u\<close>; the endpoint is that
  of the \<open>parity_tokio_ipc\<close> crate. The connections are those of \<open>Ipc\<close>.
\<close>

section \<open>The builder\<close>

record ('c, 'n, 'm, 'u, 'h, 'a) ipc_builder =
  ib_handler :: "('n, 'm, 'u) meta_io_handler"
  ib_meta_extractor :: "'c ipc_context \<Rightarrow> 'm"
  ib_session_stats :: "'u session_stats option"
  ib_executor :: "'h uninitialized_executor"
  ib_incoming_separator :: separator
  ib_outgoing_separator :: separator
  ib_security_attributes :: 'a
  ib_client_buffer_size :: nat

text \<open>\<open>no_attributes\<close> is \<open>SecurityAttributes::empty()\<close>.\<close>

definition ipc_with_meta_extractor ::
    "'a \<Rightarrow> ('n, 'm, 'u) meta_io_handler \<Rightarrow> ('c ipc_context \<Rightarrow> 'm) \<Rightarrow> ('c, 'n, 'm, 'u, 'h, 'a) ipc_builder" where
  "ipc_with_meta_extractor no_attributes io_handler extractor =
     \<lparr>ib_handler = io_handler, ib_meta_extractor = extractor, ib_session_stats = None, ib_executor = Unspawned,
      ib_incoming_separator = SepEmpty, ib_outgoing_separator = default_separator,
      ib_security_attributes = no_attributes, ib_client_buffer_size = 5\<rparr>"

definition ipc_builder_new :: "'a \<Rightarrow> 'm \<Rightarrow> ('n, 'm, 'u) meta_io_handler \<Rightarrow> ('c, 'n, 'm, 'u, 'h, 'a) ipc_builder" where
  "ipc_builder_new no_attributes default_meta io_handler =
     ipc_with_meta_extractor no_attributes io_handler (ipc_noop_extractor default_meta)"

definition ipc_event_loop_executor where
  "ipc_event_loop_executor executor b = b\<lparr>ib_executor := UninitShared executor\<rparr>"

definition ipc_session_meta_extractor where
  "ipc_session_meta_extractor extractor b = b\<lparr>ib_meta_extractor := extractor\<rparr>"

definition ipc_session_stats where
  "ipc_session_stats stats b = b\<lparr>ib_session_stats := Some stats\<rparr>"

definition ipc_request_separators where
  "ipc_request_separators incoming outgoing b = b\<lparr>ib_incoming_separator := incoming, ib_outgoing_separator := outgoing\<rparr>"

definition set_security_attributes where
  "set_security_attributes attr b = b\<lparr>ib_security_attributes := attr\<rparr>"

definition set_client_buffer_size where
  "set_client_buffer_size n b = b\<lparr>ib_client_buffer_size := n\<rparr>"

section \<open>Handles\<close>

record ('u, 'a, 'e) ipc_ops =
  ip_remove_file :: "string \<Rightarrow> 'u \<Rightarrow> (unit, 'e) result \<times> 'u"
  ip_incoming :: "string \<Rightarrow> 'a \<Rightarrow> 'u \<Rightarrow> (unit, 'e) result \<times> 'u"

text \<open>What the server and its close handles share.\<close>

record ('h, 'q) inner_handles =
  ih_executor :: "('h, 'q) executor option"
  ih_stop :: "'q option"
  ih_path :: string

text \<open>Closing, also from \<open>drop\<close>; \<open>None\<close> is a panic.\<close>

definition inner_close ::
    "('u, 'h, 'q, 'e) reactor_ops \<Rightarrow> ('u, 'a, 'e) ipc_ops \<Rightarrow> ('h, 'q) inner_handles \<times> 'u
     \<Rightarrow> (('h, 'q) inner_handles \<times> 'u) option" where
  "inner_close rx ip s =
     (case s of (h, u) \<Rightarrow>
        (let u1 = (case ih_stop h of Some stop \<Rightarrow> snd (rx_send rx stop u) | None \<Rightarrow> u);
             h1 = h\<lparr>ih_stop := None, ih_executor := None\<rparr>
         in case (case ih_executor h of Some ex \<Rightarrow> executor_close rx ex u1 | None \<Rightarrow> Some u1) of
              None \<Rightarrow> None
            | Some u2 \<Rightarrow> Some (h1, snd (ip_remove_file ip (ih_path h) u2))))"

record ('h, 'q, 'r) ipc_server =
  iv_handles :: "('h, 'q) inner_handles"
  iv_wait_handle :: "'r option"

text \<open>Starting: a file that is in the way is removed on Unix. When the endpoint cannot be listened on, the
  handles are dropped, which closes them.\<close>

definition ipc_start ::
    "('u, 'h, 'q, 'e) reactor_ops \<Rightarrow> ('u, 'a, 'e) ipc_ops \<Rightarrow> bool \<Rightarrow> 'r \<Rightarrow> ('c, 'n, 'm, 'w, 'h, 'a) ipc_builder \<Rightarrow> string \<Rightarrow> 'u
     \<Rightarrow> ((('h, 'q, 'r) ipc_server, 'e) result \<times> 'u) option" where
  "ipc_start rx ip unix wait_receiver b path u =
     (case executor_initialize rx (ib_executor b) u of
        (Err e, u1) \<Rightarrow> Some (Err e, u1)
      | (Ok executor, u1) \<Rightarrow>
          (let (stop_signal, u2) = rx_oneshot rx u1;
               u3 = (if unix then snd (ip_remove_file ip path u2) else u2);
               handle = \<lparr>ih_executor = Some executor, ih_stop = Some stop_signal, ih_path = path\<rparr>
           in case ip_incoming ip path (ib_security_attributes b) u3 of
                (Ok _, u4) \<Rightarrow> Some (Ok \<lparr>iv_handles = handle, iv_wait_handle = Some wait_receiver\<rparr>, u4)
              | (Err e, u4) \<Rightarrow> map_option (\<lambda>(_, u5). (Err e, u5)) (inner_close rx ip (handle, u4))))"

text \<open>Waiting takes the receiver and waits for the signal that the server ends with; the server is dropped
  then, which closes the handles when no close handle is left.\<close>

definition ipc_server_wait ::
    "('u, 'h, 'q, 'e) reactor_ops \<Rightarrow> ('u, 'a, 'e) ipc_ops \<Rightarrow> ('r \<Rightarrow> 'u \<Rightarrow> 'u) \<Rightarrow> bool \<Rightarrow> ('h, 'q, 'r) ipc_server \<Rightarrow> 'u
     \<Rightarrow> (('h, 'q) inner_handles \<times> 'u) option" where
  "ipc_server_wait rx ip recv last_handle sv u =
     (let u1 = (case iv_wait_handle sv of Some r \<Rightarrow> recv r u | None \<Rightarrow> u)
      in if last_handle then inner_close rx ip (iv_handles sv, u1) else Some (iv_handles sv, u1))"

text \<open>A close handle shares the handles of the server. Closing consumes the handle (or the server), so the
  handles are closed again, by their \<open>drop\<close>, when it was the last one.\<close>

definition ipc_close_handle :: "('h, 'q, 'r) ipc_server \<Rightarrow> ('h, 'q) inner_handles" where
  "ipc_close_handle sv = iv_handles sv"

definition ipc_handle_close ::
    "('u, 'h, 'q, 'e) reactor_ops \<Rightarrow> ('u, 'a, 'e) ipc_ops \<Rightarrow> bool \<Rightarrow> ('h, 'q) inner_handles \<times> 'u
     \<Rightarrow> (('h, 'q) inner_handles \<times> 'u) option" where
  "ipc_handle_close rx ip last_handle s =
     Option.bind (inner_close rx ip s) (\<lambda>s1. if last_handle then inner_close rx ip s1 else Some s1)"

definition ipc_server_close ::
    "('u, 'h, 'q, 'e) reactor_ops \<Rightarrow> ('u, 'a, 'e) ipc_ops \<Rightarrow> bool \<Rightarrow> ('h, 'q, 'r) ipc_server \<Rightarrow> 'u
     \<Rightarrow> (('h, 'q) inner_handles \<times> 'u) option" where
  "ipc_server_close rx ip last_handle sv u = ipc_handle_close rx ip last_handle (iv_handles sv, u)"

section \<open>Closing a server\<close>

definition handles_live :: "('h, 'q) inner_handles \<Rightarrow> bool" where
  "handles_live h \<longleftrightarrow> (\<exists>ex stop. ih_executor h = Some ex \<and> executor_live ex \<and> ih_stop h = Some stop)"

definition handles_closed :: "('h, 'q) inner_handles \<Rightarrow> bool" where
  "handles_closed h \<longleftrightarrow> ih_executor h = None \<and> ih_stop h = None"

definition stop_handles ::
    "('u, 'h, 'q, 'e) reactor_ops \<Rightarrow> ('u, 'a, 'e) ipc_ops \<Rightarrow> ('h, 'q) inner_handles \<Rightarrow> 'u \<Rightarrow> 'u" where
  "stop_handles rx ip h u =
     (case (ih_executor h, ih_stop h) of
        (Some ex, Some stop) \<Rightarrow> snd (ip_remove_file ip (ih_path h) (executor_drop rx ex (snd (rx_send rx stop u))))
      | _ \<Rightarrow> u)"

interpretation ipc_close: closable "inner_close rx ip" handles_live handles_closed "stop_handles rx ip"
    "\<lambda>h u. snd (ip_remove_file ip (ih_path h) u)"
  for rx :: "('u, 'h, 'q, 'e) reactor_ops" and ip :: "('u, 'a, 'e) ipc_ops"
  by unfold_locales (auto simp: handles_live_def handles_closed_def stop_handles_def inner_close_def close_is_drop)

lemma close_keeps_path: "close_times (inner_close rx ip) n (h, u) = Some (h', u') \<Longrightarrow> ih_path h' = ih_path h"
proof (induction n arbitrary: h u)
  case (Suc n)
  then obtain h1 u1 where c: "inner_close rx ip (h, u) = Some (h1, u1)" "close_times (inner_close rx ip) n (h1, u1) = Some (h', u')"
    by (auto simp: bind_eq_Some_conv)
  then have "ih_path h1 = ih_path h" by (auto simp: inner_close_def Let_def split: option.splits)
  with Suc.IH [OF c(2)] show ?case by simp
qed simp

text \<open>A server that was started has live handles; one that could not be started has been closed.\<close>

lemma ipc_start_live:
  assumes "ipc_start rx ip unix wr b path u = Some (Ok sv, u')"
  shows "\<exists>ex stop. iv_handles sv = \<lparr>ih_executor = Some ex, ih_stop = Some stop, ih_path = path\<rparr> \<and> executor_live ex"
proof -
  obtain r u1 where i: "executor_initialize rx (ib_executor b) u = (r, u1)" by fastforce
  with assms obtain ex where r: "r = Ok ex" by (cases r) (auto simp: ipc_start_def)
  have "executor_live ex" using initialized_live i r by (fastforce simp: executor_initialize_def)
  then show ?thesis
    using assms i r by (auto simp: ipc_start_def Let_def split: prod.splits result.splits)
qed

text \<open>Closing a started IPC server, from any number of handles and again when the last handle is
  dropped, never panics: the first close sends the stop signal, ends the event loop and removes the
  socket file, in this order, exactly once. Every later close removes the file at that path again,
  also when it belongs to another server by then.\<close>

theorem ipc_server_closes_once:
  assumes "ipc_start rx ip unix wr b path u = Some (Ok sv, u1)"
  shows "\<exists>ex stop. ih_executor (iv_handles sv) = Some ex \<and> ih_stop (iv_handles sv) = Some stop \<and>
    close_times (inner_close rx ip) (Suc n) (iv_handles sv, u2) =
      Some (\<lparr>ih_executor = None, ih_stop = None, ih_path = path\<rparr>,
        ((\<lambda>u. snd (ip_remove_file ip path u)) ^^ n)
          (snd (ip_remove_file ip path (executor_drop rx ex (snd (rx_send rx stop u2))))))"
proof -
  obtain ex stop where sv: "iv_handles sv = \<lparr>ih_executor = Some ex, ih_stop = Some stop, ih_path = path\<rparr>" "executor_live ex"
    using ipc_start_live [OF assms] by blast
  obtain h where h: "handles_closed h" "close_times (inner_close rx ip) (Suc n) (iv_handles sv, u2) =
      Some (h, ((\<lambda>u. snd (ip_remove_file ip (ih_path h) u)) ^^ n) (stop_handles rx ip (iv_handles sv) u2))"
    using ipc_close.closes_once [of "iv_handles sv" rx ip n u2] sv by (auto simp: handles_live_def)
  have "h = \<lparr>ih_executor = None, ih_stop = None, ih_path = path\<rparr>"
    using h(1) close_keeps_path [OF h(2)] sv(1) by (cases h) (simp add: handles_closed_def)
  then show ?thesis using h(2) sv by (simp add: stop_handles_def del: close_times.simps)
qed

text \<open>Closing a started server, by itself or through one of its close handles, does not panic and leaves nothing open.
  The socket file is removed once, and once more if nothing else holds the handles.\<close>

theorem ipc_close_removes_socket:
  assumes "ipc_start rx ip unix wr b path u = Some (Ok sv, u1)"
  shows "\<exists>ex stop. ih_executor (iv_handles sv) = Some ex \<and> ih_stop (iv_handles sv) = Some stop \<and>
    ipc_server_close rx ip last_handle sv u2 =
      Some (\<lparr>ih_executor = None, ih_stop = None, ih_path = path\<rparr>,
        ((\<lambda>u. snd (ip_remove_file ip path u)) ^^ (if last_handle then 2 else 1)) (executor_drop rx ex (snd (rx_send rx stop u2)))) \<and>
    ipc_handle_close rx ip last_handle (ipc_close_handle sv, u2) = ipc_server_close rx ip last_handle sv u2"
proof -
  define n :: nat where "n = (if last_handle then 1 else 0)"
  have c: "ipc_handle_close rx ip last_handle s = close_times (inner_close rx ip) (Suc n) s" for s
  proof -
    have "close_times (inner_close rx ip) 0 = Some" by (rule ext) simp
    then show ?thesis by (cases "inner_close rx ip s") (simp_all add: ipc_handle_close_def n_def)
  qed
  obtain ex stop where e: "ih_executor (iv_handles sv) = Some ex" "ih_stop (iv_handles sv) = Some stop"
    "close_times (inner_close rx ip) (Suc n) (iv_handles sv, u2) =
      Some (\<lparr>ih_executor = None, ih_stop = None, ih_path = path\<rparr>,
        ((\<lambda>u. snd (ip_remove_file ip path u)) ^^ n) (snd (ip_remove_file ip path (executor_drop rx ex (snd (rx_send rx stop u2))))))"
    using ipc_server_closes_once [OF assms, of n u2] by blast
  have "((\<lambda>u. snd (ip_remove_file ip path u)) ^^ n) (snd (ip_remove_file ip path v)) =
      ((\<lambda>u. snd (ip_remove_file ip path u)) ^^ (if last_handle then 2 else 1)) v" for v
    by (simp add: n_def numeral_2_eq_2)
  then show ?thesis unfolding ipc_server_close_def ipc_close_handle_def c e(3) using e(1,2) by simp
qed

text \<open>An environment that is the list of the socket files.\<close>

definition file_ops :: "(string list, unit, unit) ipc_ops" where
  "file_ops = \<lparr>ip_remove_file = (\<lambda>p u. (if p \<in> set u then Ok () else Err (), removeAll p u)),
     ip_incoming = (\<lambda>p _ u. if p \<in> set u then (Err (), u) else (Ok (), p # u))\<rparr>"

definition file_reactor :: "(string list, unit, unit, unit) reactor_ops" where
  "file_reactor = \<lparr>rx_oneshot = (\<lambda>u. ((), u)), rx_send = (\<lambda>_ u. (Ok (), u)), rx_drop_sender = (\<lambda>_ u. u),
     rx_build = (\<lambda>_ u. (Ok (), u)), rx_spawn_stop = (\<lambda>_ _ u. u), rx_drop_runtime = (\<lambda>_ u. u)\<rparr>"

theorem ipc_server_closes_once_witness:
  "close_times (inner_close file_reactor file_ops) (Suc 1)
     (\<lparr>ih_executor = Some (ExecShared ()), ih_stop = Some (), ih_path = ''/tmp/s''\<rparr>, [''/tmp/s'', ''/tmp/t'']) =
   Some (\<lparr>ih_executor = None, ih_stop = None, ih_path = ''/tmp/s''\<rparr>, [''/tmp/t''])"
  using ipc_server_closes_once [of file_reactor file_ops True "()"
      "ipc_event_loop_executor () (ipc_builder_new () () (default_handler :: (nat, unit, nat) meta_io_handler))" "''/tmp/s''" "[]"
      "\<lparr>iv_handles = \<lparr>ih_executor = Some (ExecShared ()), ih_stop = Some (), ih_path = ''/tmp/s''\<rparr>, iv_wait_handle = Some ()\<rparr>"
      "[''/tmp/s'']" 1 "[''/tmp/s'', ''/tmp/t'']"]
  by (simp add: ipc_start_def executor_initialize_def ipc_event_loop_executor_def file_ops_def file_reactor_def)

text \<open>Two servers on one path, one after the other: the first is closed through a close handle and the second
  is started; when the first server is dropped, the socket of the second is gone.\<close>

theorem ipc_late_drop_removes_socket:
  "let b = ipc_event_loop_executor () (ipc_builder_new () () (default_handler :: (nat, unit, nat) meta_io_handler));
       h = \<lparr>ih_executor = Some (ExecShared ()), ih_stop = Some (), ih_path = ''/tmp/s''\<rparr>
   in \<exists>h' sv. inner_close file_reactor file_ops (h, [''/tmp/s'']) = Some (h', []) \<and>
        ipc_start file_reactor file_ops True () b ''/tmp/s'' [] = Some (Ok sv, [''/tmp/s'']) \<and>
        inner_close file_reactor file_ops (h', [''/tmp/s'']) = Some (h', [])"
  by (simp add: ipc_start_def inner_close_def executor_initialize_def ipc_event_loop_executor_def file_ops_def file_reactor_def)

end
