(* ===== verification/Ipc_Session.thy ===== *)
theory Ipc_Session
  imports Ipc_Server
begin

text \<open>
  The requests of one IPC connection (\<open>ipc/src/server.rs\<close>): requests are taken from the reader while fewer than
  a number of calls are in flight, calls complete in any order, and a call without a response is left out.
  From the bytes received to the responses every request is answered exactly once.
\<close>

section \<open>The stream of responses\<close>

text \<open>The requests not yet read, the calls in flight, the responses in the order in which they come out, and
  the world the handler acts on.\<close>

record 'w ipc_pipe =
  pp_requests :: "string list"
  pp_flight :: "(string \<times> ('w, (string option, unit) result) fut) list"
  pp_responses :: "string list"
  pp_world :: 'w

definition ipc_pipe_start :: "string list \<Rightarrow> 'w \<Rightarrow> 'w ipc_pipe" where
  "ipc_pipe_start reqs w = \<lparr>pp_requests = reqs, pp_flight = [], pp_responses = [], pp_world = w\<rparr>"

text \<open>Reading a request and calling the service, while there is room in the buffer.\<close>

definition ipc_pull ::
    "(string \<Rightarrow> 'w \<Rightarrow> ('w, (string option, unit) result) fut \<times> 'w) \<Rightarrow> nat \<Rightarrow> 'w ipc_pipe \<Rightarrow> 'w ipc_pipe option" where
  "ipc_pull serve client_buffer_size p =
     (case pp_requests p of
        [] \<Rightarrow> None
      | req # reqs \<Rightarrow>
          if length (pp_flight p) < client_buffer_size then
            (case serve req (pp_world p) of
               (f, w) \<Rightarrow> Some (p\<lparr>pp_requests := reqs, pp_flight := pp_flight p @ [(req, f)], pp_world := w\<rparr>))
          else None)"

text \<open>A call in flight whose future is ready: errors and missing responses are filtered out.\<close>

definition ipc_complete :: "nat \<Rightarrow> 'w ipc_pipe \<Rightarrow> 'w ipc_pipe option" where
  "ipc_complete i p =
     (if i < length (pp_flight p) then
        (case snd (pp_flight p ! i) (pp_world p) of
           None \<Rightarrow> None
         | Some (r, w) \<Rightarrow>
             Some (p\<lparr>pp_flight := take i (pp_flight p) @ drop (Suc i) (pp_flight p),
               pp_responses := pp_responses p @ (case response_item r of Some t \<Rightarrow> [t] | None \<Rightarrow> []), pp_world := w\<rparr>))
      else None)"

text \<open>\<open>try_buffer_unordered\<close> of the \<open>futures\<close> crate, by its documented behaviour: while fewer futures than its
  bound are in flight it may pull the next one, and it yields the result of any future in flight
  that is ready.\<close>

inductive ipc_step ::
    "(string \<Rightarrow> 'w \<Rightarrow> ('w, (string option, unit) result) fut \<times> 'w) \<Rightarrow> nat \<Rightarrow> 'w ipc_pipe \<Rightarrow> 'w ipc_pipe \<Rightarrow> bool"
  for serve client_buffer_size where
  ipc_pulls: "ipc_pull serve client_buffer_size p = Some p' \<Longrightarrow> ipc_step serve client_buffer_size p p'"
| ipc_completes: "ipc_complete i p = Some p' \<Longrightarrow> ipc_step serve client_buffer_size p p'"

inductive_cases ipc_stepE: "ipc_step serve n p p'"

section \<open>Every request is answered\<close>

definition pipe_finished :: "'w ipc_pipe \<Rightarrow> bool" where
  "pipe_finished p \<longleftrightarrow> pp_requests p = [] \<and> pp_flight p = []"

definition pipe_weight :: "'w ipc_pipe \<Rightarrow> nat" where
  "pipe_weight p = 2 * length (pp_requests p) + length (pp_flight p)"

text \<open>A service whose futures give an answer to their request, as the relation \<open>A\<close> describes it.\<close>

definition serves ::
    "(string \<Rightarrow> 'w \<Rightarrow> ('w, (string option, unit) result) fut \<times> 'w) \<Rightarrow> (string \<Rightarrow> string option \<Rightarrow> bool) \<Rightarrow> bool" where
  "serves serve A \<longleftrightarrow> (\<forall>req w. surely (fst (serve req w)) (\<lambda>r. \<exists>t. r = Ok t \<and> A req t))"

text \<open>The answers \<open>ts\<close> to the requests that were completed so far, in the order of completion: they are what came
  out, and the requests they belong to are, with those in flight and those to come, all requests.\<close>

definition accounted :: "(string \<Rightarrow> string option \<Rightarrow> bool) \<Rightarrow> string list \<Rightarrow> 'w ipc_pipe \<Rightarrow> bool" where
  "accounted A reqs p \<longleftrightarrow>
     (\<exists>completed ts. list_all2 A completed ts \<and> pp_responses p = List.map_filter (\<lambda>t. t) ts \<and>
        mset reqs = mset completed + mset (map fst (pp_flight p)) + mset (pp_requests p))"

definition pipe_inv :: "(string \<Rightarrow> string option \<Rightarrow> bool) \<Rightarrow> nat \<Rightarrow> string list \<Rightarrow> 'w ipc_pipe \<Rightarrow> bool" where
  "pipe_inv A n reqs p \<longleftrightarrow>
     length (pp_flight p) \<le> n \<and>
     (\<forall>(req, f)\<in>set (pp_flight p). surely f (\<lambda>r. \<exists>t. r = Ok t \<and> A req t)) \<and>
     accounted A reqs p"

lemma map_filter_snoc: "List.map_filter f (xs @ [x]) = List.map_filter f xs @ (case f x of Some y \<Rightarrow> [y] | None \<Rightarrow> [])"
  by (simp add: List.map_filter_def split: option.splits)

lemma pull_inv:
  assumes "serves serve A" and "pipe_inv A n reqs p" and "ipc_pull serve n p = Some p'"
  shows "pipe_inv A n reqs p'"
proof -
  obtain req rs f w where p: "pp_requests p = req # rs" "length (pp_flight p) < n" "serve req (pp_world p) = (f, w)"
    and p': "p' = p\<lparr>pp_requests := rs, pp_flight := pp_flight p @ [(req, f)], pp_world := w\<rparr>"
    using assms(3) by (auto simp: ipc_pull_def split: list.splits if_splits prod.splits)
  have "surely (fst (serve req (pp_world p))) (\<lambda>r. \<exists>t. r = Ok t \<and> A req t)"
    using assms(1) by (simp add: serves_def)
  moreover have "accounted A reqs p'" using assms(2) p(1) by (auto simp: pipe_inv_def accounted_def p')
  ultimately show "pipe_inv A n reqs p'" using assms(2) p by (auto simp: pipe_inv_def p')
qed

lemma complete_inv:
  assumes "pipe_inv A n reqs p" and "ipc_complete i p = Some p'"
  shows "pipe_inv A n reqs p'"
proof -
  obtain req f where i: "i < length (pp_flight p)" "pp_flight p ! i = (req, f)"
    using assms(2) by (cases "pp_flight p ! i") (auto simp: ipc_complete_def split: if_splits)
  obtain r w where r: "f (pp_world p) = Some (r, w)"
    and p': "p' = p\<lparr>pp_flight := take i (pp_flight p) @ drop (Suc i) (pp_flight p),
        pp_responses := pp_responses p @ (case response_item r of Some t \<Rightarrow> [t] | None \<Rightarrow> []), pp_world := w\<rparr>"
    using assms(2) i by (auto simp: ipc_complete_def split: option.splits)
  obtain completed ts where c: "list_all2 A completed ts" "pp_responses p = List.map_filter (\<lambda>t. t) ts"
      "mset reqs = mset completed + mset (map fst (pp_flight p)) + mset (pp_requests p)"
    using assms(1) by (auto simp: pipe_inv_def accounted_def)
  have "(req, f) \<in> set (pp_flight p)" using i by (metis nth_mem)
  then have "surely f (\<lambda>r. \<exists>t. r = Ok t \<and> A req t)" using assms(1) by (auto simp: pipe_inv_def)
  then obtain t where t: "r = Ok t" "A req t" using surelyD [of f _ "pp_world p"] r by fastforce
  have "mset (pp_flight p) = add_mset (req, f) (mset (pp_flight p'))"
    using mset_remove_nth [OF i(1)] i(2) by (simp add: p')
  then have "mset reqs = mset (completed @ [req]) + mset (map fst (pp_flight p')) + mset (pp_requests p')"
    using c(3) by (simp add: p')
  moreover have "list_all2 A (completed @ [req]) (ts @ [t])" using c(1) t(2) by (simp add: list_all2_appendI)
  moreover have "pp_responses p' = List.map_filter (\<lambda>t. t) (ts @ [t])"
    using c(2) t(1) by (simp add: p' map_filter_snoc)
  ultimately have "accounted A reqs p'" unfolding accounted_def by blast
  moreover have "set (pp_flight p') \<subseteq> set (pp_flight p)"
    by (auto simp: p' dest: in_set_takeD in_set_dropD)
  ultimately show "pipe_inv A n reqs p'" using assms(1) i(1) by (auto simp: pipe_inv_def p')
qed

lemma ipc_step_weight: "ipc_step serve n p p' \<Longrightarrow> pipe_weight p' < pipe_weight p"
  by (erule ipc_stepE)
    (auto simp: ipc_pull_def ipc_complete_def pipe_weight_def split: list.splits if_splits prod.splits option.splits)

text \<open>A pipe with room for a call, whose service answers.\<close>

definition pipe_ok where
  "pipe_ok serve A n reqs p \<longleftrightarrow> 0 < n \<and> serves serve A \<and> pipe_inv A n reqs p"

lemma pipe_enabled:
  assumes "pipe_ok serve A n reqs p" and "\<not> pipe_finished p"
  shows "\<exists>p'. ipc_step serve n p p'"
proof (cases "pp_flight p")
  case Nil
  then obtain req rs where "pp_requests p = req # rs" using assms(2) by (auto simp: pipe_finished_def neq_Nil_conv)
  then have "ipc_pull serve n p \<noteq> None" using assms(1) Nil by (simp add: pipe_ok_def ipc_pull_def split: prod.splits)
  then show ?thesis by (blast intro: ipc_pulls)
next
  case (Cons c cs)
  then have "surely (snd c) (\<lambda>r. \<exists>t. r = Ok t \<and> A (fst c) t)" using assms(1) by (auto simp: pipe_ok_def pipe_inv_def)
  then have "ipc_complete 0 p \<noteq> None" using Cons surelyD [of "snd c" _ "pp_world p"] by (force simp: ipc_complete_def)
  then show ?thesis by (blast intro: ipc_completes)
qed

interpretation ipc_run: progress_system "ipc_step serve n" pipe_finished pipe_weight "pipe_ok serve A n reqs"
proof unfold_locales
  show "pipe_ok serve A n reqs t" if "pipe_ok serve A n reqs s" "ipc_step serve n s t" for s t
    using that by (auto elim!: ipc_stepE simp: pipe_ok_def dest: pull_inv complete_inv)
qed (rule ipc_step_weight pipe_enabled; assumption)+

interpretation ipc_safe: invariant_system "\<lambda>p. pipe_ok serve A n reqs p" "ipc_step serve n" "pipe_ok serve A n reqs"
  by unfold_locales (auto intro: ipc_run.ok_step)

lemma start_ok: "0 < n \<Longrightarrow> serves serve A \<Longrightarrow> pipe_ok serve A n reqs (ipc_pipe_start reqs w)"
  by (auto simp: pipe_ok_def pipe_inv_def accounted_def ipc_pipe_start_def map_filter_simps intro!: exI [of _ "[]"])

lemma finished_stuck: "pipe_finished p \<Longrightarrow> \<not> ipc_step serve n p p'"
  by (auto simp: pipe_finished_def ipc_pull_def ipc_complete_def elim!: ipc_stepE)

text \<open>The service of a connection.\<close>

definition ipc_serve where
  "ipc_serve serde_from_str to_string sched b meta req w =
     ipc_service_call serde_from_str to_string (sched req) (ipc_service_new (ib_handler b) meta) req w"

lemma ipc_serve_serves:
  assumes "middleware (ib_handler b) = Noop" and "procs_resolve (ib_handler b)"
    and "\<And>req r. serde_from_str req = Ok r \<Longrightarrow> sched_covers (sched req) r"
  shows "serves (ipc_serve serde_from_str to_string sched b meta)
    (text_answer serde_from_str to_string (compatibility (ib_handler b)))"
proof -
  have "surely (fst (handle_request serde_from_str to_string (sched req) (ib_handler b) req meta w))
      (text_answer serde_from_str to_string (compatibility (ib_handler b)) req)" for req w
    by (rule handle_request_future [OF assms(1,2)]) (rule assms(3))
  then show ?thesis by (simp add: serves_def ipc_serve_def ipc_service_call_def ipc_service_new_def)
qed

text \<open>C8: every request of an IPC connection is answered exactly once. Whatever JSON objects and arrays a client
  writes, with or without a byte of white space after each, and however the bytes are cut into chunks, each is read as one request; while at most the
  configured number of calls is in flight, in whatever order they complete, the connection gets its
  work done in at most two steps per request, and stops only when it is done; then the responses that
  came out are the answers to all requests in the order of their completion: one for each request that
  gets a response, none for the others.\<close>

theorem ipc_session_answered:
  assumes "ib_incoming_separator b = SepEmpty" and "0 < ib_client_buffer_size b"
    and "middleware (ib_handler b) = Noop" and "procs_resolve (ib_handler b)"
    and "\<And>req r. serde_from_str req = Ok r \<Longrightarrow> sched_covers (sched req) r"
    and "list_all (\<lambda>m. json_group m \<and> utf8_valid m) reqs" and "blank_separator out"
    and "concat received = concat (map (\<lambda>m. encode (codec_new i out) m []) reqs)"
    and step: "step = ipc_step (ipc_serve serde_from_str to_string sched b meta) (ib_client_buffer_size b)"
    and start: "start = ipc_pipe_start (read_chunks (next_message (ib_incoming_separator b)) [] received) w"
  shows "(\<exists>p. reaches step start p \<and> pipe_finished p) \<and>
    (\<forall>n p. (step ^^ n) start p \<longrightarrow> n \<le> 2 * length reqs) \<and>
    (\<forall>p. reaches step start p \<longrightarrow> length (pp_flight p) \<le> ib_client_buffer_size b \<and>
      (pipe_finished p \<longleftrightarrow> (\<forall>q. \<not> step p q)) \<and>
      (pipe_finished p \<longrightarrow> (\<exists>completed ts. mset completed = mset (enveloped out reqs) \<and>
         list_all2 (text_answer serde_from_str to_string (compatibility (ib_handler b))) completed ts \<and>
         pp_responses p = List.map_filter (\<lambda>t. t) ts)))"
proof -
  let ?A = "text_answer serde_from_str to_string (compatibility (ib_handler b))"
  let ?serve = "ipc_serve serde_from_str to_string sched b meta" and ?n = "ib_client_buffer_size b"
  let ?reqs = "enveloped out reqs"
  have start': "start = ipc_pipe_start ?reqs w" using enveloped_stream [OF assms(6-8)] assms(1) start by simp
  have ok: "pipe_ok ?serve ?A ?n ?reqs start"
    unfolding start' by (rule start_ok [OF assms(2) ipc_serve_serves [OF assms(3-5)]])
  show ?thesis
  proof (intro conjI allI impI)
    show "\<exists>p. reaches step start p \<and> pipe_finished p" unfolding step by (rule ipc_run.gets_finished [OF ok])
  next
    fix n p assume "(step ^^ n) start p"
    from ipc_run.run_bounded [OF this [unfolded step]] show "n \<le> 2 * length reqs"
      by (simp add: start' pipe_weight_def ipc_pipe_start_def length_enveloped)
  next
    fix p assume "reaches step start p"
    from ipc_safe.inv_reaches [OF ok this [unfolded step]] have p: "pipe_ok ?serve ?A ?n ?reqs p" .
    then show "length (pp_flight p) \<le> ?n" by (simp add: pipe_ok_def pipe_inv_def)
    show "pipe_finished p \<longleftrightarrow> (\<forall>q. \<not> step p q)"
      unfolding step using ipc_run.stuck_finished [OF p] finished_stuck by blast
    assume "pipe_finished p"
    with p show "\<exists>completed ts. mset completed = mset ?reqs \<and> list_all2 ?A completed ts \<and> pp_responses p = List.map_filter (\<lambda>t. t) ts"
      by (auto simp: pipe_ok_def pipe_inv_def accounted_def pipe_finished_def)
  qed
qed

text \<open>Two messages whose bytes are cut in the middle of the first: a call and a message that is no request.\<close>

definition demo_ipc_builder :: "(nat, nat, unit, nat, unit, unit) ipc_builder" where
  "demo_ipc_builder = ipc_builder_new () () say_handler"

definition demo_ipc_from_str :: "string \<Rightarrow> (nat request, unit) result" where
  "demo_ipc_from_str s = (if s = CHR 0x0A # ''[]'' then Ok (SingleRequest say_call) else Err ())"

theorem ipc_session_answered_witness:
  "\<exists>p completed ts. reaches (ipc_step (ipc_serve demo_ipc_from_str (\<lambda>_. ''r'') (\<lambda>_. []) demo_ipc_builder ()) 5)
       (ipc_pipe_start (read_chunks (next_message SepEmpty) []
          [[CHR ''{'', CHR 0x22, CHR ''}''], [CHR 0x22, CHR ''}'', CHR 0x0A, CHR ''['', CHR '']'', CHR 0x0A]]) 0) p \<and>
     pipe_finished p \<and> mset completed = {#[CHR ''{'', CHR 0x22, CHR ''}'', CHR 0x22, CHR ''}''], CHR 0x0A # ''[]''#} \<and>
     list_all2 (text_answer demo_ipc_from_str (\<lambda>_. ''r'') (compatibility say_handler)) completed ts \<and>
     pp_responses p = List.map_filter (\<lambda>t. t) ts"
proof -
  have b: "ib_incoming_separator demo_ipc_builder = SepEmpty" "ib_client_buffer_size demo_ipc_builder = 5"
    "ib_handler demo_ipc_builder = say_handler"
    by (simp_all add: demo_ipc_builder_def ipc_builder_new_def ipc_with_meta_extractor_def)
  have cover: "\<And>req r. demo_ipc_from_str req = Ok r \<Longrightarrow> sched_covers [] r"
    by (auto simp: demo_ipc_from_str_def split: if_splits)
  show ?thesis
    using ipc_session_answered [of demo_ipc_builder demo_ipc_from_str "\<lambda>_. []"
        "[[CHR ''{'', CHR 0x22, CHR ''}'', CHR 0x22, CHR ''}''], ''[]'']" "SepByte (CHR 0x0A)"
        "[[CHR ''{'', CHR 0x22, CHR ''}''], [CHR 0x22, CHR ''}'', CHR 0x0A, CHR ''['', CHR '']'', CHR 0x0A]]" SepEmpty _ "\<lambda>_. ''r''" "()" _ 0]
      b cover say_handler_ok demo_groups
    by (fastforce simp: in_range_def encode_def codec_new_def is_whitespace_def)
qed

text \<open>Without room for a call a connection reads nothing.\<close>

lemma no_buffer_stuck: "\<not> ipc_step serve 0 (ipc_pipe_start reqs w) p"
  by (auto simp: ipc_pull_def ipc_complete_def ipc_pipe_start_def elim!: ipc_stepE split: list.splits)

end
