(* ===== verification/Stdio.thy ===== *)
theory Stdio
  imports Core_Handler
begin

text \<open>
  The server on standard input and output (\<open>stdio/src/lib.rs\<close>): one request per line of input, handled
  one after the other, and one line of output for each.

  The lines come from \<open>FramedRead\<close> with the codec \<open>LinesCodec\<close> of the \<open>tokio_util\<close> crate, as a list of
  lines and read errors. Standard output is a state \<open>'o\<close> with an operation that writes.
\<close>

section \<open>The server\<close>







section \<open>One line of output per line of input\<close>



text \<open>A standard output on which writing succeeds, as the text written to it.\<close>

definition write_stdout :: "string \<Rightarrow> string \<Rightarrow> (unit, unit) result \<times> string" where
  "write_stdout s out = (Ok (), out @ s)"

text \<open>The lines that were read.\<close>

definition lines_read :: "(string, 'r) result list \<Rightarrow> string list" where
  "lines_read input = List.map_filter (\<lambda>r. case r of Ok line \<Rightarrow> Some line | Err e \<Rightarrow> None) input"

lemma write_stdout_snd [simp]: "snd (write_stdout s out) = out @ s"
  by (simp add: write_stdout_def)

lemma lines_read_simps [simp]:
  "lines_read [] = []"
  "lines_read (Ok line # input) = line # lines_read input"
  "lines_read (Err e # input) = lines_read input"
  by (simp_all add: lines_read_def map_filter_simps)




end
