(* ===== verification/Test_Rpc.thy ===== *)
theory Test_Rpc
  imports Core_Handler
begin

text \<open>
  The test utilities (\<open>test/src/lib.rs\<close>): a handler that is called synchronously with the text of a request
  built from a method name and parameters, and the part of the response that is of interest as text.

  Reading and writing JSON text are arguments. A panic is an outcome of its own; a call whose method never
  answers has no outcome.
\<close>

section \<open>The test environment\<close>

record test_options =
  no_print :: bool

record ('n, 'w) test_rpc =
  test_io :: "('n, unit, 'w) io_handler"
  test_opts :: test_options

datatype test_encoding = Compact | Pretty

datatype test_outcome = TestText string | TestPanic

definition test_from :: "('n, unit, 'w) io_handler \<Rightarrow> ('n, 'w) test_rpc" where
  "test_from io = \<lparr>test_io = io, test_opts = \<lparr>no_print = False\<rparr>\<rparr>"

definition test_new :: "(string \<times> ('n, unit, 'w) remote_procedure) list \<Rightarrow> ('n, 'w) test_rpc" where
  "test_new delegate = test_from (extend_with delegate io_new)"

text \<open>The reader of requests and of outputs, the writers of responses, values and errors by encoding, and
  the order in which a batch is polled.\<close>

record ('n, 'e) json_text =
  jt_read_request :: "string \<Rightarrow> ('n request, 'e) result"
  jt_write_response :: "'n response \<Rightarrow> string"
  jt_read_output :: "string \<Rightarrow> ('n rpc_output, 'e) result"
  jt_write_value :: "test_encoding \<Rightarrow> 'n json \<Rightarrow> string"
  jt_write_error :: "test_encoding \<Rightarrow> 'n rpc_error \<Rightarrow> string"
  jt_sched :: "nat list"

definition quoted :: "string \<Rightarrow> string" where
  "quoted s = [CHR 0x22] @ s @ [CHR 0x22]"

definition test_request_text :: "string \<Rightarrow> string \<Rightarrow> string" where
  "test_request_text name params =
     ''{ '' @ quoted ''jsonrpc'' @ '':'' @ quoted ''2.0'' @ '', '' @ quoted ''id'' @ '': 1, '' @ quoted ''method'' @ '': ''
     @ quoted name @ '', '' @ quoted ''params'' @ '': '' @ params @ '' }''"

fun test_extract :: "('n, 'e) json_text \<Rightarrow> test_encoding \<Rightarrow> 'n rpc_output \<Rightarrow> string" where
  "test_extract jt enc (Success s) = jt_write_value jt enc (su_result s)"
| "test_extract jt enc (Failure f) = jt_write_error jt enc (fa_error f)"

text \<open>\<open>params_text\<close> is the pretty text of the parameters, when they can be serialized.\<close>

definition make_request ::
    "('n, 'e) json_text \<Rightarrow> ('n, 'w) test_rpc \<Rightarrow> string \<Rightarrow> (string, 'e) result \<Rightarrow> test_encoding \<Rightarrow> ('w, test_outcome) fut" where
  "make_request jt rpc name params_text enc w =
     (case params_text of
        Err e \<Rightarrow> Some (TestPanic, w)
      | Ok params \<Rightarrow>
          (case handle_request_sync (jt_read_request jt) (jt_write_response jt) (jt_sched jt) (test_io rpc)
                  (test_request_text name params) () w of
             None \<Rightarrow> None
           | Some (None, w') \<Rightarrow> Some (TestPanic, w')
           | Some (Some response, w') \<Rightarrow>
               (case jt_read_output jt response of
                  Err e \<Rightarrow> Some (TestPanic, w')
                | Ok out \<Rightarrow> Some (TestText (test_extract jt enc out), w'))))"

definition test_request ::
    "('n, 'e) json_text \<Rightarrow> ('n, 'w) test_rpc \<Rightarrow> string \<Rightarrow> (string, 'e) result \<Rightarrow> ('w, test_outcome) fut" where
  "test_request jt rpc name params_text = make_request jt rpc name params_text Pretty"

section \<open>What a test sees\<close>

text \<open>The JSON text of the test request and of outputs is read as it was written, for a method name with
  nothing to escape.\<close>

definition reads_test_request :: "('n, 'e) json_text \<Rightarrow> string \<Rightarrow> string \<Rightarrow> 'n params \<Rightarrow> bool" where
  "reads_test_request jt name text params \<longleftrightarrow>
     jt_read_request jt (test_request_text name text) =
       Ok (SingleRequest (MethodCall \<lparr>mc_jsonrpc = Some V2, mc_method = name, mc_params = params, mc_id = IdNum 1\<rparr>))"

definition reads_output :: "('n, 'e) json_text \<Rightarrow> 'n rpc_output \<Rightarrow> bool" where
  "reads_output jt out \<longleftrightarrow> jt_read_output jt (jt_write_response jt (SingleResponse out)) = Ok out"

lemma io_new_defaults: "middleware io_new = Noop" "compatibility io_new = default_compatibility"
  by (simp_all add: io_new_def default_handler_def with_compatibility_def)

lemma extend_with_keeps: "middleware (extend_with ps h) = middleware h" "compatibility (extend_with ps h) = compatibility h"
  by (induction ps arbitrary: h) (simp_all add: extend_with_def methods_insert_def split: prod.splits)

text \<open>A test sees what the method under test returned. For a delegate whose last entry for a name is a
  method, \<open>make_request\<close> with parameters that can be serialized never panics: it runs the method once on
  these parameters, and gives the text of its result, or of its error, in the encoding asked for.\<close>

theorem test_sees_result:
  assumes "map_of (rev delegate) name = Some (Method f)"
    and "reads_test_request jt name text params" and "reads_output jt (output_from r (IdNum 1) (Some V2))"
    and "f params () w = (fr, w1)" and "fr w1 = Some (r, w2)"
  shows "make_request jt (test_new delegate) name (Ok text) enc w =
    Some (TestText (case r of Ok v \<Rightarrow> jt_write_value jt enc v | Err e \<Rightarrow> jt_write_error jt enc e), w2)"
proof -
  let ?h = "extend_with delegate io_new"
  have "methods ?h name = Some (Method f)"
    using assms(1) by (simp add: methods_extend_with)
  then have "handle_request_sync (jt_read_request jt) (jt_write_response jt) (jt_sched jt) ?h (test_request_text name text) () w =
      Some (Some (jt_write_response jt (SingleResponse (output_from r (IdNum 1) (Some V2)))), w2)"
    using handle_single_call [of ?h "\<lparr>mc_jsonrpc = Some V2, mc_method = name, mc_params = params, mc_id = IdNum 1\<rparr>" "jt_read_request jt"
        "test_request_text name text" f "()" w fr w1 r w2 "jt_write_response jt" "jt_sched jt"] assms(2,4,5)
    by (simp add: reads_test_request_def extend_with_keeps io_new_defaults resolve_method_def default_compatibility_def)
  then show ?thesis
    using assms(3) by (cases r) (simp_all add: make_request_def test_new_def test_from_def reads_output_def)
qed

theorem test_sees_result_witness:
  "make_request
     \<lparr>jt_read_request = (\<lambda>s. if s = test_request_text ''add'' ''[]'' then
          Ok (SingleRequest (MethodCall \<lparr>mc_jsonrpc = Some V2, mc_method = ''add'', mc_params = ParamsArray [], mc_id = IdNum 1\<rparr>))
        else Err ()),
      jt_write_response = (\<lambda>_. ''r''),
      jt_read_output = (\<lambda>_. Ok (Success \<lparr>su_jsonrpc = Some V2, su_result = VBool True, su_id = IdNum 1\<rparr>)),
      jt_write_value = (\<lambda>_ _. ''true''), jt_write_error = (\<lambda>_ _. []), jt_sched = []\<rparr>
     (test_new [(''add'', Method (\<lambda>p m w. (fut_ready (Ok (VBool True)), Suc w)))] :: (nat, nat) test_rpc) ''add'' (Ok ''[]'') Compact 0 =
   Some (TestText ''true'', 1)"
  by (subst test_sees_result [of _ _ "\<lambda>p m w. (fut_ready (Ok (VBool True)), Suc w)" _ _ "ParamsArray []" "Ok (VBool True)" _
        "fut_ready (Ok (VBool True))" 1 1])
    (simp_all add: reads_test_request_def reads_output_def fut_ready_def)

end
