(* ===== verification/Client.thy ===== *)
theory Client
  imports Core_Wire Pubsub
begin

text \<open>
  The client side (\<open>core-client/transports/src/lib.rs\<close> and \<open>transports/mod.rs\<close>): messages to a
  client task, the raw and typed clients, the request builder and the parsing of what a server
  sends. The channel to the client task, one-shot channels and JSON text are arguments; boxed
  errors are values of the type \<open>'x\<close>.
\<close>

section \<open>Errors and messages\<close>

datatype ('n, 'x) client_error =
    JsonRpcError "'n rpc_error"
  | ClientParseError string 'x
  | Timeout
  | ClientError string
  | OtherError 'x

type_synonym ('a, 'n, 'x) client_result = "('a, ('n, 'x) client_error) result"

record ('n, 'c) call_message =
  cm_method :: string
  cm_params :: "'n params"
  cm_sender :: 'c

record 'n notify_message =
  nm_method :: string
  nm_params :: "'n params"

record 'n client_subscription =
  cs_subscribe :: string
  cs_subscribe_params :: "'n params"
  cs_notification :: string
  cs_unsubscribe :: string

record ('n, 's) subscribe_message =
  sm_subscription :: "'n client_subscription"
  sm_sender :: 's

datatype ('n, 'c, 's) rpc_message =
    MsgCall "('n, 'c) call_message"
  | MsgNotify "'n notify_message"
  | MsgSubscribe "('n, 's) subscribe_message"

section \<open>Raw and typed clients\<close>

text \<open>Sending to the client task, creating a stream channel, and the error of a cancelled one-shot.\<close>

record ('n, 'c, 's, 'u, 'x) client_ops =
  cl_oneshot :: "('u, 'c, ('n json, 'n, 'x) client_result) oneshot_ops"
  cl_unbounded :: "'u \<Rightarrow> 's \<times> 'u"
  cl_send :: "('n, 'c, 's) rpc_message \<Rightarrow> 'u \<Rightarrow> (unit, 'x) result \<times> 'u"
  cl_canceled :: 'x

definition raw_call_method ::
    "('n, 'c, 's, 'u, 'x) client_ops \<Rightarrow> string \<Rightarrow> 'n params \<Rightarrow> 'u \<Rightarrow> ('u, ('n json, 'n, 'x) client_result) fut \<times> 'u" where
  "raw_call_method ops name params u =
     (let (c, u1) = os_channel (cl_oneshot ops) u;
          (r, u2) = cl_send ops (MsgCall \<lparr>cm_method = name, cm_params = params, cm_sender = c\<rparr>) u1
      in (case r of
            Err e \<Rightarrow> fut_ready (Err (OtherError e))
          | Ok _ \<Rightarrow> fut_map (\<lambda>x. case x of Err _ \<Rightarrow> Err (OtherError (cl_canceled ops)) | Ok v \<Rightarrow> v) (os_recv (cl_oneshot ops) c), u2))"

definition raw_notify ::
    "('n, 'c, 's, 'u, 'x) client_ops \<Rightarrow> string \<Rightarrow> 'n params \<Rightarrow> 'u \<Rightarrow> (unit, 'n, 'x) client_result \<times> 'u" where
  "raw_notify ops name params u = apfst (map_err OtherError) (cl_send ops (MsgNotify \<lparr>nm_method = name, nm_params = params\<rparr>) u)"

definition raw_subscribe ::
    "('n, 'c, 's, 'u, 'x) client_ops \<Rightarrow> string \<Rightarrow> 'n params \<Rightarrow> string \<Rightarrow> string \<Rightarrow> 'u \<Rightarrow> ('s, 'n, 'x) client_result \<times> 'u" where
  "raw_subscribe ops subscribe params notification unsubscribe u =
     (let (s, u1) = cl_unbounded ops u;
          msg = MsgSubscribe \<lparr>sm_subscription = \<lparr>cs_subscribe = subscribe, cs_subscribe_params = params,
                  cs_notification = notification, cs_unsubscribe = unsubscribe\<rparr>, sm_sender = s\<rparr>
      in apfst (\<lambda>r. map_err OtherError (map_ok (\<lambda>_. s) r)) (cl_send ops msg u1))"

fun call_params :: "'n json \<Rightarrow> ('n params, 'n, 'x) client_result" where
  "call_params (VArray v) = Ok (ParamsArray v)"
| "call_params VNull = Ok ParamsNone"
| "call_params (VObject m) = Ok (ParamsMap m)"
| "call_params _ = Err (ClientError ''RPC params should serialize to a JSON array, JSON object or null'')"

fun list_params :: "'n json \<Rightarrow> ('n params, 'n, 'x) client_result" where
  "list_params (VArray v) = Ok (ParamsArray v)"
| "list_params VNull = Ok ParamsNone"
| "list_params _ = Err (ClientError ''RPC params should serialize to a JSON array, or null'')"

text \<open>\<open>args\<close> is the serialized argument and \<open>from_value\<close> the deserializer of the result type.\<close>

definition typed_call_method ::
    "('n, 'c, 's, 'u, 'x) client_ops \<Rightarrow> ('n json \<Rightarrow> ('r, 'x) result) \<Rightarrow> string \<Rightarrow> string \<Rightarrow> 'n json \<Rightarrow> 'u
     \<Rightarrow> ('u, ('r, 'n, 'x) client_result) fut \<times> 'u" where
  "typed_call_method ops from_value name returns args u =
     (case call_params args of
        Err e \<Rightarrow> (fut_ready (Err e), u)
      | Ok params \<Rightarrow>
          apfst (fut_map (\<lambda>r. and_then r (\<lambda>v. map_err (ClientParseError returns) (from_value v)))) (raw_call_method ops name params u))"

definition client_typed_notify ::
    "('n, 'c, 's, 'u, 'x) client_ops \<Rightarrow> string \<Rightarrow> 'n json \<Rightarrow> 'u \<Rightarrow> (unit, 'n, 'x) client_result \<times> 'u" where
  "client_typed_notify ops name args u =
     (case list_params args of Err e \<Rightarrow> (Err e, u) | Ok params \<Rightarrow> raw_notify ops name params u)"

record 's typed_subscription_stream =
  ts_returns :: string
  ts_stream :: 's

definition typed_subscribe ::
    "('n, 'c, 's, 'u, 'x) client_ops \<Rightarrow> string \<Rightarrow> 'n json \<Rightarrow> string \<Rightarrow> string \<Rightarrow> string \<Rightarrow> 'u
     \<Rightarrow> ('s typed_subscription_stream, 'n, 'x) client_result \<times> 'u" where
  "typed_subscribe ops subscribe args topic unsubscribe returns u =
     (case list_params args of
        Err e \<Rightarrow> (Err e, u)
      | Ok params \<Rightarrow>
          apfst (map_ok (\<lambda>s. \<lparr>ts_returns = returns, ts_stream = s\<rparr>)) (raw_subscribe ops subscribe params topic unsubscribe u))"

definition typed_stream_poll_next ::
    "('s \<Rightarrow> 'u \<Rightarrow> ('n json, 'n, 'x) client_result option poll \<times> 'u) \<Rightarrow> ('n json \<Rightarrow> ('r, 'x) result)
     \<Rightarrow> 's typed_subscription_stream \<Rightarrow> 'u \<Rightarrow> ('r, 'n, 'x) client_result option poll \<times> 'u" where
  "typed_stream_poll_next poll_stream from_value ts u =
     (case poll_stream (ts_stream ts) u of
        (Pending, u') \<Rightarrow> (Pending, u')
      | (Ready None, u') \<Rightarrow> (Ready None, u')
      | (Ready (Some (Ok v)), u') \<Rightarrow> (Ready (Some (map_err (ClientParseError (ts_returns ts)) (from_value v))), u')
      | (Ready (Some (Err e)), u') \<Rightarrow> (Ready (Some (Err e)), u'))"

section \<open>Requests\<close>

record request_builder =
  rb_id :: u64

definition request_builder_new :: request_builder where
  "request_builder_new = \<lparr>rb_id = 0\<rparr>"

definition rb_next_id :: "request_builder \<Rightarrow> id \<times> request_builder" where
  "rb_next_id b = (IdNum (rb_id b), b\<lparr>rb_id := rb_id b + 1\<rparr>)"

definition single_request ::
    "('n request \<Rightarrow> string) \<Rightarrow> string \<Rightarrow> 'n params \<Rightarrow> request_builder \<Rightarrow> (id \<times> string) \<times> request_builder" where
  "single_request to_string name params b =
     (let (i, b') = rb_next_id b
      in ((i, to_string (SingleRequest (MethodCall
            \<lparr>mc_jsonrpc = Some V2, mc_method = name, mc_params = params, mc_id = i\<rparr>))), b'))"

definition call_request ::
    "('n request \<Rightarrow> string) \<Rightarrow> ('n, 'c) call_message \<Rightarrow> request_builder \<Rightarrow> (id \<times> string) \<times> request_builder" where
  "call_request to_string msg b = single_request to_string (cm_method msg) (cm_params msg) b"

definition subscribe_request ::
    "('n request \<Rightarrow> string) \<Rightarrow> string \<Rightarrow> 'n params \<Rightarrow> request_builder \<Rightarrow> (id \<times> string) \<times> request_builder" where
  "subscribe_request to_string name params b = single_request to_string name params b"

definition unsubscribe_request ::
    "('n request \<Rightarrow> string) \<Rightarrow> (u64 \<Rightarrow> 'n) \<Rightarrow> string \<Rightarrow> subscription_id \<Rightarrow> request_builder \<Rightarrow> (id \<times> string) \<times> request_builder" where
  "unsubscribe_request to_string from_u64 name sid b =
     single_request to_string name (ParamsArray [sub_into_value from_u64 sid]) b"

definition notification_request :: "('n request \<Rightarrow> string) \<Rightarrow> 'n notify_message \<Rightarrow> string" where
  "notification_request to_string msg =
     to_string (SingleRequest (Notification \<lparr>nt_jsonrpc = Some V2, nt_method = nm_method msg, nt_params = nm_params msg\<rparr>))"

interpretation builder: id_source rb_next_id rb_id IdNum
  by unfold_locales (simp_all add: rb_next_id_def inj_def)

section \<open>What the server sends\<close>

datatype 'n client_response = ClientOutput "'n rpc_output" | ClientNotification "'n notification"

text \<open>Read from an object, which is what a server writes; the sequence form that a derived struct also
  accepts is left out.\<close>

definition de_client_response ::
    "('n \<Rightarrow> u64 option) \<Rightarrow> ('n \<Rightarrow> i64 option) \<Rightarrow> (string, 'n json) fmap \<Rightarrow> 'n client_response option" where
  "de_client_response as_u64 as_i64 m =
     (case de_output as_u64 as_i64 m of
        Some out \<Rightarrow> Some (ClientOutput out)
      | None \<Rightarrow> map_option ClientNotification (de_notification m))"

fun cr_id :: "'n client_response \<Rightarrow> id option" where
  "cr_id (ClientOutput out) = Some (output_id out)"
| "cr_id (ClientNotification n) = None"

fun cr_method :: "'n client_response \<Rightarrow> string option" where
  "cr_method (ClientNotification n) = Some (nt_method n)"
| "cr_method (ClientOutput out) = None"

fun params_subscription :: "('n \<Rightarrow> u64 option) \<Rightarrow> 'n params \<Rightarrow> subscription_id option" where
  "params_subscription as_u64 (ParamsMap m) =
     (case fmlookup m ''subscription'' of Some v \<Rightarrow> sub_parse_value as_u64 v | None \<Rightarrow> None)"
| "params_subscription as_u64 _ = None"

fun cr_subscription_id :: "('n \<Rightarrow> u64 option) \<Rightarrow> 'n client_response \<Rightarrow> subscription_id option" where
  "cr_subscription_id as_u64 (ClientNotification n) = params_subscription as_u64 (nt_params n)"
| "cr_subscription_id as_u64 (ClientOutput _) = None"

fun notification_into_result :: "('n \<Rightarrow> i64 option) \<Rightarrow> 'n params \<Rightarrow> ('n json, 'n rpc_error) result" where
  "notification_into_result as_i64 (ParamsMap m) =
     (case (fmlookup m ''subscription'', fmlookup m ''result'', fmlookup m ''error'') of
        (Some _, Some r, _) \<Rightarrow> Ok r
      | (Some _, None, Some e) \<Rightarrow> Err (case de_error as_i64 e of Some e \<Rightarrow> e | None \<Rightarrow> parse_error)
      | _ \<Rightarrow> Ok (params_into_json (ParamsMap m)))"
| "notification_into_result as_i64 p = Ok (params_into_json p)"

fun cr_into_result :: "('n \<Rightarrow> i64 option) \<Rightarrow> 'n client_response \<Rightarrow> ('n json, 'n rpc_error) result" where
  "cr_into_result as_i64 (ClientOutput out) = output_into_result out"
| "cr_into_result as_i64 (ClientNotification n) = notification_into_result as_i64 (nt_params n)"

type_synonym ('n, 'x) incoming_message =
  "id \<times> ('n json, 'n, 'x) client_result \<times> string option \<times> subscription_id option"

text \<open>\<open>serde_from_str\<close> reads a client response; its error comes with its display text.\<close>

definition parse_response ::
    "('n \<Rightarrow> u64 option) \<Rightarrow> ('n \<Rightarrow> i64 option) \<Rightarrow> (string \<Rightarrow> ('n client_response, string \<times> 'x) result) \<Rightarrow> string
     \<Rightarrow> (('n, 'x) incoming_message, 'n, 'x) client_result" where
  "parse_response as_u64 as_i64 serde_from_str s =
     map_ok (\<lambda>r. (case cr_id r of Some i \<Rightarrow> i | None \<Rightarrow> IdNull,
                  map_err JsonRpcError (cr_into_result as_i64 r), cr_method r, cr_subscription_id as_u64 r))
       (map_err (\<lambda>(t, x). ClientParseError t x) (serde_from_str s))"

section \<open>Lemmas\<close>

text \<open>What a sink of the server sends is what the client reads from it.\<close>

lemma notification_result_read:
  assumes "\<And>x. as_u64 (from_u64 x) = Some x"
  shows "notification_into_result as_i64 (val_to_params from_u64 val_json err_json k (Ok x)) = Ok (val_json x)"
    and "params_subscription as_u64 (val_to_params from_u64 val_json err_json k v) = Some (ty_id k)"
  using assms sub_value_roundtrip [of as_u64 from_u64 "ty_id k"]
  by (simp_all add: val_to_params_def fmlookup_of_list split: result.splits)

end
