(* ===== verification/Duplex.thy ===== *)
theory Duplex
  imports Client
begin

text \<open>
  The duplex client task (\<open>core-client/transports/src/transports/duplex.rs\<close>): one poll handles the
  messages of the client handle, reads the transport's stream, processes the incoming queue and
  writes the outgoing queue.

  The environment of a poll (\<open>poll_env\<close>) says which client messages and which lines of the
  transport are ready and whether the respective end is closed. Sending on one-shot and stream
  channels and the sink are arguments acting on the environment \<open>'u\<close>. The \<open>expect\<close>s of the
  source are the outcome \<open>DuplexPanic\<close>, which \<open>duplex_never_panics\<close> excludes.
\<close>

section \<open>State\<close>

record 's subscription =
  sub_id :: "subscription_id option"
  sub_notification :: string
  sub_unsubscribe :: string
  sub_channel :: 's

definition subscription_new :: "'s \<Rightarrow> string \<Rightarrow> string \<Rightarrow> 's subscription" where
  "subscription_new ch notification unsubscribe =
     \<lparr>sub_id = None, sub_notification = notification, sub_unsubscribe = unsubscribe, sub_channel = ch\<rparr>"

datatype ('c, 's) pending_request = PendingCall 'c | PendingSubscription "'s subscription"

record ('n, 'c, 's, 'x) duplex =
  dx_request_builder :: request_builder
  dx_channel_open :: bool
  dx_pending_requests :: "(id, ('c, 's) pending_request) hash_map"
  dx_subscriptions :: "(subscription_id \<times> string, 's subscription) hash_map"
  dx_incoming :: "('n, 'x) incoming_message list"
  dx_outgoing :: "string list"

definition duplex_new :: "('n, 'c, 's, 'x) duplex" where
  "duplex_new =
     \<lparr>dx_request_builder = request_builder_new, dx_channel_open = True, dx_pending_requests = [],
      dx_subscriptions = [], dx_incoming = [], dx_outgoing = []\<rparr>"

record ('n, 'c, 's, 'u, 'x) duplex_ops =
  do_to_string :: "'n request \<Rightarrow> string"
  do_parse :: "string \<Rightarrow> (('n, 'x) incoming_message, 'n, 'x) client_result"
  do_as_u64 :: "'n \<Rightarrow> u64 option"
  do_from_u64 :: "u64 \<Rightarrow> 'n"
  do_oneshot_send :: "'c \<Rightarrow> ('n json, 'n, 'x) client_result \<Rightarrow> 'u \<Rightarrow> bool \<times> 'u"
  do_stream_send :: "'s \<Rightarrow> ('n json, 'n, 'x) client_result \<Rightarrow> 'u \<Rightarrow> bool \<times> 'u"
  do_sink_ready :: "'u \<Rightarrow> bool poll \<times> 'u"
  do_sink_send :: "string \<Rightarrow> 'u \<Rightarrow> bool \<times> 'u"
  do_sink_flush :: "'u \<Rightarrow> bool poll \<times> 'u"

record ('n, 'c, 's) poll_env =
  pe_messages :: "('n, 'c, 's) rpc_message list"
  pe_channel_closed :: bool
  pe_lines :: "string list"
  pe_stream_closed :: bool

section \<open>The phases of a poll\<close>

fun handle_message ::
    "('n, 'c, 's, 'u, 'x) duplex_ops \<Rightarrow> ('n, 'c, 's) rpc_message \<Rightarrow> ('n, 'c, 's, 'x) duplex \<Rightarrow> ('n, 'c, 's, 'x) duplex" where
  "handle_message ops (MsgCall msg) d =
     (let ((i, s), b) = call_request (do_to_string ops) msg (dx_request_builder d)
      in d\<lparr>dx_request_builder := b,
           dx_pending_requests := snd (hm_insert i (PendingCall (cm_sender msg)) (dx_pending_requests d)),
           dx_outgoing := dx_outgoing d @ [s]\<rparr>)"
| "handle_message ops (MsgSubscribe msg) d =
     (let c = sm_subscription msg;
          ((i, s), b) = subscribe_request (do_to_string ops) (cs_subscribe c) (cs_subscribe_params c) (dx_request_builder d);
          sub = subscription_new (sm_sender msg) (cs_notification c) (cs_unsubscribe c)
      in d\<lparr>dx_request_builder := b,
           dx_pending_requests := snd (hm_insert i (PendingSubscription sub) (dx_pending_requests d)),
           dx_outgoing := dx_outgoing d @ [s]\<rparr>)"
| "handle_message ops (MsgNotify msg) d =
     d\<lparr>dx_outgoing := dx_outgoing d @ [notification_request (do_to_string ops) msg]\<rparr>"

definition handle_client ::
    "('n, 'c, 's, 'u, 'x) duplex_ops \<Rightarrow> ('n, 'c, 's) poll_env \<Rightarrow> ('n, 'c, 's, 'x) duplex \<Rightarrow> ('n, 'c, 's, 'x) duplex" where
  "handle_client ops env d =
     (if dx_channel_open d then
        (let d = fold (handle_message ops) (pe_messages env) d
         in if pe_channel_closed env then d\<lparr>dx_channel_open := False\<rparr> else d)
      else d)"

text \<open>The outcome of a phase that may return from \<open>poll\<close>.\<close>

datatype ('n, 'x) duplex_outcome =
    DuplexContinue
  | DuplexReturn "(unit, 'n, 'x) client_result"
  | DuplexPanic

fun handle_stream ::
    "('n, 'c, 's, 'u, 'x) duplex_ops \<Rightarrow> string list \<Rightarrow> bool \<Rightarrow> ('n, 'c, 's, 'x) duplex
     \<Rightarrow> ('n, 'x) duplex_outcome \<times> ('n, 'c, 's, 'x) duplex" where
  "handle_stream ops [] closed d = (if closed then DuplexReturn (Ok ()) else DuplexContinue, d)"
| "handle_stream ops (s # ss) closed d =
     (case do_parse ops s of
        Err e \<Rightarrow> (DuplexReturn (Err e), d)
      | Ok m \<Rightarrow> handle_stream ops ss closed (d\<lparr>dx_incoming := dx_incoming d @ [m]\<rparr>))"

text \<open>One turn of the incoming loop, for a message taken from the queue.\<close>

definition deliver_notification ::
    "('n, 'c, 's, 'u, 'x) duplex_ops \<Rightarrow> subscription_id \<times> string \<Rightarrow> ('n json, 'n, 'x) client_result
     \<Rightarrow> ('n, 'c, 's, 'x) duplex \<Rightarrow> 'u \<Rightarrow> ('n, 'x) duplex_outcome \<times> ('n, 'c, 's, 'x) duplex \<times> 'u" where
  "deliver_notification ops key res d u =
     (case map_of (dx_subscriptions d) key of
        None \<Rightarrow> (DuplexContinue, d, u)
      | Some sub \<Rightarrow>
          (case do_stream_send ops (sub_channel sub) res u of
             (True, u') \<Rightarrow> (DuplexContinue, d, u')
           | (False, u') \<Rightarrow>
               (let d' = d\<lparr>dx_subscriptions := snd (hm_remove key (dx_subscriptions d))\<rparr>
                in case sub_id sub of
                     None \<Rightarrow> (DuplexPanic, d', u')
                   | Some sid \<Rightarrow>
                       (let ((_, s), b) = unsubscribe_request (do_to_string ops) (do_from_u64 ops) (sub_unsubscribe sub) sid (dx_request_builder d')
                        in (DuplexContinue, d'\<lparr>dx_request_builder := b, dx_outgoing := dx_outgoing d' @ [s]\<rparr>, u')))))"

definition handle_response ::
    "('n, 'c, 's, 'u, 'x) duplex_ops \<Rightarrow> ('n, 'x) incoming_message \<Rightarrow> ('n, 'c, 's, 'x) duplex \<Rightarrow> 'u
     \<Rightarrow> ('n, 'x) duplex_outcome \<times> ('n, 'c, 's, 'x) duplex \<times> 'u" where
  "handle_response ops m d u =
     (case m of (i, res, name, sid) \<Rightarrow>
        let key = (case (sid, name) of (Some s, Some n) \<Rightarrow> Some (s, n) | _ \<Rightarrow> None);
            (p, pending) = hm_remove i (dx_pending_requests d);
            d = d\<lparr>dx_pending_requests := pending\<rparr>
        in case p of
             Some (PendingCall tx) \<Rightarrow>
               (case do_oneshot_send ops tx res u of
                  (True, u') \<Rightarrow> (DuplexContinue, d, u')
                | (False, u') \<Rightarrow> (DuplexReturn (Err (ClientError ''oneshot channel closed'')), d, u'))
           | Some (PendingSubscription sub) \<Rightarrow>
               (case Option.bind (result_ok res) (sub_parse_value (do_as_u64 ops)) of
                  Some s \<Rightarrow>
                    (DuplexContinue,
                     d\<lparr>dx_subscriptions := snd (hm_insert (s, sub_notification sub) (sub\<lparr>sub_id := Some s\<rparr>) (dx_subscriptions d))\<rparr>, u)
                | None \<Rightarrow> (DuplexContinue, d, snd (do_stream_send ops (sub_channel sub) res u)))
           | None \<Rightarrow>
               (case key of
                  None \<Rightarrow> (DuplexContinue, d, u)
                | Some key \<Rightarrow> deliver_notification ops key res d u))"

fun handle_incoming ::
    "('n, 'c, 's, 'u, 'x) duplex_ops \<Rightarrow> ('n, 'x) incoming_message list \<Rightarrow> ('n, 'c, 's, 'x) duplex \<Rightarrow> 'u
     \<Rightarrow> ('n, 'x) duplex_outcome \<times> ('n, 'c, 's, 'x) duplex \<times> 'u" where
  "handle_incoming ops [] d u = (DuplexContinue, d\<lparr>dx_incoming := []\<rparr>, u)"
| "handle_incoming ops (m # ms) d u =
     (case handle_response ops m d u of
        (DuplexContinue, d', u') \<Rightarrow> handle_incoming ops ms d' u'
      | (r, d', u') \<Rightarrow> (r, d'\<lparr>dx_incoming := ms\<rparr>, u'))"

fun handle_outgoing ::
    "('n, 'c, 's, 'u, 'x) duplex_ops \<Rightarrow> string list \<Rightarrow> 'u \<Rightarrow> ('n, 'x) duplex_outcome \<times> string list \<times> 'u" where
  "handle_outgoing ops [] u =
     (case do_sink_ready ops u of
        (Ready False, u') \<Rightarrow> (DuplexReturn (Err (ClientError ''closing'')), [], u')
      | (_, u') \<Rightarrow> (DuplexContinue, [], u'))"
| "handle_outgoing ops (s # ss) u =
     (case do_sink_ready ops u of
        (Ready False, u') \<Rightarrow> (DuplexReturn (Err (ClientError ''closing'')), s # ss, u')
      | (Pending, u') \<Rightarrow> (DuplexContinue, s # ss, u')
      | (Ready True, u') \<Rightarrow>
          (case do_sink_send ops s u' of
             (True, u'') \<Rightarrow> handle_outgoing ops ss u''
           | (False, u'') \<Rightarrow> (DuplexReturn (Err (ClientError ''closing'')), ss, u'')))"

definition duplex_finish ::
    "('n, 'c, 's, 'u, 'x) duplex_ops \<Rightarrow> ('n, 'c, 's, 'x) duplex \<Rightarrow> 'u \<Rightarrow> bool \<times> 'u" where
  "duplex_finish ops d u =
     (let (fl, u') = do_sink_flush ops u;
          sink_empty = (case fl of Ready _ \<Rightarrow> True | Pending \<Rightarrow> False)
      in (\<not> dx_channel_open d \<and> dx_outgoing d = [] \<and> dx_incoming d = [] \<and>
          dx_pending_requests d = [] \<and> dx_subscriptions d = [] \<and> sink_empty, u'))"

text \<open>The result of a poll: pending, ready with a result, or a panic.\<close>

definition duplex_poll ::
    "('n, 'c, 's, 'u, 'x) duplex_ops \<Rightarrow> ('n, 'c, 's) poll_env \<Rightarrow> ('n, 'c, 's, 'x) duplex \<Rightarrow> 'u
     \<Rightarrow> ('n, 'x) duplex_outcome \<times> ('n, 'c, 's, 'x) duplex \<times> 'u" where
  "duplex_poll ops env d u =
     (case handle_stream ops (pe_lines env) (pe_stream_closed env) (handle_client ops env d) of
        (DuplexContinue, d1) \<Rightarrow>
          (case handle_incoming ops (dx_incoming d1) d1 u of
             (DuplexContinue, d2, u2) \<Rightarrow>
               (case handle_outgoing ops (dx_outgoing d2) u2 of
                  (DuplexContinue, out, u3) \<Rightarrow>
                    (case duplex_finish ops (d2\<lparr>dx_outgoing := out\<rparr>) u3 of
                       (fin, u4) \<Rightarrow> (if fin then DuplexReturn (Ok ()) else DuplexContinue, d2\<lparr>dx_outgoing := out\<rparr>, u4))
                | (r, out, u3) \<Rightarrow> (r, d2\<lparr>dx_outgoing := out\<rparr>, u3))
           | (r, d2, u2) \<Rightarrow> (r, d2, u2))
      | (r, d1) \<Rightarrow> (r, d1, u))"

section \<open>Active subscriptions know their id\<close>

definition duplex_inv :: "('n, 'c, 's, 'x) duplex \<Rightarrow> bool" where
  "duplex_inv d \<longleftrightarrow> (\<forall>sid name sub. map_of (dx_subscriptions d) (sid, name) = Some sub \<longrightarrow>
     sub_id sub = Some sid \<and> sub_notification sub = name)"

lemma duplex_inv_cong: "dx_subscriptions d' = dx_subscriptions d \<Longrightarrow> duplex_inv d' = duplex_inv d"
  by (simp add: duplex_inv_def)

lemma handle_message_subscriptions [simp]: "dx_subscriptions (handle_message ops m d) = dx_subscriptions d"
  by (cases m) (simp_all add: case_prod_beta Let_def)

lemma fold_message_subscriptions [simp]:
  "dx_subscriptions (fold (handle_message ops) ms d) = dx_subscriptions d"
  by (induction ms arbitrary: d) simp_all

lemma handle_client_subscriptions: "dx_subscriptions (handle_client ops env d) = dx_subscriptions d"
  by (simp add: handle_client_def Let_def)

lemma handle_stream_subscriptions:
  "dx_subscriptions (snd (handle_stream ops ss closed d)) = dx_subscriptions d \<and>
   fst (handle_stream ops ss closed d) \<noteq> DuplexPanic"
proof (induction ss arbitrary: d)
  case (Cons x xs)
  show ?case
    using Cons.IH [of "d\<lparr>dx_incoming := dx_incoming d @ [m]\<rparr>" for m] by (cases "do_parse ops x") simp_all
qed simp

lemma deliver_notification_inv:
  assumes "duplex_inv d" "deliver_notification ops key res d u = (r, d', u')"
  shows "duplex_inv d' \<and> r = DuplexContinue"
proof -
  have "sub_id sub = Some (fst key)" if "map_of (dx_subscriptions d) key = Some sub" for sub
    using assms(1) that by (cases key) (auto simp: duplex_inv_def)
  then show ?thesis
    using assms
    by (auto simp: deliver_notification_def duplex_inv_def case_prod_beta Let_def
        split: option.splits prod.splits bool.splits if_splits)
qed

lemma handle_response_inv:
  assumes inv: "duplex_inv d" and run: "handle_response ops m d u = (r, d', u')"
  shows "duplex_inv d' \<and> r \<noteq> DuplexPanic"
proof -
  obtain i res name sid where m: "m = (i, res, name, sid)" by (cases m) auto
  let ?d = "d\<lparr>dx_pending_requests := snd (hm_remove i (dx_pending_requests d))\<rparr>"
  have inv': "duplex_inv ?d" using inv by (simp add: duplex_inv_def)
  consider (call) tx where "map_of (dx_pending_requests d) i = Some (PendingCall tx)"
    | (sub) sub where "map_of (dx_pending_requests d) i = Some (PendingSubscription sub)"
    | (none) "map_of (dx_pending_requests d) i = None"
    by (metis option.exhaust pending_request.exhaust)
  then show ?thesis
  proof cases
    case call
    then show ?thesis using run inv' m
      by (auto simp: handle_response_def Let_def case_prod_beta split: bool.splits if_splits)
  next
    case sub
    then show ?thesis
      using run inv' m by (auto simp: handle_response_def Let_def case_prod_beta duplex_inv_def split: option.splits if_splits)
  next
    case none
    then have "(r, d', u') = (DuplexContinue, ?d, u) \<or> (\<exists>key. deliver_notification ops key res ?d u = (r, d', u'))"
      using run m by (auto simp: handle_response_def Let_def case_prod_beta split: option.splits)
    then show ?thesis using inv' by (auto dest: deliver_notification_inv [OF inv'])
  qed
qed

lemma handle_incoming_inv:
  assumes "duplex_inv d" "handle_incoming ops ms d u = (r, d', u')"
  shows "duplex_inv d' \<and> r \<noteq> DuplexPanic"
  using assms
proof (induction ms arbitrary: d u)
  case Nil
  then show ?case by (auto simp: duplex_inv_def)
next
  case (Cons m ms)
  obtain r1 d1 u1 where h: "handle_response ops m d u = (r1, d1, u1)" by (metis surj_pair)
  then have i1: "duplex_inv d1" "r1 \<noteq> DuplexPanic" using handle_response_inv [OF Cons.prems(1) h] by simp_all
  then have i2: "duplex_inv (d1\<lparr>dx_incoming := ms\<rparr>)" by (simp add: duplex_inv_def)
  show ?case using Cons.prems(2) Cons.IH [OF i1(1)] i1 i2 h by (cases r1) auto
qed

lemma handle_outgoing_no_panic: "fst (handle_outgoing ops ss u) \<noteq> DuplexPanic"
proof (induction ss arbitrary: u)
  case Nil
  show ?case by (auto split: prod.splits poll.splits bool.splits)
next
  case (Cons s ss)
  then show ?case by (auto split: prod.splits poll.splits bool.splits)
qed

lemma duplex_poll_inv:
  assumes "duplex_inv d" "duplex_poll ops env d u = (r, d', u')"
  shows "duplex_inv d' \<and> r \<noteq> DuplexPanic"
proof -
  obtain r1 d1 where hs: "handle_stream ops (pe_lines env) (pe_stream_closed env) (handle_client ops env d) = (r1, d1)"
    by fastforce
  have s: "dx_subscriptions d1 = dx_subscriptions d" "r1 \<noteq> DuplexPanic"
    using handle_stream_subscriptions [of ops "pe_lines env" "pe_stream_closed env" "handle_client ops env d"]
      handle_client_subscriptions [of ops env d] hs by simp_all
  have i1: "duplex_inv d1" using assms(1) duplex_inv_cong [OF s(1)] by simp
  obtain r2 d2 u2 where hi: "handle_incoming ops (dx_incoming d1) d1 u = (r2, d2, u2)" by (metis surj_pair)
  have i2: "duplex_inv d2" "r2 \<noteq> DuplexPanic" using handle_incoming_inv [OF i1 hi] by simp_all
  have i3: "duplex_inv (d2\<lparr>dx_outgoing := out\<rparr>)" for out using i2(1) by (simp add: duplex_inv_def)
  obtain r3 out u3 where ho: "handle_outgoing ops (dx_outgoing d2) u2 = (r3, out, u3)" by (metis surj_pair)
  have np: "r3 \<noteq> DuplexPanic" using handle_outgoing_no_panic [of ops "dx_outgoing d2" u2] ho by simp
  show ?thesis
  proof (cases "r1 = DuplexContinue \<and> r2 = DuplexContinue \<and> r3 = DuplexContinue")
    case True
    then show ?thesis using assms(2) hs hi ho i3 by (auto simp: duplex_poll_def split: prod.splits if_splits)
  next
    case False
    then show ?thesis
      using assms(2) s(2) hs hi ho i1 i2 i3 np by (cases r1; cases r2; cases r3) (auto simp: duplex_poll_def)
  qed
qed

text \<open>One poll in any environment, with given channel operations.\<close>

definition duplex_step ::
    "('n, 'c, 's, 'u, 'x) duplex_ops \<Rightarrow> ('n, 'c, 's, 'x) duplex \<Rightarrow> ('n, 'c, 's, 'x) duplex \<Rightarrow> bool" where
  "duplex_step ops d d' \<longleftrightarrow> (\<exists>env u r u'. duplex_poll ops env d u = (r, d', u'))"

interpretation dx: invariant_system "\<lambda>d. d = duplex_new" "duplex_step ops" duplex_inv for ops
proof unfold_locales
  fix d d' assume "duplex_inv d" "duplex_step ops d d'"
  then show "duplex_inv d'" unfolding duplex_step_def by (auto dest: duplex_poll_inv)
qed (simp add: duplex_inv_def duplex_new_def)

text \<open>C20: the client task does not panic: in every state that any sequence of polls reaches, with
  any messages, server responses and channel behaviour, the next poll does not run into an
  \<open>expect\<close>; every active subscription has the id under which it is registered.\<close>

theorem duplex_never_panics:
  assumes "reaches (duplex_step ops) duplex_new d"
  shows "fst (duplex_poll ops env d u) \<noteq> DuplexPanic \<and> duplex_inv d"
proof -
  have "duplex_inv d" using dx.inv_reachable [OF refl assms] .
  moreover obtain r d' u' where "duplex_poll ops env d u = (r, d', u')" by (metis surj_pair)
  ultimately show ?thesis using duplex_poll_inv [of d ops env u r d' u'] by simp
qed

text \<open>Channel operations for the examples: every send succeeds, except on the stream channel 9, and
  is recorded in the environment.\<close>

definition demo_duplex_ops ::
    "(u64, nat, nat, (nat \<times> (u64 json, u64, unit) client_result) list, unit) duplex_ops" where
  "demo_duplex_ops =
     \<lparr>do_to_string = (\<lambda>r. case r of SingleRequest (MethodCall c) \<Rightarrow> mc_method c | _ \<Rightarrow> ''other''),
      do_parse = (\<lambda>s. Err (ClientError s)), do_as_u64 = Some, do_from_u64 = id,
      do_oneshot_send = (\<lambda>c r u. (True, u @ [(c, r)])),
      do_stream_send = (\<lambda>s r u. if s = 9 then (False, u) else (True, u @ [(s, r)])),
      do_sink_ready = (\<lambda>u. (Ready True, u)), do_sink_send = (\<lambda>s u. (True, u)),
      do_sink_flush = (\<lambda>u. (Ready True, u))\<rparr>"

theorem duplex_never_panics_witness:
  "fst (duplex_poll demo_duplex_ops
     \<lparr>pe_messages = [], pe_channel_closed = False, pe_lines = [''x''], pe_stream_closed = False\<rparr> duplex_new []) \<noteq> DuplexPanic"
  using duplex_never_panics [OF reaches_refl, of demo_duplex_ops
    "\<lparr>pe_messages = [], pe_channel_closed = False, pe_lines = [''x''], pe_stream_closed = False\<rparr>" "[]"] by blast

section \<open>Responses reach their callers\<close>

text \<open>The turns of the loops of a poll that change the pending requests, in any order.\<close>

datatype ('n, 'c, 's, 'x) duplex_event =
    EvMessage "('n, 'c, 's) rpc_message"
  | EvResponse "('n, 'x) incoming_message"

fun run_event ::
    "('n, 'c, 's, 'u, 'x) duplex_ops \<Rightarrow> ('n, 'c, 's, 'x) duplex_event
     \<Rightarrow> ('n, 'c, 's, 'x) duplex \<times> 'u \<Rightarrow> ('n, 'c, 's, 'x) duplex \<times> 'u" where
  "run_event ops (EvMessage m) (d, u) = (handle_message ops m d, u)"
| "run_event ops (EvResponse m) (d, u) = snd (handle_response ops m d u)"

definition run_events where
  "run_events ops evs = fold (run_event ops) evs"

definition next_request :: "('n, 'c, 's, 'x) duplex \<Rightarrow> u64" where
  "next_request d = rb_id (dx_request_builder d)"

text \<open>What one turn does to the request counter and the pending requests.\<close>

fun answers_id :: "id \<Rightarrow> ('n, 'c, 's, 'x) duplex_event \<Rightarrow> bool" where
  "answers_id i (EvMessage m) = False"
| "answers_id i (EvResponse m) = (fst m = i)"

lemma unat_next: "unat (k :: u64) + 1 < 2 ^ 64 \<Longrightarrow> unat (k + 1) = unat k + 1"
  by (simp add: unat_word_ariths)

lemma handle_message_pending:
  "map_of (dx_pending_requests (handle_message ops m d)) = map_of (dx_pending_requests d) \<and>
     next_request (handle_message ops m d) = next_request d \<or>
   (\<exists>p. map_of (dx_pending_requests (handle_message ops m d)) = (map_of (dx_pending_requests d))(IdNum (next_request d) \<mapsto> p)) \<and>
     next_request (handle_message ops m d) = next_request d + 1"
  by (cases m)
    (auto simp: call_request_def subscribe_request_def single_request_def rb_next_id_def next_request_def Let_def)

lemma deliver_notification_pending:
  assumes "deliver_notification ops key res d u = (r, d', u')"
  shows "dx_pending_requests d' = dx_pending_requests d \<and> next_request d' \<in> {next_request d, next_request d + 1}"
  using assms
  by (auto simp: deliver_notification_def unsubscribe_request_def single_request_def rb_next_id_def next_request_def Let_def
      split: option.splits prod.splits bool.splits if_splits)

lemma handle_response_pending:
  assumes "handle_response ops m d u = (r, d', u')"
  shows "map_of (dx_pending_requests d') = (map_of (dx_pending_requests d))(fst m := None) \<and>
    next_request d' \<in> {next_request d, next_request d + 1}"
proof -
  obtain i res name sid where m: "m = (i, res, name, sid)" by (cases m) auto
  let ?d = "d\<lparr>dx_pending_requests := snd (hm_remove i (dx_pending_requests d))\<rparr>"
  have "dx_pending_requests d' = dx_pending_requests ?d \<and> next_request d' = next_request ?d \<or>
    (\<exists>key. deliver_notification ops key res ?d u = (r, d', u'))"
    using assms m
    by (auto simp: handle_response_def Let_def case_prod_beta next_request_def
        split: option.splits pending_request.splits bool.splits if_splits)
  then show ?thesis using m by (auto simp: next_request_def dest: deliver_notification_pending)
qed

lemma run_event_keeps:
  assumes "run_event ops ev (d, u) = (d', u')" "unat (next_request d) + 1 < 2 ^ 64"
    "map_of (dx_pending_requests d) (IdNum k) = Some p" "unat k < unat (next_request d)" "\<not> answers_id (IdNum k) ev"
  shows "map_of (dx_pending_requests d') (IdNum k) = Some p \<and> unat (next_request d) \<le> unat (next_request d') \<and>
    unat (next_request d') \<le> unat (next_request d) + 1"
proof (cases ev)
  case (EvMessage m)
  then show ?thesis using assms handle_message_pending [of ops m d] unat_next [OF assms(2)] by auto
next
  case (EvResponse m)
  then obtain r where "handle_response ops m d u = (r, d', u')" using assms(1) by (cases "handle_response ops m d u") auto
  then show ?thesis using handle_response_pending [of ops m d u r d' u'] EvResponse assms unat_next [OF assms(2)] by auto
qed

lemma run_events_keep:
  assumes "run_events ops evs (d, u) = (d', u')" "unat (next_request d) + length evs < 2 ^ 64"
    "map_of (dx_pending_requests d) (IdNum k) = Some p" "unat k < unat (next_request d)"
    "list_all (\<lambda>ev. \<not> answers_id (IdNum k) ev) evs"
  shows "map_of (dx_pending_requests d') (IdNum k) = Some p"
  using assms
proof (induction evs arbitrary: d u)
  case (Cons ev evs)
  obtain d1 u1 where e: "run_event ops ev (d, u) = (d1, u1)" by fastforce
  have k: "map_of (dx_pending_requests d1) (IdNum k) = Some p" "unat (next_request d) \<le> unat (next_request d1)"
    "unat (next_request d1) \<le> unat (next_request d) + 1"
    using run_event_keeps [OF e _ Cons.prems(3,4)] Cons.prems(2,5) by auto
  show ?case
  proof (rule Cons.IH [OF _ _ k(1)])
    show "run_events ops evs (d1, u1) = (d', u')" using Cons.prems(1) e by (simp add: run_events_def)
  qed (use k Cons.prems in auto)
qed (simp add: run_events_def)

lemma run_events_counter:
  assumes "run_events ops evs (d, u) = (d', u')" "unat (next_request d) + length evs < 2 ^ 64"
  shows "unat (next_request d') \<le> unat (next_request d) + length evs"
  using assms
proof (induction evs arbitrary: d u)
  case (Cons ev evs)
  obtain d1 u1 where e: "run_event ops ev (d, u) = (d1, u1)" by fastforce
  have n: "unat (next_request d) + 1 < 2 ^ 64" using Cons.prems(2) by simp
  have "next_request d1 \<in> {next_request d, next_request d + 1}"
  proof (cases ev)
    case (EvMessage m)
    then show ?thesis using e handle_message_pending [of ops m d] by auto
  next
    case (EvResponse m)
    then show ?thesis using e handle_response_pending [of ops m d u] by (cases "handle_response ops m d u") auto
  qed
  then have "unat (next_request d1) \<le> unat (next_request d) + 1" using unat_next [OF n] by auto
  then show ?case using Cons.IH [of d1 u1] Cons.prems e by (simp add: run_events_def)
qed (simp add: run_events_def)

text \<open>C12: a response reaches the caller that made the request, whatever else happens in between: take
  any fewer than \<open>2 ^ 64\<close> turns of the client task in which a call is made and no response with the
  call's id is processed after it. The request that was queued carries the id the counter had,
  and a response with that id is sent, unchanged, on the call's own one-shot channel, after which
  the id is no longer pending, so that a second response does not reach it.\<close>

theorem response_reaches_its_caller:
  assumes "run_events ops before (duplex_new, u0) = (d1, u1)"
    and "run_events ops after (handle_message ops (MsgCall msg) d1, u1) = (d2, u2)"
    and "length before + length after + 1 < 2 ^ 64"
    and "list_all (\<lambda>ev. \<not> answers_id (IdNum (next_request d1)) ev) after"
    and "handle_response ops (IdNum (next_request d1), res, name, sid) d2 u2 = (r, d3, u3)"
  shows "dx_outgoing (handle_message ops (MsgCall msg) d1) = dx_outgoing d1 @
      [do_to_string ops (SingleRequest (MethodCall
         \<lparr>mc_jsonrpc = Some V2, mc_method = cm_method msg, mc_params = cm_params msg, mc_id = IdNum (next_request d1)\<rparr>))] \<and>
    do_oneshot_send ops (cm_sender msg) res u2 = (r = DuplexContinue, u3) \<and>
    map_of (dx_pending_requests d3) (IdNum (next_request d1)) = None"
proof -
  let ?d = "handle_message ops (MsgCall msg) d1"
  let ?k = "next_request d1"
  have "next_request (duplex_new :: ('a, 'b, 'c, 'd) duplex) = 0"
    by (simp add: next_request_def duplex_new_def request_builder_new_def)
  then have n: "unat ?k \<le> length before" using run_events_counter [OF assms(1)] assms(3) by simp
  then have n': "next_request ?d = ?k + 1" "unat (?k + 1) = unat ?k + 1"
    using assms(3) unat_next [of ?k]
    by (simp_all add: next_request_def call_request_def single_request_def rb_next_id_def Let_def)
  have "map_of (dx_pending_requests ?d) (IdNum ?k) = Some (PendingCall (cm_sender msg))"
    by (simp add: call_request_def single_request_def rb_next_id_def next_request_def Let_def)
  then have p: "map_of (dx_pending_requests d2) (IdNum ?k) = Some (PendingCall (cm_sender msg))"
    using run_events_keep [OF assms(2) _ _ _ assms(4)] n n' assms(3) by simp
  have "do_oneshot_send ops (cm_sender msg) res u2 = (r = DuplexContinue, u3)"
    using assms(5) p
    by (auto simp: handle_response_def Let_def case_prod_beta prod_eq_iff split: bool.splits)
  then show ?thesis
    using handle_response_pending [OF assms(5)]
    by (simp add: call_request_def single_request_def rb_next_id_def next_request_def Let_def)
qed

definition demo_client_call :: "string \<Rightarrow> nat \<Rightarrow> (u64, nat) call_message" where
  "demo_client_call name c = \<lparr>cm_method = name, cm_params = ParamsNone, cm_sender = c\<rparr>"

theorem response_reaches_its_caller_witness:
  "\<exists>d2 u2 r d3 u3.
     run_events demo_duplex_ops [EvMessage (MsgCall (demo_client_call ''c'' 8)), EvResponse (IdNum 0, Ok VNull, None, None)]
       (handle_message demo_duplex_ops (MsgCall (demo_client_call ''b'' 7))
          (handle_message demo_duplex_ops (MsgCall (demo_client_call ''a'' 6)) duplex_new), []) = (d2, u2) \<and>
     handle_response demo_duplex_ops (IdNum 1, Ok (VBool True), None, None) d2 u2 = (r, d3, u3) \<and>
     do_oneshot_send demo_duplex_ops 7 (Ok (VBool True)) u2 = (r = DuplexContinue, u3)"
proof -
  let ?o = demo_duplex_ops
  let ?d = "handle_message ?o (MsgCall (demo_client_call ''a'' 6)) duplex_new"
  let ?d1 = "handle_message ?o (MsgCall (demo_client_call ''b'' 7)) ?d"
  let ?after = "[EvMessage (MsgCall (demo_client_call ''c'' 8)), EvResponse (IdNum 0, Ok VNull, None, None)]"
  have b: "run_events ?o [EvMessage (MsgCall (demo_client_call ''a'' 6))] (duplex_new, []) = (?d, [])"
    by (simp add: run_events_def)
  have n: "next_request ?d = 1"
    by (simp add: next_request_def duplex_new_def request_builder_new_def call_request_def single_request_def
        rb_next_id_def Let_def)
  obtain d2 u2 where a: "run_events ?o ?after (?d1, []) = (d2, u2)" by fastforce
  obtain r d3 u3 where h: "handle_response ?o (IdNum 1, Ok (VBool True), None, None) d2 u2 = (r, d3, u3)"
    by (metis surj_pair)
  have "do_oneshot_send ?o 7 (Ok (VBool True)) u2 = (r = DuplexContinue, u3)"
    using response_reaches_its_caller [OF b a, of "Ok (VBool True)" None None r d3 u3] h n
    by (simp add: demo_client_call_def)
  then show ?thesis using a h by blast
qed

section \<open>Subscriptions\<close>

lemma hm_remove_absent: "map_of m k = None \<Longrightarrow> snd (hm_remove k m) = m"
  by (simp add: hm_remove_def map_of_eq_None_iff AList.delete_idem)

lemma handle_notification_active:
  assumes "map_of (dx_pending_requests d) IdNull = None"
    and "map_of (dx_subscriptions d) (s, name) = Some sub" "sub_id sub = Some s"
  shows "handle_response ops (IdNull, res, Some name, Some s) d u =
    (case do_stream_send ops (sub_channel sub) res u of
       (True, u') \<Rightarrow> (DuplexContinue, d, u')
     | (False, u') \<Rightarrow>
         (DuplexContinue,
          d\<lparr>dx_subscriptions := snd (hm_remove (s, name) (dx_subscriptions d)),
            dx_request_builder := snd (rb_next_id (dx_request_builder d)),
            dx_outgoing := dx_outgoing d @
              [do_to_string ops (SingleRequest (MethodCall
                 \<lparr>mc_jsonrpc = Some V2, mc_method = sub_unsubscribe sub,
                  mc_params = ParamsArray [sub_into_value (do_from_u64 ops) s], mc_id = IdNum (next_request d)\<rparr>))]\<rparr>, u'))"
  using assms hm_remove_absent [OF assms(1)]
  by (auto simp: handle_response_def deliver_notification_def unsubscribe_request_def single_request_def rb_next_id_def
      next_request_def Let_def case_prod_beta split: prod.splits bool.splits)

text \<open>C34: the life of a subscription. When the server's answer to a pending subscribe request is
  a subscription id, every notification with that id and the subscription's notification name goes
  to the subscription's stream and changes nothing else while the stream is open; the first one
  that finds the stream dropped queues a call of the subscription's unsubscribe method with the id
  as its parameter, and the subscription is forgotten.\<close>

theorem subscription_lifecycle:
  assumes "map_of (dx_pending_requests d) i = Some (PendingSubscription sub)"
    and "map_of (dx_pending_requests d) IdNull = None"
    and "sub_parse_value (do_as_u64 ops) v = Some s"
    and "handle_response ops (i, Ok v, nm, sd) d u = (r, d1, u1)"
  shows "r = DuplexContinue \<and> u1 = u \<and>
    (case do_stream_send ops (sub_channel sub) res u2 of
       (True, u3) \<Rightarrow>
         handle_response ops (IdNull, res, Some (sub_notification sub), Some s) d1 u2 = (DuplexContinue, d1, u3)
     | (False, u3) \<Rightarrow>
         (\<exists>d2. handle_response ops (IdNull, res, Some (sub_notification sub), Some s) d1 u2 = (DuplexContinue, d2, u3) \<and>
            dx_outgoing d2 = dx_outgoing d1 @
              [do_to_string ops (SingleRequest (MethodCall
                 \<lparr>mc_jsonrpc = Some V2, mc_method = sub_unsubscribe sub,
                  mc_params = ParamsArray [sub_into_value (do_from_u64 ops) s], mc_id = IdNum (next_request d1)\<rparr>))] \<and>
            map_of (dx_subscriptions d2) = (map_of (dx_subscriptions d1))((s, sub_notification sub) := None)))"
proof -
  let ?key = "(s, sub_notification sub)"
  have d1: "r = DuplexContinue" "u1 = u" "map_of (dx_subscriptions d1) ?key = Some (sub\<lparr>sub_id := Some s\<rparr>)"
    using assms by (auto simp: handle_response_def Let_def case_prod_beta)
  have "map_of (dx_pending_requests d1) IdNull = None"
    using handle_response_pending [OF assms(4)] assms(2) by simp
  note active = handle_notification_active [OF this d1(3), of ops res u2]
  show ?thesis using d1 active by (auto split: prod.splits bool.splits)
qed

definition demo_pending_duplex :: "(u64, nat, nat, unit) duplex" where
  "demo_pending_duplex = duplex_new\<lparr>dx_pending_requests := [(IdNum 0, PendingSubscription (subscription_new 9 ''tick'' ''stop''))]\<rparr>"

theorem subscription_lifecycle_witness:
  "\<exists>r d1 u1 d2. handle_response demo_duplex_ops (IdNum 0, Ok (VNumber 5), None, None) demo_pending_duplex [] = (r, d1, u1) \<and>
     handle_response demo_duplex_ops (IdNull, Ok VNull, Some ''tick'', Some (SubNumber 5)) d1 [] = (DuplexContinue, d2, []) \<and>
     dx_outgoing d2 = dx_outgoing d1 @ [''stop'']"
proof -
  obtain r d1 u1 where h:
    "handle_response demo_duplex_ops (IdNum 0, Ok (VNumber 5), None, None) demo_pending_duplex [] = (r, d1, u1)"
    by (metis surj_pair)
  show ?thesis
    using h subscription_lifecycle [OF _ _ _ h, of "subscription_new 9 ''tick'' ''stop''" "SubNumber 5" "Ok VNull" "[]"]
    by (auto simp: demo_pending_duplex_def duplex_new_def demo_duplex_ops_def subscription_new_def)
qed

end
