(* ===== verification/Client_Http.thy ===== *)
theory Client_Http
  imports Client Stream_Codec
begin

text \<open>
  The HTTP client transport (\<open>core-client/transports/src/transports/http.rs\<close>): one POST per message,
  at most eight in flight, and each caller resumed with the response to its own request.

  Requests are answered by \<open>respond\<close>, which stands for the network and the server: for the text of a
  request, what the \<open>hyper\<close> client gives back for it, and \<open>None\<close> when it never gives anything back. The
  requests in flight complete in any order; \<open>buffer_unordered\<close> takes the next message while fewer than eight are in
  flight.
\<close>

section \<open>Lossy decoding (\<open>String::from_utf8_lossy\<close>)\<close>

text \<open>A proper prefix of a character can be completed by continuation bytes.\<close>

definition utf8_partial :: "string \<Rightarrow> bool" where
  "utf8_partial t \<longleftrightarrow>
     list_ex (\<lambda>c. utf8_valid (t @ [c]) \<or> utf8_valid (t @ [c, CHR 0x80]) \<or> utf8_valid (t @ [c, CHR 0x80, CHR 0x80]))
       [CHR 0x80, CHR 0x90, CHR 0xA0]"

definition utf8_char_len :: "string \<Rightarrow> nat option" where
  "utf8_char_len s = List.find (\<lambda>k. k \<le> length s \<and> utf8_valid (take k s)) [1, 2, 3, 4]"

text \<open>The length of the part that one replacement character stands for.\<close>

definition utf8_bad_len :: "string \<Rightarrow> nat" where
  "utf8_bad_len s = (case List.find (\<lambda>k. k \<le> length s \<and> utf8_partial (take k s)) [3, 2] of Some k \<Rightarrow> k | None \<Rightarrow> 1)"

function from_utf8_lossy :: "string \<Rightarrow> string" where
  "from_utf8_lossy [] = []"
| "from_utf8_lossy (c # s) =
     (case utf8_char_len (c # s) of
        Some k \<Rightarrow> take k (c # s) @ from_utf8_lossy (drop k (c # s))
      | None \<Rightarrow> [CHR 0xEF, CHR 0xBF, CHR 0xBD] @ from_utf8_lossy (drop (utf8_bad_len (c # s)) (c # s)))"
  by pat_completeness auto
termination
  by (relation "measure length")
    (auto simp: utf8_char_len_def utf8_bad_len_def find_Some_iff split: option.splits if_splits)

section \<open>Requests and answers\<close>

type_synonym 'c http_job = "string \<times> 'c option"

fun http_message ::
    "('n request \<Rightarrow> string) \<Rightarrow> ('n, 'c, 's) rpc_message \<Rightarrow> request_builder \<Rightarrow> 'c http_job option \<times> request_builder" where
  "http_message to_string (MsgCall c) b =
     (let ((_, request), b') = call_request to_string c b in (Some (request, Some (cm_sender c)), b'))"
| "http_message to_string (MsgNotify n) b = (Some (notification_request to_string n, None), b)"
| "http_message to_string (MsgSubscribe _) b = (None, b)"

record http_post =
  hp_url :: string
  hp_headers :: "(string \<times> string) list"
  hp_body :: string

definition http_request :: "string \<Rightarrow> string \<Rightarrow> http_post" where
  "http_request url request =
     \<lparr>hp_url = url, hp_headers = [(''content-type'', ''application/json''), (''accept'', ''application/json'')],
      hp_body = request\<rparr>"

text \<open>What the HTTP client gives for a request: a response with its status and the outcome of reading
  its body, where an error comes with its display text, or an error.\<close>

datatype 'x http_outcome = HttpResponse u16 "(string, string \<times> 'x) result" | HttpFailed 'x

definition status_is_success :: "u16 \<Rightarrow> bool" where
  "status_is_success s \<longleftrightarrow> 200 \<le> s \<and> s < 300"

fun http_result :: "(u16 \<Rightarrow> string) \<Rightarrow> 'x http_outcome \<Rightarrow> (string, 'n, 'x) client_result" where
  "http_result status_text (HttpResponse status body) =
     (if \<not> status_is_success status
      then Err (ClientError (''Unexpected response status code: '' @ status_text status))
      else map_err (\<lambda>(t, x). ClientParseError t x) body)"
| "http_result status_text (HttpFailed e) = Err (OtherError e)"

definition http_answer ::
    "(u16 \<Rightarrow> string) \<Rightarrow> ('n \<Rightarrow> u64 option) \<Rightarrow> ('n \<Rightarrow> i64 option) \<Rightarrow> (string \<Rightarrow> ('n client_response, string \<times> 'x) result)
     \<Rightarrow> 'x http_outcome \<Rightarrow> ('n json, 'n, 'x) client_result" where
  "http_answer status_text as_u64 as_i64 serde_from_str out =
     and_then (and_then (http_result status_text out)
         (\<lambda>response. parse_response as_u64 as_i64 serde_from_str (from_utf8_lossy response)))
       (\<lambda>r. fst (snd r))"

section \<open>The task\<close>

text \<open>The messages not yet taken from the channel, the requests in flight, and the answers sent to
  callers, in this order.\<close>

record ('n, 'c, 's, 'x) http_task =
  ht_builder :: request_builder
  ht_messages :: "('n, 'c, 's) rpc_message list"
  ht_flight :: "'c http_job list"
  ht_answers :: "('c \<times> ('n json, 'n, 'x) client_result) list"

definition max_parallel :: nat where
  "max_parallel = 8"

definition http_start :: "('n, 'c, 's) rpc_message list \<Rightarrow> ('n, 'c, 's, 'x) http_task" where
  "http_start ms = \<lparr>ht_builder = request_builder_new, ht_messages = ms, ht_flight = [], ht_answers = []\<rparr>"

text \<open>Taking the next message, when fewer than eight requests are in flight.\<close>

definition http_pull ::
    "('n request \<Rightarrow> string) \<Rightarrow> ('n, 'c, 's, 'x) http_task \<Rightarrow> ('n, 'c, 's, 'x) http_task option" where
  "http_pull to_string t =
     (case ht_messages t of
        [] \<Rightarrow> None
      | m # ms \<Rightarrow>
          if length (ht_flight t) < max_parallel then
            (case http_message to_string m (ht_builder t) of
               (job, b) \<Rightarrow> Some (t\<lparr>ht_builder := b, ht_messages := ms,
                 ht_flight := ht_flight t @ (case job of Some j \<Rightarrow> [j] | None \<Rightarrow> [])\<rparr>))
          else None)"

text \<open>Completion of a request in flight, once the network has given its outcome (\<open>None\<close>: it never does): the
  response and its body are received and the caller is sent the answer to the request it made.
  Waiting for the body, which holds the stream of responses, is part of this step.\<close>

definition http_complete ::
    "('x http_outcome \<Rightarrow> ('n json, 'n, 'x) client_result) \<Rightarrow> (string \<Rightarrow> 'x http_outcome option) \<Rightarrow> nat
     \<Rightarrow> ('n, 'c, 's, 'x) http_task \<Rightarrow> ('n, 'c, 's, 'x) http_task option" where
  "http_complete answer respond i t =
     (if i < length (ht_flight t) then
        (case ht_flight t ! i of
           (request, sender) \<Rightarrow>
             (case respond request of
                None \<Rightarrow> None
              | Some out \<Rightarrow>
                  Some (t\<lparr>ht_flight := take i (ht_flight t) @ drop (Suc i) (ht_flight t),
                    ht_answers := ht_answers t @ (case sender of Some c \<Rightarrow> [(c, answer out)] | None \<Rightarrow> [])\<rparr>)))
      else None)"

text \<open>\<open>buffer_unordered\<close> of the \<open>futures\<close> crate, by its documented behaviour: while fewer futures than its bound
  are in flight it may pull the next one, and it yields the result of any future that is ready.\<close>

inductive http_step ::
    "('n request \<Rightarrow> string) \<Rightarrow> ('x http_outcome \<Rightarrow> ('n json, 'n, 'x) client_result) \<Rightarrow> (string \<Rightarrow> 'x http_outcome option)
     \<Rightarrow> ('n, 'c, 's, 'x) http_task \<Rightarrow> ('n, 'c, 's, 'x) http_task \<Rightarrow> bool"
  for to_string answer respond where
  pull: "http_pull to_string t = Some t' \<Longrightarrow> http_step to_string answer respond t t'"
| complete: "http_complete answer respond i t = Some t' \<Longrightarrow> http_step to_string answer respond t t'"

inductive_cases http_stepE: "http_step to_string answer respond t t'"

section \<open>Every caller gets the answer to its request\<close>

text \<open>The requests made for a list of messages, and the answer due to the caller of each.\<close>

fun http_jobs ::
    "('n request \<Rightarrow> string) \<Rightarrow> request_builder \<Rightarrow> ('n, 'c, 's) rpc_message list \<Rightarrow> 'c http_job list" where
  "http_jobs to_string b [] = []"
| "http_jobs to_string b (m # ms) =
     (case http_message to_string m b of
        (job, b') \<Rightarrow> (case job of Some j \<Rightarrow> [j] | None \<Rightarrow> []) @ http_jobs to_string b' ms)"

definition due ::
    "('x http_outcome \<Rightarrow> ('n json, 'n, 'x) client_result) \<Rightarrow> (string \<Rightarrow> 'x http_outcome option) \<Rightarrow> 'c http_job
     \<Rightarrow> ('c \<times> ('n json, 'n, 'x) client_result) multiset" where
  "due answer respond job =
     (case (snd job, respond (fst job)) of (Some c, Some out) \<Rightarrow> {#(c, answer out)#} | _ \<Rightarrow> {#})"

definition all_due ::
    "('n request \<Rightarrow> string) \<Rightarrow> ('x http_outcome \<Rightarrow> ('n json, 'n, 'x) client_result) \<Rightarrow> (string \<Rightarrow> 'x http_outcome option)
     \<Rightarrow> ('n, 'c, 's, 'x) http_task \<Rightarrow> ('c \<times> ('n json, 'n, 'x) client_result) multiset" where
  "all_due to_string answer respond t =
     mset (ht_answers t) + (\<Sum>j\<in>#mset (ht_flight t @ http_jobs to_string (ht_builder t) (ht_messages t)). due answer respond j)"

definition http_finished :: "('n, 'c, 's, 'x) http_task \<Rightarrow> bool" where
  "http_finished t \<longleftrightarrow> ht_messages t = [] \<and> ht_flight t = []"

definition http_weight :: "('n, 'c, 's, 'x) http_task \<Rightarrow> nat" where
  "http_weight t = 2 * length (ht_messages t) + length (ht_flight t)"

lemma pull_keeps:
  assumes "http_pull to_string t = Some t'"
  shows "all_due to_string answer respond t' = all_due to_string answer respond t"
    and "http_weight t' < http_weight t" and "length (ht_flight t) < max_parallel"
    and "length (ht_flight t') \<le> Suc (length (ht_flight t))"
  using assms
  by (auto simp: http_pull_def all_due_def http_weight_def split: list.splits if_splits prod.splits option.splits)

lemma complete_keeps:
  assumes "http_complete answer respond i t = Some t'"
  shows "all_due to_string answer respond t' = all_due to_string answer respond t"
    and "http_weight t' < http_weight t" and "length (ht_flight t') \<le> length (ht_flight t)"
proof -
  obtain request sender out where i: "i < length (ht_flight t)" "ht_flight t ! i = (request, sender)" "respond request = Some out"
    and t': "t' = t\<lparr>ht_flight := take i (ht_flight t) @ drop (Suc i) (ht_flight t),
      ht_answers := ht_answers t @ (case sender of Some c \<Rightarrow> [(c, answer out)] | None \<Rightarrow> [])\<rparr>"
    using assms by (auto simp: http_complete_def split: if_splits prod.splits option.splits)
  have "mset (ht_answers t') = mset (ht_answers t) + due answer respond (ht_flight t ! i)"
    by (simp add: t' i(2,3) due_def split: option.splits)
  moreover have "mset (ht_flight t) = add_mset (ht_flight t ! i) (mset (ht_flight t'))"
    using mset_remove_nth [OF i(1)] by (simp add: t')
  ultimately show "all_due to_string answer respond t' = all_due to_string answer respond t"
    by (simp add: all_due_def t' ac_simps)
  show "http_weight t' < http_weight t" "length (ht_flight t') \<le> length (ht_flight t)"
    using i(1) by (simp_all add: t' http_weight_def)
qed

text \<open>The requests that are in flight or will be made get an answer.\<close>

definition all_respond ::
    "('n request \<Rightarrow> string) \<Rightarrow> (string \<Rightarrow> 'x http_outcome option) \<Rightarrow> ('n, 'c, 's, 'x) http_task \<Rightarrow> bool" where
  "all_respond to_string respond t \<longleftrightarrow>
     (\<forall>j \<in> set (ht_flight t @ http_jobs to_string (ht_builder t) (ht_messages t)). respond (fst j) \<noteq> None)"

lemma all_respond_step: "http_step to_string answer respond s t \<Longrightarrow> all_respond to_string respond s \<Longrightarrow> all_respond to_string respond t"
proof (erule http_stepE)
  assume "http_pull to_string s = Some t" "all_respond to_string respond s"
  then show ?thesis
    by (auto simp: http_pull_def all_respond_def split: list.splits if_splits prod.splits option.splits)
next
  fix i assume c: "http_complete answer respond i s = Some t" and all: "all_respond to_string respond s"
  have "set (ht_flight t) \<subseteq> set (ht_flight s) \<and> ht_builder t = ht_builder s \<and> ht_messages t = ht_messages s"
    using c by (auto simp: http_complete_def split: if_splits prod.splits option.splits dest: in_set_takeD in_set_dropD)
  then show ?thesis using all by (auto simp: all_respond_def)
qed

interpretation http: progress_system "http_step to_string answer respond" http_finished http_weight "all_respond to_string respond"
proof
  fix s t
  show "http_step to_string answer respond s t \<Longrightarrow> http_weight t < http_weight s"
    by (erule http_stepE) (auto dest: pull_keeps complete_keeps)
  show "all_respond to_string respond s \<Longrightarrow> http_step to_string answer respond s t \<Longrightarrow> all_respond to_string respond t"
    by (rule all_respond_step)
  assume "\<not> http_finished s" and respond: "all_respond to_string respond s"
  show "\<exists>t. http_step to_string answer respond s t"
  proof (cases "ht_flight s = []")
    case True
    with \<open>\<not> http_finished s\<close> obtain m ms where "ht_messages s = m # ms"
      by (auto simp: http_finished_def neq_Nil_conv)
    then have "http_pull to_string s \<noteq> None"
      using True by (simp add: http_pull_def max_parallel_def split: prod.splits)
    then show ?thesis by (blast intro: http_step.pull)
  next
    case False
    then have "respond (fst (ht_flight s ! 0)) \<noteq> None" using respond by (auto simp: all_respond_def)
    then have "http_complete answer respond 0 s \<noteq> None"
      using False by (auto simp: http_complete_def split: prod.splits)
    then show ?thesis by (blast intro: http_step.complete)
  qed
qed

definition http_inv ::
    "('n request \<Rightarrow> string) \<Rightarrow> ('x http_outcome \<Rightarrow> ('n json, 'n, 'x) client_result) \<Rightarrow> (string \<Rightarrow> 'x http_outcome option)
     \<Rightarrow> ('n, 'c, 's) rpc_message list \<Rightarrow> ('n, 'c, 's, 'x) http_task \<Rightarrow> bool" where
  "http_inv to_string answer respond ms t \<longleftrightarrow>
     length (ht_flight t) \<le> max_parallel \<and>
     all_due to_string answer respond t = all_due to_string answer respond (http_start ms)"

interpretation http_safe: invariant_system "\<lambda>t. t = http_start ms" "http_step to_string answer respond"
    "http_inv to_string answer respond ms"
proof
  fix s t
  show "s = http_start ms \<Longrightarrow> http_inv to_string answer respond ms s"
    by (simp add: http_inv_def http_start_def)
  assume "http_inv to_string answer respond ms s" and "http_step to_string answer respond s t"
  from this(2,1) show "http_inv to_string answer respond ms t"
  proof cases
    case pull
    then show ?thesis
      using pull_keeps(1,3,4) [OF pull] \<open>http_inv to_string answer respond ms s\<close> by (simp add: http_inv_def)
  next
    case (complete i)
    then show ?thesis
      using complete_keeps(1,3) [OF complete] \<open>http_inv to_string answer respond ms s\<close> by (simp add: http_inv_def)
  qed
qed

text \<open>When every request that is made gets an answer, the task gets its work done, however the requests in flight are
  interleaved, and exactly the callers have been answered, each once and with the answer to its own request.\<close>

lemma http_jobs_answered:
  assumes "\<forall>j \<in> set (http_jobs to_string request_builder_new ms). respond (fst j) \<noteq> None"
  shows "\<exists>t. reaches (http_step to_string answer respond) (http_start ms) t \<and> http_finished t"
    and "\<exists>n. \<forall>k t. (http_step to_string answer respond ^^ k) (http_start ms) t \<longrightarrow> k \<le> n"
    and "reaches (http_step to_string answer respond) (http_start ms) t \<Longrightarrow> \<not> http_finished t \<Longrightarrow>
      \<exists>t'. http_step to_string answer respond t t'"
    and "reaches (http_step to_string answer respond) (http_start ms) t \<Longrightarrow> http_finished t \<Longrightarrow>
      mset (ht_answers t) = (\<Sum>j\<in>#mset (http_jobs to_string request_builder_new ms). due answer respond j)"
proof -
  have "all_respond to_string respond (http_start ms)" using assms by (simp add: all_respond_def http_start_def)
  note ok = this
  then show "\<exists>t. reaches (http_step to_string answer respond) (http_start ms) t \<and> http_finished t"
    by (rule http.gets_finished)
  show "\<exists>n. \<forall>k t. (http_step to_string answer respond ^^ k) (http_start ms) t \<longrightarrow> k \<le> n"
    using http.run_bounded add_leD1 by blast
  show "\<exists>t'. http_step to_string answer respond t t'"
    if "reaches (http_step to_string answer respond) (http_start ms) t" "\<not> http_finished t"
    using http.enabled [OF http.ok_reaches [OF ok that(1)] that(2)] .
  assume "reaches (http_step to_string answer respond) (http_start ms) t" and "http_finished t"
  from http_safe.inv_reachable [OF refl this(1)] this(2)
  show "mset (ht_answers t) = (\<Sum>j\<in>#mset (http_jobs to_string request_builder_new ms). due answer respond j)"
    by (simp add: http_inv_def all_due_def http_start_def http_finished_def)
qed

end
