(* ===== verification/Client_Ws.thy ===== *)
theory Client_Ws
  imports Client
begin

text \<open>
  The WebSocket client transport (\<open>core-client/transports/src/transports/ws.rs\<close>): a sink of requests
  with an unbounded queue in front of the socket, and a stream of responses that queues replies to
  control messages; and the way a stream of results is cut at its first error, here and in the IPC
  client (\<open>ipc.rs\<close>).

  The socket is the sink and the stream of the \<open>websocket\<close> crate behind the compatibility layer of the
  \<open>futures\<close> crate: its operations are arguments that act on a state \<open>'u\<close>.
\<close>

section \<open>The socket\<close>

datatype owned_message = Text string | Binary string | Ping string | Pong string | CloseMsg "string option"

record ('u, 'e) socket_ops =
  so_poll_ready :: "'u \<Rightarrow> (unit, 'e) result poll \<times> 'u"
  so_start_send :: "owned_message \<Rightarrow> 'u \<Rightarrow> (unit, 'e) result \<times> 'u"
  so_poll_flush :: "'u \<Rightarrow> (unit, 'e) result poll \<times> 'u"
  so_poll_close :: "'u \<Rightarrow> (unit, 'e) result poll \<times> 'u"

record 'u ws_client =
  wc_socket :: 'u
  wc_queue :: "owned_message list"

definition ws_client_new :: "'u \<Rightarrow> 'u ws_client" where
  "ws_client_new u = \<lparr>wc_socket = u, wc_queue = []\<rparr>"

section \<open>The sink\<close>

text \<open>Forwarding the queue, with the socket ready for its first message.\<close>

fun drain_queue ::
    "('u, 'e) socket_ops \<Rightarrow> owned_message list \<Rightarrow> 'u \<Rightarrow> (unit, 'e) result poll \<times> owned_message list \<times> 'u" where
  "drain_queue so [] u = (Ready (Ok ()), [], u)"
| "drain_queue so (item # q) u =
     (case so_start_send so item u of
        (Err e, u1) \<Rightarrow> (Ready (Err e), q, u1)
      | (Ok _, u1) \<Rightarrow>
          if q \<noteq> [] then
            (case so_poll_ready so u1 of
               (Ready (Ok _), u2) \<Rightarrow> drain_queue so q u2
             | (Ready (Err e), u2) \<Rightarrow> (Ready (Err e), q, u2)
             | (Pending, u2) \<Rightarrow> (Pending, q, u2))
          else (Ready (Ok ()), [], u1))"

definition try_empty_buffer :: "('u, 'e) socket_ops \<Rightarrow> 'u ws_client \<Rightarrow> (unit, 'e) result poll \<times> 'u ws_client" where
  "try_empty_buffer so c =
     (case so_poll_ready so (wc_socket c) of
        (Ready (Ok _), u) \<Rightarrow>
          (case drain_queue so (wc_queue c) u of (r, q, u') \<Rightarrow> (r, c\<lparr>wc_socket := u', wc_queue := q\<rparr>))
      | (Ready (Err e), u) \<Rightarrow> (Ready (Err e), c\<lparr>wc_socket := u\<rparr>)
      | (Pending, u) \<Rightarrow> (Pending, c\<lparr>wc_socket := u\<rparr>))"

definition ws_start_send :: "('u, 'e) socket_ops \<Rightarrow> string \<Rightarrow> 'u ws_client \<Rightarrow> (unit, 'e) result \<times> 'u ws_client" where
  "ws_start_send so request c =
     (if wc_queue c = []
      then (case so_start_send so (Text request) (wc_socket c) of (r, u) \<Rightarrow> (r, c\<lparr>wc_socket := u\<rparr>))
      else (Ok (), c\<lparr>wc_queue := wc_queue c @ [Text request]\<rparr>))"

text \<open>An error of the socket is returned; that it is not ready for the whole queue is not waited for.\<close>

definition ws_poll_ready :: "('u, 'e) socket_ops \<Rightarrow> 'u ws_client \<Rightarrow> (unit, 'e) result poll \<times> 'u ws_client" where
  "ws_poll_ready so c =
     (if wc_queue c = [] then
        (case so_poll_ready so (wc_socket c) of (r, u) \<Rightarrow> (r, c\<lparr>wc_socket := u\<rparr>))
      else
        (case try_empty_buffer so c of
           (Ready (Err e), c') \<Rightarrow> (Ready (Err e), c')
         | (_, c') \<Rightarrow> (Ready (Ok ()), c')))"

definition ws_after_empty ::
    "('u, 'e) socket_ops \<Rightarrow> ('u \<Rightarrow> (unit, 'e) result poll \<times> 'u) \<Rightarrow> 'u ws_client \<Rightarrow> (unit, 'e) result poll \<times> 'u ws_client" where
  "ws_after_empty so f c =
     (case try_empty_buffer so c of
        (Ready (Ok _), c') \<Rightarrow> (case f (wc_socket c') of (r, u) \<Rightarrow> (r, c'\<lparr>wc_socket := u\<rparr>))
      | (r, c') \<Rightarrow> (r, c'))"

definition ws_poll_flush :: "('u, 'e) socket_ops \<Rightarrow> 'u ws_client \<Rightarrow> (unit, 'e) result poll \<times> 'u ws_client" where
  "ws_poll_flush so c = ws_after_empty so (so_poll_flush so) c"

definition ws_poll_close :: "('u, 'e) socket_ops \<Rightarrow> 'u ws_client \<Rightarrow> (unit, 'e) result poll \<times> 'u ws_client" where
  "ws_poll_close so c = ws_after_empty so (so_poll_close so) c"

section \<open>The stream\<close>

text \<open>What one poll of the stream reads: the messages that have arrived, ended by an error, the end of
  the stream or by nothing more for now. The second component is what is left to read.\<close>

datatype 'e stream_event = Arrived owned_message | StreamFailed 'e | StreamEnd

fun ws_poll_next ::
    "'e stream_event list \<Rightarrow> owned_message list \<Rightarrow> (string, 'e) result option poll \<times> owned_message list \<times> 'e stream_event list" where
  "ws_poll_next [] q = (Pending, q, [])"
| "ws_poll_next (Arrived m # es) q =
     (case m of
        Text s \<Rightarrow> (Ready (Some (Ok s)), q, es)
      | Binary _ \<Rightarrow> ws_poll_next es q
      | Ping p \<Rightarrow> ws_poll_next es (Pong p # q)
      | Pong _ \<Rightarrow> ws_poll_next es q
      | CloseMsg c \<Rightarrow> ws_poll_next es (CloseMsg c # q))"
| "ws_poll_next (StreamFailed e # es) q = (Ready (Some (Err e)), q, es)"
| "ws_poll_next (StreamEnd # es) q = (Ready None, q, es)"

text \<open>\<open>take_while(is_ok)\<close> followed by \<open>map(expect)\<close>: one poll of the stream that ends at the first error.\<close>

fun until_error_poll :: "bool \<Rightarrow> ('a, 'e) result option poll \<Rightarrow> 'a option poll \<times> bool" where
  "until_error_poll True _ = (Ready None, True)"
| "until_error_poll False Pending = (Pending, False)"
| "until_error_poll False (Ready (Some (Ok a))) = (Ready (Some a), False)"
| "until_error_poll False (Ready (Some (Err _))) = (Ready None, True)"
| "until_error_poll False (Ready None) = (Ready None, False)"

section \<open>What the sink of the socket promises\<close>

text \<open>The contract of \<open>futures::Sink\<close>: a message may be started once the sink was polled ready, and a sink
  that was polled ready keeps the message it is then given. \<open>sent\<close> lists the messages that the sink
  has taken; the polls take none and lose none. Nothing is promised of a message that is started on
  a sink that is not ready.\<close>

definition sink_contract :: "('u, 'e) socket_ops \<Rightarrow> ('u \<Rightarrow> bool) \<Rightarrow> ('u \<Rightarrow> owned_message list) \<Rightarrow> bool" where
  "sink_contract so ready sent \<longleftrightarrow>
     (\<forall>u. sent (snd (so_poll_ready so u)) = sent u \<and> sent (snd (so_poll_flush so u)) = sent u \<and>
          sent (snd (so_poll_close so u)) = sent u \<and>
          (fst (so_poll_ready so u) = Ready (Ok ()) \<longrightarrow> ready (snd (so_poll_ready so u)))) \<and>
     (\<forall>m u. ready u \<and> fst (so_start_send so m u) = Ok () \<longrightarrow> sent (snd (so_start_send so m u)) = sent u @ [m])"

lemma sink_contractD:
  assumes "sink_contract so ready sent"
  shows "so_poll_ready so u = (r, u') \<Longrightarrow> sent u' = sent u"
    and "so_poll_ready so u = (Ready (Ok x), u') \<Longrightarrow> ready u'"
    and "sent (snd (so_poll_flush so u)) = sent u" and "sent (snd (so_poll_close so u)) = sent u"
    and "ready u \<Longrightarrow> so_start_send so m u = (Ok x, u') \<Longrightarrow> sent u' = sent u @ [m]"
  using assms unfolding sink_contract_def by (metis fst_conv snd_conv, metis fst_conv snd_conv old.unit.exhaust,
    blast, blast, metis fst_conv snd_conv old.unit.exhaust)

text \<open>The queue is forwarded within the contract: every message of it is started on a ready sink.\<close>

lemma drain_keeps:
  assumes "sink_contract so ready sent"
  shows "drain_queue so q u = (r, q', u') \<Longrightarrow> (\<And>e. r \<noteq> Ready (Err e)) \<Longrightarrow> ready u \<Longrightarrow> sent u' @ q' = sent u @ q"
proof (induction q arbitrary: u)
  case (Cons item q)
  note polled = sink_contractD(1,2) [OF assms] and send = sink_contractD(5) [OF assms Cons.prems(3)]
  obtain x u1 where s: "so_start_send so item u = (Ok x, u1)"
    using Cons.prems by (cases "so_start_send so item u") (auto split: result.splits)
  show ?case
  proof (cases "q = []")
    case True
    then show ?thesis using Cons.prems s send [OF s] by simp
  next
    case False
    obtain p u2 where p: "so_poll_ready so u1 = (p, u2)" by fastforce
    show ?thesis
    proof (cases p)
      case Pending
      then show ?thesis using Cons.prems s p False send [OF s] polled(1) [OF p] by auto
    next
      case (Ready y)
      then obtain z where z: "y = Ok z" using Cons.prems s p False by (cases y) auto
      then have "drain_queue so q u2 = (r, q', u')" using Cons.prems(1) s p False Ready by simp
      from Cons.IH [OF this Cons.prems(2)] show ?thesis using send [OF s] polled(1) [OF p] p z Ready polled(2) by auto
    qed
  qed
qed simp

lemma try_empty_keeps:
  assumes "sink_contract so ready sent" and "try_empty_buffer so c = (r, c')" and "\<And>e. r \<noteq> Ready (Err e)"
  shows "sent (wc_socket c') @ wc_queue c' = sent (wc_socket c) @ wc_queue c"
  using assms(2,3) sink_contractD(1,2) [OF assms(1)] drain_keeps [OF assms(1)]
  by (fastforce simp: try_empty_buffer_def split: prod.splits poll.splits result.splits)

lemma after_empty_keeps:
  assumes "sink_contract so ready sent" and "\<And>u. sent (snd (f u)) = sent u"
    and "ws_after_empty so f c = (r, c')" and "\<And>e. r \<noteq> Ready (Err e)"
  shows "sent (wc_socket c') @ wc_queue c' = sent (wc_socket c) @ wc_queue c"
proof -
  obtain r1 c1 where e: "try_empty_buffer so c = (r1, c1)" by fastforce
  have keeps: "(\<And>e. r1 \<noteq> Ready (Err e)) \<Longrightarrow> sent (wc_socket c1) @ wc_queue c1 = sent (wc_socket c) @ wc_queue c"
    by (rule try_empty_keeps [OF assms(1) e])
  obtain r2 u2 where f: "f (wc_socket c1) = (r2, u2)" by fastforce
  have "sent u2 = sent (wc_socket c1)" using assms(2) [of "wc_socket c1"] f by simp
  then show ?thesis using assms(3,4) keeps e f by (auto simp: ws_after_empty_def split: poll.splits result.splits)
qed

section \<open>Runs of the transport\<close>

text \<open>What the client task does with the transport (\<open>Duplex::poll\<close> in \<open>duplex.rs\<close>): it polls the
  transport ready and, when it is, starts the next request or finds that there is none; it flushes,
  closes, and polls the stream. A step gives the requests that the transport has accepted; a run stops
  at the first error of the socket.\<close>

datatype 'e ws_op = OpReady | OpRequest string | OpFlush | OpClose | OpPollNext "'e stream_event list"

fun poll_ok :: "(unit, 'e) result poll \<times> 'a \<Rightarrow> 'a option" where
  "poll_ok (Ready (Err _), c) = None"
| "poll_ok (_, c) = Some c"

fun ws_op_step :: "('u, 'e) socket_ops \<Rightarrow> 'e ws_op \<Rightarrow> 'u ws_client \<Rightarrow> (owned_message list \<times> 'u ws_client) option" where
  "ws_op_step so OpReady c = map_option (Pair []) (poll_ok (ws_poll_ready so c))"
| "ws_op_step so (OpRequest request) c =
     (case ws_poll_ready so c of
        (Ready (Ok _), c1) \<Rightarrow> map_option (Pair [Text request]) (poll_ok (apfst Ready (ws_start_send so request c1)))
      | (Ready (Err _), c1) \<Rightarrow> None
      | (Pending, c1) \<Rightarrow> Some ([], c1))"
| "ws_op_step so OpFlush c = map_option (Pair []) (poll_ok (ws_poll_flush so c))"
| "ws_op_step so OpClose c = map_option (Pair []) (poll_ok (ws_poll_close so c))"
| "ws_op_step so (OpPollNext events) c = Some ([], c\<lparr>wc_queue := fst (snd (ws_poll_next events (wc_queue c)))\<rparr>)"

fun ws_run :: "('u, 'e) socket_ops \<Rightarrow> 'e ws_op list \<Rightarrow> 'u ws_client \<Rightarrow> (owned_message list \<times> 'u ws_client) option" where
  "ws_run so [] c = Some ([], c)"
| "ws_run so (op # ops) c =
     (case ws_op_step so op c of
        None \<Rightarrow> None
      | Some (taken, c') \<Rightarrow> map_option (\<lambda>(rest, c''). (taken @ rest, c'')) (ws_run so ops c'))"

text \<open>The runs in which no request follows a poll that has forwarded the whole of a non-empty queue.\<close>

definition leaves_readiness :: "('u, 'e) socket_ops \<Rightarrow> 'u ws_client \<Rightarrow> bool" where
  "leaves_readiness so c \<longleftrightarrow> wc_queue c = [] \<or> wc_queue (snd (ws_poll_ready so c)) \<noteq> []"

fun requests_have_readiness :: "('u, 'e) socket_ops \<Rightarrow> 'e ws_op list \<Rightarrow> 'u ws_client \<Rightarrow> bool" where
  "requests_have_readiness so [] c \<longleftrightarrow> True"
| "requests_have_readiness so (op # ops) c \<longleftrightarrow>
     (case op of OpRequest _ \<Rightarrow> leaves_readiness so c | _ \<Rightarrow> True) \<and>
     (case ws_op_step so op c of None \<Rightarrow> True | Some (_, c') \<Rightarrow> requests_have_readiness so ops c')"

section \<open>Requests keep their order\<close>

definition requests :: "owned_message list \<Rightarrow> owned_message list" where
  "requests ms = filter (\<lambda>m. case m of Text _ \<Rightarrow> True | _ \<Rightarrow> False) ms"

definition control_replies :: "owned_message list \<Rightarrow> owned_message list" where
  "control_replies ms = filter (\<lambda>m. case m of Text _ \<Rightarrow> False | _ \<Rightarrow> True) ms"

lemma requests_simps [simp]:
  "requests [] = []" "requests (xs @ ys) = requests xs @ requests ys" "requests (Text s # xs) = Text s # requests xs"
  "requests (Pong s # xs) = requests xs" "requests (CloseMsg c # xs) = requests xs"
  "control_replies [] = []" "control_replies (xs @ ys) = control_replies xs @ control_replies ys"
  "control_replies (Text s # xs) = control_replies xs"
  "control_replies (Pong s # xs) = Pong s # control_replies xs"
  "control_replies (CloseMsg c # xs) = CloseMsg c # control_replies xs"
  by (simp_all add: requests_def control_replies_def)

text \<open>The replies that a poll of the stream queues: one for every ping and every close it reads, up to a
  text, an error or the end.\<close>

fun reply_of :: "'e stream_event \<Rightarrow> owned_message list" where
  "reply_of (Arrived (Ping p)) = [Pong p]"
| "reply_of (Arrived (CloseMsg c)) = [CloseMsg c]"
| "reply_of _ = []"

fun events_read :: "'e stream_event list \<Rightarrow> 'e stream_event list" where
  "events_read [] = []"
| "events_read (Arrived m # es) = Arrived m # (case m of Text _ \<Rightarrow> [] | _ \<Rightarrow> events_read es)"
| "events_read (e # es) = [e]"

fun op_replies :: "'e ws_op \<Rightarrow> owned_message list" where
  "op_replies (OpPollNext events) = concat (map reply_of (events_read events))"
| "op_replies _ = []"

lemma poll_next_queue:
  "requests (fst (snd (ws_poll_next events q))) = requests q"
  "mset (control_replies (fst (snd (ws_poll_next events q)))) =
     mset (control_replies q) + mset (concat (map reply_of (events_read events)))"
  by (induction events q rule: ws_poll_next.induct) (auto split: owned_message.splits)

lemma poll_okD: "poll_ok (r, c) = Some c' \<Longrightarrow> c' = c \<and> (\<forall>e. r \<noteq> Ready (Err e))"
  by (cases "(r, c)" rule: poll_ok.cases) auto

lemma poll_ready_keeps:
  assumes "sink_contract so ready sent" and "ws_poll_ready so c = (r, c')" and "\<And>e. r \<noteq> Ready (Err e)"
  shows "sent (wc_socket c') @ wc_queue c' = sent (wc_socket c) @ wc_queue c"
    and "r = Ready (Ok x) \<Longrightarrow> wc_queue c = [] \<Longrightarrow> ready (wc_socket c') \<and> wc_queue c' = []"
proof -
  show "r = Ready (Ok x) \<Longrightarrow> wc_queue c = [] \<Longrightarrow> ready (wc_socket c') \<and> wc_queue c' = []"
    using assms(2) sink_contractD(2) [OF assms(1)] by (auto simp: ws_poll_ready_def split: prod.splits)
  show "sent (wc_socket c') @ wc_queue c' = sent (wc_socket c) @ wc_queue c"
  proof (cases "wc_queue c = []")
    case True
    then show ?thesis using assms(2) sink_contractD(1) [OF assms(1)] by (auto simp: ws_poll_ready_def split: prod.splits)
  next
    case False
    then obtain r1 where "try_empty_buffer so c = (r1, c')" and "\<And>e. r1 \<noteq> Ready (Err e)"
      using assms(2,3) by (auto simp: ws_poll_ready_def split: prod.splits poll.splits result.splits)
    then show ?thesis by (rule try_empty_keeps [OF assms(1)])
  qed
qed

lemma start_send_keeps:
  assumes "sink_contract so ready sent" and "ws_start_send so s c = (Ok x, c')"
    and "wc_queue c = [] \<Longrightarrow> ready (wc_socket c)"
  shows "sent (wc_socket c') @ wc_queue c' = sent (wc_socket c) @ wc_queue c @ [Text s]"
  using assms(2,3) sink_contractD(5) [OF assms(1)] by (auto simp: ws_start_send_def split: if_splits prod.splits)

text \<open>Every step but the poll of the stream moves messages from the queue to the socket, in order, and
  puts an accepted request behind them.\<close>

lemma ws_op_list:
  assumes "sink_contract so ready sent" and "ws_op_step so op c = Some (taken, c')"
    and "case op of OpRequest _ \<Rightarrow> leaves_readiness so c | OpPollNext _ \<Rightarrow> False | _ \<Rightarrow> True"
  shows "sent (wc_socket c') @ wc_queue c' = sent (wc_socket c) @ wc_queue c @ taken \<and> control_replies taken = []"
proof (cases op)
  case OpReady
  then show ?thesis using assms(2) poll_ready_keeps(1) [OF assms(1)] poll_okD by (cases "ws_poll_ready so c") fastforce
next
  case (OpRequest s)
  obtain r c1 where r: "ws_poll_ready so c = (r, c1)" by fastforce
  have ok: "\<And>e. r \<noteq> Ready (Err e)" using assms(2) OpRequest r by auto
  note ready = poll_ready_keeps [OF assms(1) r ok]
  show ?thesis
  proof (cases r)
    case Pending
    then show ?thesis using assms(2) OpRequest r ready(1) by auto
  next
    case (Ready y)
    with ok obtain x where x: "r = Ready (Ok x)" by (cases y) auto
    have "poll_ok (apfst Ready (ws_start_send so s c1)) = Some c'" and taken: "taken = [Text s]"
      using assms(2) OpRequest r x by auto
    then obtain z where z: "ws_start_send so s c1 = (Ok z, c')"
      by (cases "ws_start_send so s c1"; cases "fst (ws_start_send so s c1)") auto
    have "wc_queue c1 = [] \<Longrightarrow> ready (wc_socket c1)"
      using assms(3) OpRequest r ready(2) [OF x] by (auto simp: leaves_readiness_def)
    from start_send_keeps [OF assms(1) z this] show ?thesis using ready(1) taken by simp
  qed
next
  case OpFlush
  obtain r c1 where r: "ws_poll_flush so c = (r, c1)" by fastforce
  then have c1: "c1 = c'" "taken = []" and ok: "\<And>e. r \<noteq> Ready (Err e)" using poll_okD assms(2) OpFlush by fastforce+
  from after_empty_keeps [OF assms(1) sink_contractD(3) [OF assms(1)] r [unfolded ws_poll_flush_def] ok]
  show ?thesis using c1 by simp
next
  case OpClose
  obtain r c1 where r: "ws_poll_close so c = (r, c1)" by fastforce
  then have c1: "c1 = c'" "taken = []" and ok: "\<And>e. r \<noteq> Ready (Err e)" using poll_okD assms(2) OpClose by fastforce+
  from after_empty_keeps [OF assms(1) sink_contractD(4) [OF assms(1)] r [unfolded ws_poll_close_def] ok]
  show ?thesis using c1 by simp
qed (use assms(3) in simp)

lemma taken_requests: "ws_op_step so op c = Some (taken, c') \<Longrightarrow> requests taken = taken"
  by (cases op) (auto split: prod.splits poll.splits result.splits)

lemma ws_op_keeps:
  assumes "sink_contract so ready sent" and "ws_op_step so op c = Some (taken, c')"
    and "case op of OpRequest _ \<Rightarrow> leaves_readiness so c | _ \<Rightarrow> True"
  shows "requests (sent (wc_socket c') @ wc_queue c') = requests (sent (wc_socket c) @ wc_queue c) @ taken \<and>
    mset (control_replies (sent (wc_socket c') @ wc_queue c')) =
      mset (control_replies (sent (wc_socket c) @ wc_queue c)) + mset (op_replies op)"
proof (cases "\<exists>events. op = OpPollNext events")
  case True
  then show ?thesis using assms(2) by (auto simp: poll_next_queue)
next
  case False
  then have "case op of OpRequest _ \<Rightarrow> leaves_readiness so c | OpPollNext _ \<Rightarrow> False | _ \<Rightarrow> True"
    using assms(3) by (cases op) auto
  from ws_op_list [OF assms(1,2) this] have l: "sent (wc_socket c') @ wc_queue c' = (sent (wc_socket c) @ wc_queue c) @ taken"
    and t: "control_replies taken = []" by simp_all
  have "op_replies op = []" using False by (cases op) auto
  then show ?thesis unfolding l using t taken_requests [OF assms(2)] by simp
qed

lemma ws_run_keeps:
  assumes "sink_contract so ready sent" and "ws_run so ops c = Some (taken, c')" and "requests_have_readiness so ops c"
  shows "requests (sent (wc_socket c') @ wc_queue c') = requests (sent (wc_socket c) @ wc_queue c) @ taken \<and>
    mset (control_replies (sent (wc_socket c') @ wc_queue c')) =
      mset (control_replies (sent (wc_socket c) @ wc_queue c)) + mset (concat (map op_replies ops))"
  using assms(2,3)
proof (induction ops arbitrary: c taken)
  case (Cons op ops)
  then obtain t1 c1 t2 where s: "ws_op_step so op c = Some (t1, c1)" "ws_run so ops c1 = Some (t2, c')" "taken = t1 @ t2"
    by (auto split: option.splits)
  have "requests_have_readiness so ops c1" and "case op of OpRequest _ \<Rightarrow> leaves_readiness so c | _ \<Rightarrow> True"
    using Cons.prems(2) s(1) by auto
  from Cons.IH [OF s(2) this(1)] ws_op_keeps [OF assms(1) s(1) this(2)] show ?case using s(3) by simp
qed simp

text \<open>A server that sends no pings and no closes leaves the queue empty, and every run has that form.\<close>

lemma quiet_poll: "concat (map reply_of (events_read events)) = [] \<Longrightarrow> fst (snd (ws_poll_next events q)) = q"
  by (induction events q rule: ws_poll_next.induct) (auto split: owned_message.splits)

lemma quiet_step:
  assumes "op_replies op = []" and "wc_queue c = []" and "ws_op_step so op c = Some (taken, c')"
  shows "wc_queue c' = []"
proof (cases op)
  case OpReady
  then show ?thesis using assms poll_okD
    by (cases "so_poll_ready so (wc_socket c)") (fastforce simp: ws_poll_ready_def)
next
  case (OpRequest s)
  then show ?thesis using assms
    by (auto simp: ws_poll_ready_def ws_start_send_def split: prod.splits poll.splits result.splits dest!: poll_okD)
next
  case OpFlush
  then show ?thesis using assms
    by (auto simp: ws_poll_flush_def ws_after_empty_def try_empty_buffer_def split: prod.splits poll.splits result.splits dest!: poll_okD)
next
  case OpClose
  then show ?thesis using assms
    by (auto simp: ws_poll_close_def ws_after_empty_def try_empty_buffer_def split: prod.splits poll.splits result.splits dest!: poll_okD)
next
  case (OpPollNext events)
  then show ?thesis using assms by (auto simp: quiet_poll)
qed

lemma quiet_run:
  assumes "list_all (\<lambda>op. op_replies op = []) ops" and "wc_queue c = []"
  shows "requests_have_readiness so ops c"
  using assms
proof (induction ops arbitrary: c)
  case (Cons op ops)
  have "requests_have_readiness so ops c'" if "ws_op_step so op c = Some (taken, c')" for taken c'
    using Cons.IH Cons.prems quiet_step [OF _ Cons.prems(2) that] by simp
  moreover have "case op of OpRequest _ \<Rightarrow> leaves_readiness so c | _ \<Rightarrow> True"
    using Cons.prems(2) by (cases op) (simp_all add: leaves_readiness_def)
  ultimately show ?case by (auto simp del: ws_op_step.simps split: option.splits)
qed simp

text \<open>C26: over a socket that keeps the contract of a sink, and nothing more, the client transport hands
  every request that it has accepted to the socket or keeps it queued, once and in the order of the
  requests, and every ping and close of the server is answered by one reply that the socket has
  taken or that is queued, however often the socket is not ready, in every run in which no request
  follows a poll of readiness that has forwarded the whole of a non-empty queue. Every run in
  which the server sends neither pings nor closes is such a run. In the other runs a request is
  started on a socket that is not ready (\<open>ws_reply_overwritten\<close>).\<close>

theorem ws_requests_in_order:
  assumes "sink_contract so ready sent" and "sent u = []" and "ws_run so ops (ws_client_new u) = Some (taken, c)"
    and "requests_have_readiness so ops (ws_client_new u) \<or> list_all (\<lambda>op. op_replies op = []) ops"
  shows "requests (sent (wc_socket c) @ wc_queue c) = taken \<and>
    mset (control_replies (sent (wc_socket c) @ wc_queue c)) = mset (concat (map op_replies ops))"
proof -
  have "requests_have_readiness so ops (ws_client_new u)"
    using assms(4) quiet_run [of ops "ws_client_new u" so] by (auto simp: ws_client_new_def)
  from ws_run_keeps [OF assms(1,3) this] show ?thesis using assms(2) by (simp add: ws_client_new_def)
qed

text \<open>A sink with room for one message, like the one of the compatibility layer: a poll of readiness writes
  the message out, and a message that is started before replaces the one that is held. It keeps the
  contract. A ping arrives between two requests and its reply is flushed before the second one.\<close>

definition slot_socket :: "(owned_message list \<times> owned_message option, unit) socket_ops" where
  "slot_socket = \<lparr>so_poll_ready = (\<lambda>(out, slot). (Ready (Ok ()), (out @ case_option [] (\<lambda>m. [m]) slot, None))),
     so_start_send = (\<lambda>m (out, slot). (Ok (), (out, Some m))),
     so_poll_flush = (\<lambda>(out, slot). (Ready (Ok ()), (out @ case_option [] (\<lambda>m. [m]) slot, None))),
     so_poll_close = (\<lambda>(out, slot). (Ready (Ok ()), (out @ case_option [] (\<lambda>m. [m]) slot, None)))\<rparr>"

definition slot_sent :: "owned_message list \<times> owned_message option \<Rightarrow> owned_message list" where
  "slot_sent u = fst u @ case_option [] (\<lambda>m. [m]) (snd u)"

lemma slot_socket_contract: "sink_contract slot_socket (\<lambda>u. snd u = None) slot_sent"
  by (auto simp: sink_contract_def slot_socket_def slot_sent_def)

lemmas slot_run = slot_socket_def ws_client_new_def ws_poll_ready_def ws_start_send_def try_empty_buffer_def
  ws_poll_flush_def ws_after_empty_def leaves_readiness_def

theorem ws_requests_in_order_witness:
  "requests (slot_sent ([Text ''a'', Pong ''p''], Some (Text ''b''))) = [Text ''a'', Text ''b''] \<and>
   mset (control_replies (slot_sent ([Text ''a'', Pong ''p''], Some (Text ''b'')))) = {#Pong ''p''#}"
proof -
  let ?ops = "[OpRequest ''a'', OpPollNext [Arrived (Ping ''p'')], OpFlush, OpRequest ''b''] :: unit ws_op list"
  have "requests (slot_sent (wc_socket c) @ wc_queue c) = [Text ''a'', Text ''b''] \<and>
      mset (control_replies (slot_sent (wc_socket c) @ wc_queue c)) = mset (concat (map op_replies ?ops))"
    if "c = \<lparr>wc_socket = ([Text ''a'', Pong ''p''], Some (Text ''b'')), wc_queue = []\<rparr>" for c
    by (rule ws_requests_in_order [OF slot_socket_contract, of "([], None)" ?ops])
      (simp_all add: slot_sent_def slot_run that)
  from this [OF refl] show ?thesis by simp
qed

section \<open>Readiness of the socket\<close>

text \<open>The transport breaks the contract when it forwards a queued reply while it is polled ready: it
  reports that it is ready, but the readiness of the socket went to the reply, and the request that
  follows is started on a socket that was not polled again. The sink with one slot then loses the
  reply.\<close>

theorem ws_reply_overwritten:
  "ws_run slot_socket [OpPollNext [Arrived (Ping ''p'')], OpRequest ''a'', OpFlush] (ws_client_new ([], None)) =
     Some ([Text ''a''], \<lparr>wc_socket = ([Text ''a''], None), wc_queue = []\<rparr>)"
  by (simp add: slot_run)

end
