(* ===== verification/Client_Local.thy ===== *)
theory Client_Local
  imports Client
begin

text \<open>
  The local client transport (\<open>core-client/transports/src/transports/local.rs\<close>): a client connected to
  a handler in the same process. A request is given to the handler when it is sent; its answer is
  awaited before the next request is taken, and is put into a queue from which the client reads.

  The queue is an unbounded channel of the \<open>futures\<close> crate and the handler gives a future for a
  request: their operations are arguments, the latter act on a world \<open>'w\<close>. The only errors of this
  transport are those of the channel, each wrapped as \<open>RpcError::Other\<close>; the wrapping is left out.
\<close>

section \<open>The transport\<close>

record ('q, 'x) channel_ops =
  ch_poll_ready :: "'q \<Rightarrow> (unit, 'x) result poll \<times> 'q"
  ch_start_send :: "string \<Rightarrow> 'q \<Rightarrow> (unit, 'x) result \<times> 'q"
  ch_poll_flush :: "'q \<Rightarrow> (unit, 'x) result poll \<times> 'q"
  ch_poll_close :: "'q \<Rightarrow> (unit, 'x) result poll \<times> 'q"
  ch_poll_next :: "'q \<Rightarrow> string option poll \<times> 'q"

record ('m, 'f, 'w) handler_ops =
  ho_handle_request :: "string \<Rightarrow> 'm \<Rightarrow> 'w \<Rightarrow> 'f \<times> 'w"
  ho_poll :: "'f \<Rightarrow> 'w \<Rightarrow> string option poll \<times> 'f \<times> 'w"

datatype 'f buffered = BufRequest 'f | BufResponse string | BufNone

record ('m, 'f, 'q) local_rpc =
  lr_meta :: 'm
  lr_buffered :: "'f buffered"
  lr_queue :: 'q

definition local_with_metadata :: "'q \<Rightarrow> 'm \<Rightarrow> ('m, 'f, 'q) local_rpc" where
  "local_with_metadata unbounded meta = \<lparr>lr_meta = meta, lr_buffered = BufNone, lr_queue = unbounded\<rparr>"

definition local_new :: "'q \<Rightarrow> 'm \<Rightarrow> ('m, 'f, 'q) local_rpc" where
  "local_new unbounded default_meta = local_with_metadata unbounded default_meta"

definition local_poll_next :: "('q, 'x) channel_ops \<Rightarrow> ('m, 'f, 'q) local_rpc \<Rightarrow> string option poll \<times> ('m, 'f, 'q) local_rpc" where
  "local_poll_next ch l = (case ch_poll_next ch (lr_queue l) of (r, q) \<Rightarrow> (r, l\<lparr>lr_queue := q\<rparr>))"

definition local_send_response ::
    "('q, 'x) channel_ops \<Rightarrow> ('m, 'f, 'q) local_rpc \<Rightarrow> (unit, 'x) result \<times> ('m, 'f, 'q) local_rpc" where
  "local_send_response ch l =
     (let l1 = l\<lparr>lr_buffered := BufNone\<rparr>
      in case lr_buffered l of
           BufResponse r \<Rightarrow>
             (case ch_start_send ch r (lr_queue l) of (s, q) \<Rightarrow> (s, l1\<lparr>lr_queue := q\<rparr>))
         | _ \<Rightarrow> (Ok (), l1))"

definition poll_buffered ::
    "('q, 'x) channel_ops \<Rightarrow> ('m, 'f, 'w) handler_ops \<Rightarrow> ('m, 'f, 'q) local_rpc \<Rightarrow> 'w
     \<Rightarrow> (unit, 'x) result poll \<times> ('m, 'f, 'q) local_rpc \<times> 'w" where
  "poll_buffered ch ho l w =
     (case lr_buffered l of
        BufRequest f \<Rightarrow>
          (case ho_poll ho f w of
             (Pending, f', w') \<Rightarrow> (Pending, l\<lparr>lr_buffered := BufRequest f'\<rparr>, w')
           | (Ready response, f', w') \<Rightarrow>
               (let l1 = (case response of
                            Some r \<Rightarrow> l\<lparr>lr_buffered := BufResponse r\<rparr>
                          | None \<Rightarrow> l\<lparr>lr_buffered := BufRequest f'\<rparr>)
                in case local_send_response ch l1 of (s, l2) \<Rightarrow> (Ready s, l2, w')))
      | _ \<Rightarrow> (case local_send_response ch l of (s, l1) \<Rightarrow> (Ready s, l1, w)))"

definition local_after_buffered ::
    "('q, 'x) channel_ops \<Rightarrow> ('m, 'f, 'w) handler_ops \<Rightarrow> ('q \<Rightarrow> (unit, 'x) result poll \<times> 'q) \<Rightarrow> ('m, 'f, 'q) local_rpc \<Rightarrow> 'w
     \<Rightarrow> (unit, 'x) result poll \<times> ('m, 'f, 'q) local_rpc \<times> 'w" where
  "local_after_buffered ch ho f l w =
     (case poll_buffered ch ho l w of
        (Ready (Ok _), l1, w1) \<Rightarrow>
          (case f (lr_queue l1) of
             (Ready r, q) \<Rightarrow> (Ready r, l1\<lparr>lr_queue := q\<rparr>, w1)
           | (Pending, q) \<Rightarrow> (Pending, l1\<lparr>lr_queue := q\<rparr>, w1))
      | (r, l1, w1) \<Rightarrow> (r, l1, w1))"

definition local_poll_ready where
  "local_poll_ready ch ho l w = local_after_buffered ch ho (ch_poll_ready ch) l w"

definition local_start_send ::
    "('m, 'f, 'w) handler_ops \<Rightarrow> string \<Rightarrow> ('m, 'f, 'q) local_rpc \<Rightarrow> 'w \<Rightarrow> ('m, 'f, 'q) local_rpc \<times> 'w" where
  "local_start_send ho item l w =
     (case ho_handle_request ho item (lr_meta l) w of (f, w') \<Rightarrow> (l\<lparr>lr_buffered := BufRequest f\<rparr>, w'))"

definition local_poll_flush where
  "local_poll_flush ch ho l w = local_after_buffered ch ho (ch_poll_flush ch) l w"

definition local_poll_close ::
    "('q, 'x) channel_ops \<Rightarrow> ('m, 'f, 'q) local_rpc \<Rightarrow> (unit, 'x) result poll \<times> ('m, 'f, 'q) local_rpc" where
  "local_poll_close ch l =
     (case ch_poll_close ch (lr_queue l) of
        (Ready r, q) \<Rightarrow> (Ready r, l\<lparr>lr_queue := q\<rparr>)
      | (Pending, q) \<Rightarrow> (Pending, l\<lparr>lr_queue := q\<rparr>))"

section \<open>Answers arrive in the order of the requests\<close>

text \<open>The documented behaviour of the channel: what it holds leaves it in the order in which it was
  sent, and a failed send adds nothing. And of a future: what it resolves to does not change.\<close>

definition fifo_channel :: "('q, 'x) channel_ops \<Rightarrow> ('q \<Rightarrow> string list) \<Rightarrow> bool" where
  "fifo_channel ch held \<longleftrightarrow>
     (\<forall>q. held (snd (ch_poll_ready ch q)) = held q \<and> held (snd (ch_poll_flush ch q)) = held q) \<and>
     (\<forall>r q. held (snd (ch_start_send ch r q)) =
        (case fst (ch_start_send ch r q) of Ok _ \<Rightarrow> held q @ [r] | Err _ \<Rightarrow> held q)) \<and>
     (\<forall>q. (case fst (ch_poll_next ch q) of
            Ready (Some r) \<Rightarrow> held q = r # held (snd (ch_poll_next ch q))
          | _ \<Rightarrow> held (snd (ch_poll_next ch q)) = held q))"

definition settled :: "('m, 'f, 'w) handler_ops \<Rightarrow> ('f \<Rightarrow> string option) \<Rightarrow> bool" where
  "settled ho resolves_to \<longleftrightarrow>
     (\<forall>f w. (case ho_poll ho f w of
               (Ready r, _, _) \<Rightarrow> r = resolves_to f
             | (Pending, f', _) \<Rightarrow> resolves_to f' = resolves_to f))"

text \<open>A run of the client task: it sends a request when the transport is ready, flushes, and reads.
  The run is given with the futures of the requests that were sent and the answers that were
  read.\<close>

datatype local_op = LocalSend string | LocalFlush | LocalNext

record ('m, 'f, 'q, 'w) local_trace =
  lt_rpc :: "('m, 'f, 'q) local_rpc"
  lt_world :: 'w
  lt_sent :: "'f list"
  lt_read :: "string list"

fun local_step ::
    "('q, 'x) channel_ops \<Rightarrow> ('m, 'f, 'w) handler_ops \<Rightarrow> local_op \<Rightarrow> ('m, 'f, 'q, 'w) local_trace
     \<Rightarrow> ('m, 'f, 'q, 'w) local_trace option" where
  "local_step ch ho (LocalSend s) t =
     (case local_poll_ready ch ho (lt_rpc t) (lt_world t) of
        (Ready (Err _), _) \<Rightarrow> None
      | (Pending, l, w) \<Rightarrow> Some (t\<lparr>lt_rpc := l, lt_world := w\<rparr>)
      | (Ready (Ok _), l, w) \<Rightarrow>
          (case local_start_send ho s l w of
             (l', w') \<Rightarrow> Some (t\<lparr>lt_rpc := l', lt_world := w',
               lt_sent := lt_sent t @ (case lr_buffered l' of BufRequest f \<Rightarrow> [f] | _ \<Rightarrow> [])\<rparr>)))"
| "local_step ch ho LocalFlush t =
     (case local_poll_flush ch ho (lt_rpc t) (lt_world t) of
        (Ready (Err _), _) \<Rightarrow> None
      | (_, l, w) \<Rightarrow> Some (t\<lparr>lt_rpc := l, lt_world := w\<rparr>))"
| "local_step ch ho LocalNext t =
     (case local_poll_next ch (lt_rpc t) of
        (Ready (Some r), l) \<Rightarrow> Some (t\<lparr>lt_rpc := l, lt_read := lt_read t @ [r]\<rparr>)
      | (_, l) \<Rightarrow> Some (t\<lparr>lt_rpc := l\<rparr>))"

fun local_run where
  "local_run ch ho [] t = Some t"
| "local_run ch ho (op # ops) t = Option.bind (local_step ch ho op t) (local_run ch ho ops)"

text \<open>The answer that is still to come.\<close>

definition awaited :: "('f \<Rightarrow> string option) \<Rightarrow> ('m, 'f, 'q) local_rpc \<Rightarrow> string list" where
  "awaited resolves_to l =
     (case lr_buffered l of
        BufRequest f \<Rightarrow> (case resolves_to f of Some r \<Rightarrow> [r] | None \<Rightarrow> [])
      | BufResponse r \<Rightarrow> [r]
      | BufNone \<Rightarrow> [])"

lemma awaited_simps [simp]:
  "awaited resolves_to (l\<lparr>lr_queue := q\<rparr>) = awaited resolves_to l"
  "lr_buffered l = BufNone \<Longrightarrow> awaited resolves_to l = []"
  by (simp_all add: awaited_def)

lemma channel_send:
  assumes "fifo_channel ch held" and "ch_start_send ch r q = (Ok x, q')"
  shows "held q' = held q @ [r]"
proof -
  have "held (snd (ch_start_send ch r q)) = (case fst (ch_start_send ch r q) of Ok _ \<Rightarrow> held q @ [r] | Err _ \<Rightarrow> held q)"
    using assms(1) by (simp add: fifo_channel_def)
  then show ?thesis using assms(2) by simp
qed

lemma channel_poll:
  assumes "fifo_channel ch held" and "f = ch_poll_ready ch \<or> f = ch_poll_flush ch" and "f q = (r, q')"
  shows "held q' = held q"
proof -
  have "held (snd (f q)) = held q" using assms(1,2) by (auto simp: fifo_channel_def)
  then show ?thesis using assms(3) by simp
qed

lemma send_response_keeps:
  assumes "fifo_channel ch held" and "local_send_response ch l = (Ok x, l')"
  shows "held (lr_queue l') = held (lr_queue l) @ (case lr_buffered l of BufResponse r \<Rightarrow> [r] | _ \<Rightarrow> [])"
    and "lr_buffered l' = BufNone"
proof -
  show "lr_buffered l' = BufNone"
    using assms(2) by (auto simp: local_send_response_def Let_def split: buffered.splits prod.splits)
  show "held (lr_queue l') = held (lr_queue l) @ (case lr_buffered l of BufResponse r \<Rightarrow> [r] | _ \<Rightarrow> [])"
  proof (cases "lr_buffered l")
    case (BufResponse r)
    obtain s q where s: "ch_start_send ch r (lr_queue l) = (s, q)" by fastforce
    then obtain y where "s = Ok y" and "lr_queue l' = q"
      using assms(2) BufResponse by (cases s) (auto simp: local_send_response_def)
    then show ?thesis using s channel_send [OF assms(1)] BufResponse by simp
  qed (use assms(2) in \<open>auto simp: local_send_response_def\<close>)
qed

lemma settled_poll:
  assumes "settled ho resolves_to"
  shows "ho_poll ho f w = (Ready r, f', w') \<Longrightarrow> r = resolves_to f"
    and "ho_poll ho f w = (Pending, f', w') \<Longrightarrow> resolves_to f' = resolves_to f"
proof -
  have "case ho_poll ho f w of (Ready r, _, _) \<Rightarrow> r = resolves_to f | (Pending, f', _) \<Rightarrow> resolves_to f' = resolves_to f"
    using assms [unfolded settled_def, rule_format, of f w] .
  then show "ho_poll ho f w = (Ready r, f', w') \<Longrightarrow> r = resolves_to f"
    and "ho_poll ho f w = (Pending, f', w') \<Longrightarrow> resolves_to f' = resolves_to f" by simp_all
qed

lemma poll_buffered_keeps:
  assumes "fifo_channel ch held" and "settled ho resolves_to" and "poll_buffered ch ho l w = (r, l', w')"
    and "\<forall>e. r \<noteq> Ready (Err e)"
  shows "held (lr_queue l') @ awaited resolves_to l' = held (lr_queue l) @ awaited resolves_to l \<and>
    (r \<noteq> Pending \<longrightarrow> lr_buffered l' = BufNone)"
proof (cases "lr_buffered l")
  case (BufRequest f)
  obtain p f' w1 where p: "ho_poll ho f w = (p, f', w1)" by (metis prod_cases3)
  show ?thesis
  proof (cases p)
    case Pending
    then show ?thesis
      using assms(3) BufRequest p settled_poll(2) [OF assms(2)] by (auto simp: poll_buffered_def awaited_def)
  next
    case (Ready response)
    define l1 where "l1 = (case response of Some r \<Rightarrow> l\<lparr>lr_buffered := BufResponse r\<rparr> | None \<Rightarrow> l\<lparr>lr_buffered := BufRequest f'\<rparr>)"
    have "response = resolves_to f" using settled_poll(1) [OF assms(2)] p Ready by simp
    moreover obtain s where s: "r = Ready s" "local_send_response ch l1 = (s, l')"
      using assms(3) BufRequest p Ready by (auto simp: poll_buffered_def l1_def Let_def split: prod.splits)
    moreover obtain x where "s = Ok x" using assms(4) s(1) by (cases s) auto
    ultimately show ?thesis
      using send_response_keeps [OF assms(1), of l1 x l'] BufRequest
      by (auto simp: l1_def awaited_def split: option.splits)
  qed
next
  case (BufResponse q)
  then obtain s where s: "r = Ready s" "local_send_response ch l = (s, l')"
    using assms(3) by (auto simp: poll_buffered_def split: prod.splits)
  moreover obtain x where "s = Ok x" using assms(4) s(1) by (cases s) auto
  ultimately show ?thesis using send_response_keeps [OF assms(1), of l x l'] BufResponse by (simp add: awaited_def)
next
  case BufNone
  then obtain s where s: "r = Ready s" "local_send_response ch l = (s, l')"
    using assms(3) by (auto simp: poll_buffered_def split: prod.splits)
  moreover obtain x where "s = Ok x" using assms(4) s(1) by (cases s) auto
  ultimately show ?thesis using send_response_keeps [OF assms(1), of l x l'] BufNone by (simp add: awaited_def)
qed

lemma after_buffered_keeps:
  fixes r :: "(unit, 'x) result poll"
  assumes "fifo_channel ch held" and "settled ho resolves_to" and "f = ch_poll_ready ch \<or> f = ch_poll_flush ch"
    and "local_after_buffered ch ho f l w = (r, l', w')" and "\<forall>e. r \<noteq> Ready (Err e)"
  shows "held (lr_queue l') @ awaited resolves_to l' = held (lr_queue l) @ awaited resolves_to l \<and>
    (r \<noteq> Pending \<longrightarrow> lr_buffered l' = BufNone)"
proof -
  obtain r1 :: "(unit, 'x) result poll" and l1 w1 where p: "poll_buffered ch ho l w = (r1, l1, w1)"
    by (metis prod_cases3)
  have ok: "\<forall>e. r1 \<noteq> Ready (Err e)" using assms(4,5) p by (auto simp: local_after_buffered_def)
  note keeps = poll_buffered_keeps [OF assms(1,2) p ok]
  show ?thesis
  proof (cases r1)
    case Pending
    then show ?thesis using assms(4) p keeps by (simp add: local_after_buffered_def)
  next
    case (Ready y)
    then obtain x where y: "y = Ok x" using ok by (cases y) auto
    obtain r2 q where f: "f (lr_queue l1) = (r2, q)" by fastforce
    have l': "l' = l1\<lparr>lr_queue := q\<rparr>"
      using assms(4) p Ready y f by (auto simp: local_after_buffered_def split: poll.splits)
    have "held q = held (lr_queue l1)" by (rule channel_poll [OF assms(1,3) f])
    then show ?thesis using keeps Ready by (auto simp: l')
  qed
qed

lemma local_step_keeps:
  assumes "fifo_channel ch held" and "settled ho resolves_to" and "local_step ch ho op t = Some t'"
  shows "lt_read t @ held (lr_queue (lt_rpc t)) @ awaited resolves_to (lt_rpc t) = List.map_filter resolves_to (lt_sent t) \<Longrightarrow>
    lt_read t' @ held (lr_queue (lt_rpc t')) @ awaited resolves_to (lt_rpc t') = List.map_filter resolves_to (lt_sent t')"
proof (cases op)
  case (LocalSend s)
  assume inv: "lt_read t @ held (lr_queue (lt_rpc t)) @ awaited resolves_to (lt_rpc t) = List.map_filter resolves_to (lt_sent t)"
  obtain r :: "(unit, 'b) result poll" and l w where p: "local_poll_ready ch ho (lt_rpc t) (lt_world t) = (r, l, w)"
    by (metis prod_cases3)
  have ok: "\<forall>e. r \<noteq> Ready (Err e)" using assms(3) p LocalSend by auto
  note keeps = after_buffered_keeps [OF assms(1,2) _ p [unfolded local_poll_ready_def] ok]
  show ?thesis
  proof (cases r)
    case Pending
    then show ?thesis using assms(3) p LocalSend keeps inv by auto
  next
    case (Ready y)
    then obtain x where y: "y = Ok x" using ok by (cases y) auto
    obtain f w1 where f: "ho_handle_request ho s (lr_meta l) w = (f, w1)" by fastforce
    have t': "t' = t\<lparr>lt_rpc := l\<lparr>lr_buffered := BufRequest f\<rparr>, lt_world := w1, lt_sent := lt_sent t @ [f]\<rparr>"
      using assms(3) p LocalSend Ready y f by (simp add: local_start_send_def)
    have "held (lr_queue l) = held (lr_queue (lt_rpc t)) @ awaited resolves_to (lt_rpc t)" using keeps Ready by auto
    then have "lt_read t @ held (lr_queue l) = List.map_filter resolves_to (lt_sent t)" using inv by simp
    then show ?thesis by (simp add: t' awaited_def List.map_filter_def split: option.splits)
  qed
next
  case LocalFlush
  assume inv: "lt_read t @ held (lr_queue (lt_rpc t)) @ awaited resolves_to (lt_rpc t) = List.map_filter resolves_to (lt_sent t)"
  obtain r l w where p: "local_poll_flush ch ho (lt_rpc t) (lt_world t) = (r, l, w)" by (metis prod_cases3)
  have ok: "\<forall>e. r \<noteq> Ready (Err e)" using assms(3) p LocalFlush by auto
  have "t' = t\<lparr>lt_rpc := l, lt_world := w\<rparr>"
    using assms(3) p LocalFlush by (auto split: poll.splits result.splits)
  then show ?thesis using after_buffered_keeps [OF assms(1,2) _ p [unfolded local_poll_flush_def] ok] inv by auto
next
  case LocalNext
  assume inv: "lt_read t @ held (lr_queue (lt_rpc t)) @ awaited resolves_to (lt_rpc t) = List.map_filter resolves_to (lt_sent t)"
  obtain r q where p: "ch_poll_next ch (lr_queue (lt_rpc t)) = (r, q)" by fastforce
  have "case r of Ready (Some x) \<Rightarrow> held (lr_queue (lt_rpc t)) = x # held q | _ \<Rightarrow> held q = held (lr_queue (lt_rpc t))"
    using assms(1) [unfolded fifo_channel_def, THEN conjunct2, THEN conjunct2, rule_format, of "lr_queue (lt_rpc t)"] p
    by (auto split: poll.splits option.splits)
  then show ?thesis
    using assms(3) p LocalNext inv by (auto simp: local_poll_next_def split: poll.splits option.splits)
qed

text \<open>The local transport answers requests in the order in which they were sent and loses none: what
  the client has read, followed by what waits in the queue and by the answer still to come, are the
  answers to the requests that were sent, in their order. Requests without an answer, that is
  notifications, leave no trace. A request is only taken when the answer before it is in the queue.\<close>

theorem local_answers_in_order:
  assumes "fifo_channel ch held" and "settled ho resolves_to" and "held q = []"
    and "local_run ch ho ops \<lparr>lt_rpc = local_with_metadata q meta, lt_world = w, lt_sent = [], lt_read = []\<rparr> = Some t"
  shows "lt_read t @ held (lr_queue (lt_rpc t)) @ awaited resolves_to (lt_rpc t) = List.map_filter resolves_to (lt_sent t)"
proof -
  have "lt_read t @ held (lr_queue (lt_rpc t)) @ awaited resolves_to (lt_rpc t) = List.map_filter resolves_to (lt_sent t)"
    if "local_run ch ho ops t0 = Some t"
      "lt_read t0 @ held (lr_queue (lt_rpc t0)) @ awaited resolves_to (lt_rpc t0) = List.map_filter resolves_to (lt_sent t0)" for t0
    using that
  proof (induction ops arbitrary: t0)
    case (Cons op ops)
    then obtain t1 where "local_step ch ho op t0 = Some t1" "local_run ch ho ops t1 = Some t"
      by (auto simp: bind_eq_Some_conv)
    then show ?case using Cons local_step_keeps [OF assms(1,2)] by blast
  qed simp
  from this [OF assms(4)] show ?thesis
    using assms(3) by (simp add: local_with_metadata_def awaited_def List.map_filter_simps)
qed

text \<open>A channel as a list, and a handler that answers a request with its own text on the second poll, an
  empty request with nothing.\<close>

definition list_channel :: "(string list, unit) channel_ops" where
  "list_channel = \<lparr>ch_poll_ready = (\<lambda>q. (Ready (Ok ()), q)), ch_start_send = (\<lambda>r q. (Ok (), q @ [r])),
     ch_poll_flush = (\<lambda>q. (Ready (Ok ()), q)), ch_poll_close = (\<lambda>q. (Ready (Ok ()), q)),
     ch_poll_next = (\<lambda>q. case q of [] \<Rightarrow> (Pending, []) | r # q \<Rightarrow> (Ready (Some r), q))\<rparr>"

definition echo_answer :: "bool \<times> string \<Rightarrow> string option" where
  "echo_answer f = (if snd f = [] then None else Some (snd f))"

definition echo_handler :: "(unit, bool \<times> string, nat) handler_ops" where
  "echo_handler = \<lparr>ho_handle_request = (\<lambda>s _ w. ((False, s), w)),
     ho_poll = (\<lambda>f w. if fst f then (Ready (echo_answer f), f, w) else (Pending, (True, snd f), w))\<rparr>"

lemma list_channel_fifo: "fifo_channel list_channel id"
  by (simp add: fifo_channel_def list_channel_def split: list.splits)

lemma echo_settled: "settled echo_handler echo_answer"
  by (simp add: settled_def echo_handler_def echo_answer_def)

theorem local_answers_in_order_witness:
  "[''a''] @ id [] @ awaited echo_answer \<lparr>lr_meta = (), lr_buffered = BufRequest (False, ''b''), lr_queue = [] :: string list\<rparr> =
     List.map_filter echo_answer [(False, ''a''), (False, ''b'')]"
  using local_answers_in_order [OF list_channel_fifo echo_settled, of "[]"
      "[LocalSend ''a'', LocalFlush, LocalSend ''b'', LocalNext]" "()" 0
      "\<lparr>lt_rpc = \<lparr>lr_meta = (), lr_buffered = BufRequest (False, ''b''), lr_queue = []\<rparr>, lt_world = 0,
        lt_sent = [(False, ''a''), (False, ''b'')], lt_read = [''a'']\<rparr>"]
  by (simp add: list_channel_def echo_handler_def echo_answer_def local_poll_ready_def local_after_buffered_def
      poll_buffered_def local_send_response_def local_start_send_def local_with_metadata_def local_poll_flush_def local_poll_next_def)

end
