(* ===== verification/Client_Calls.thy ===== *)
theory Client_Calls
  imports Duplex
begin

text \<open>
  The calls and subscribe requests of a client task (theory \<open>Duplex\<close>) from the message of the client
  handle to the answer: the requests that a sequence of messages gives, the pending requests of the
  calls that are open, and reading answers to them. The clients of the transports build on it.
\<close>

section \<open>Requests and open calls\<close>

text \<open>A request with what waits for its answer: the one-shot of a caller or a subscription. Nothing waits for
  the answer to a notification.\<close>

datatype ('n, 'c, 's) out_item = OutCall "'n method_call" "('c, 's) pending_request" | OutNote "'n notification"

type_synonym ('n, 'c, 's) open_call = "'n method_call \<times> ('c, 's) pending_request"

fun item_call :: "('n, 'c, 's) out_item \<Rightarrow> 'n call" where
  "item_call (OutCall mc p) = MethodCall mc"
| "item_call (OutNote n) = Notification n"

fun item_open :: "('n, 'c, 's) out_item \<Rightarrow> ('n, 'c, 's) open_call list" where
  "item_open (OutCall mc p) = [(mc, p)]"
| "item_open (OutNote n) = []"

definition open_calls :: "('n, 'c, 's) out_item list \<Rightarrow> ('n, 'c, 's) open_call list" where
  "open_calls zs = concat (map item_open zs)"

lemma open_calls_simps [simp]:
  "open_calls [] = []" "open_calls (z # zs) = item_open z @ open_calls zs"
  "open_calls (xs @ zs) = open_calls xs @ open_calls zs"
  by (simp_all add: open_calls_def)

lemma mset_open_calls: "mset (open_calls zs) = (\<Sum>z\<in>#mset zs. mset (item_open z))"
  by (induction zs) simp_all

lemma open_calls_member: "(mc, c) \<in> set (open_calls zs) \<longleftrightarrow> OutCall mc c \<in> set zs"
proof (induction zs)
  case (Cons z zs)
  then show ?case by (cases z) auto
qed simp

lemma open_calls_item: "(mc, c) \<in> set (open_calls zs) \<Longrightarrow> MethodCall mc \<in> item_call ` set zs"
  by (force simp: open_calls_member intro: rev_image_eqI)

text \<open>The requests of the messages that the client handle sends; the ids count up from \<open>k\<close>.\<close>

definition message_subscription :: "('n, 's) subscribe_message \<Rightarrow> 's subscription" where
  "message_subscription m =
     subscription_new (sm_sender m) (cs_notification (sm_subscription m)) (cs_unsubscribe (sm_subscription m))"

fun request_items :: "u64 \<Rightarrow> ('n, 'c, 's) rpc_message list \<Rightarrow> ('n, 'c, 's) out_item list" where
  "request_items k [] = []"
| "request_items k (MsgCall m # ms) =
     OutCall \<lparr>mc_jsonrpc = Some V2, mc_method = cm_method m, mc_params = cm_params m, mc_id = IdNum k\<rparr>
       (PendingCall (cm_sender m))
     # request_items (k + 1) ms"
| "request_items k (MsgNotify m # ms) =
     OutNote \<lparr>nt_jsonrpc = Some V2, nt_method = nm_method m, nt_params = nm_params m\<rparr> # request_items k ms"
| "request_items k (MsgSubscribe m # ms) =
     OutCall \<lparr>mc_jsonrpc = Some V2, mc_method = cs_subscribe (sm_subscription m),
        mc_params = cs_subscribe_params (sm_subscription m), mc_id = IdNum k\<rparr>
       (PendingSubscription (message_subscription m))
     # request_items (k + 1) ms"

definition next_id :: "u64 \<Rightarrow> ('n, 'c, 's) rpc_message list \<Rightarrow> u64" where
  "next_id k ms = k + of_nat (length (filter (\<lambda>m. case m of MsgNotify _ \<Rightarrow> False | _ \<Rightarrow> True) ms))"

lemma next_id_simps [simp]:
  "next_id k [] = k"
  "next_id k (MsgCall c # ms) = next_id (k + 1) ms"
  "next_id k (MsgNotify n # ms) = next_id k ms"
  "next_id k (MsgSubscribe s # ms) = next_id (k + 1) ms"
  by (simp_all add: next_id_def algebra_simps)

lemma next_id_bound: "unat k + length ms < 2 ^ 64 \<Longrightarrow> unat (next_id k ms) \<le> unat k + length ms"
proof (induction k ms rule: request_items.induct)
  case (3 k m ms)
  then show ?case by simp
qed (simp_all add: unat_next)

lemma request_items_append: "request_items k (ms @ ms') = request_items k ms @ request_items (next_id k ms) ms'"
  by (induction k ms rule: request_items.induct) simp_all

text \<open>The pending requests of the open calls, and the ids that have been used.\<close>

definition pending_calls :: "('n, 'c, 's) open_call list \<Rightarrow> id \<rightharpoonup> ('c, 's) pending_request" where
  "pending_calls calls = map_of (map (\<lambda>(mc, p). (mc_id mc, p)) calls)"

definition ids_below :: "u64 \<Rightarrow> ('n, 'c, 's) open_call list \<Rightarrow> bool" where
  "ids_below k calls \<longleftrightarrow> distinct (map (\<lambda>(mc, c). mc_id mc) calls) \<and>
     (\<forall>(mc, c) \<in> set calls. \<exists>j. mc_id mc = IdNum j \<and> unat j < unat k)"

lemma pending_calls_Nil [simp]: "pending_calls [] = Map.empty"
  by (simp add: pending_calls_def)

lemma pending_calls_None: "i \<notin> (\<lambda>(mc, c). mc_id mc) ` set calls \<Longrightarrow>
    map_of (map (\<lambda>(mc, p). (mc_id mc, p)) calls) i = None"
  by (auto simp: map_of_eq_None_iff image_iff)

lemma pending_calls_snoc:
  assumes "mc_id mc \<notin> (\<lambda>(mc, c). mc_id mc) ` set calls"
  shows "pending_calls (calls @ [(mc, c)]) = (pending_calls calls)(mc_id mc \<mapsto> c)"
  by (auto simp: pending_calls_def map_add_def fun_eq_iff pending_calls_None [OF assms] split: option.splits)

lemma ids_below_snoc:
  assumes "ids_below k calls" and "unat k + 1 < 2 ^ 64" and "mc_id mc = IdNum k"
  shows "ids_below (k + 1) (calls @ [(mc, c)])"
  using assms unat_next [of k] by (fastforce simp: ids_below_def)

text \<open>The state of the task between two polls, with \<open>calls\<close> open.\<close>

definition awaiting ::
    "('n, 'c, 's) open_call list \<Rightarrow> ('n, 'c, 's, 'x) duplex \<Rightarrow> bool" where
  "awaiting calls d \<longleftrightarrow> dx_channel_open d \<and> dx_incoming d = [] \<and>
     map_of (dx_pending_requests d) = pending_calls calls \<and> ids_below (next_request d) calls"

lemma messages_queued:
  assumes "unat (next_request d) + length msgs < 2 ^ 64" and "awaiting calls d"
  shows "case fold (handle_message ops) msgs d of d' \<Rightarrow>
    let items = request_items (next_request d) msgs
    in awaiting (calls @ open_calls items) d' \<and> next_request d' = next_id (next_request d) msgs \<and>
       dx_outgoing d' = dx_outgoing d @ map (\<lambda>z. do_to_string ops (SingleRequest (item_call z))) items"
  using assms
proof (induction msgs arbitrary: d calls)
  case Nil
  then show ?case by simp
next
  case (Cons m msgs)
  let ?d = "handle_message ops m d"
  let ?items = "request_items (next_request d) [m]"
  have out: "dx_outgoing ?d = dx_outgoing d @ map (\<lambda>z. do_to_string ops (SingleRequest (item_call z))) ?items"
    by (cases m) (simp_all add: call_request_def subscribe_request_def single_request_def rb_next_id_def next_request_def notification_request_def Let_def)
  have "ids_below (next_request d) calls" "unat (next_request d) + 1 < 2 ^ 64"
    using Cons.prems by (simp_all add: awaiting_def)
  note below = ids_below_snoc [OF this]
  have fresh: "IdNum (next_request d) \<notin> (\<lambda>(mc, p). mc_id mc) ` set calls"
    using Cons.prems(2) by (fastforce simp: awaiting_def ids_below_def)
  have aw: "awaiting (calls @ open_calls ?items) ?d \<and> next_request ?d = next_id (next_request d) [m]"
    using Cons.prems(2) below fresh
    by (cases m) (simp_all add: awaiting_def call_request_def subscribe_request_def single_request_def rb_next_id_def next_request_def
        pending_calls_snoc message_subscription_def Let_def)
  have "unat (next_request ?d) + length msgs < 2 ^ 64"
    using aw next_id_bound [of "next_request d" "[m]"] Cons.prems(1) by simp
  moreover have "request_items (next_request d) (m # msgs) = ?items @ request_items (next_request ?d) msgs"
    "next_id (next_request d) (m # msgs) = next_id (next_request ?d) msgs"
    using aw request_items_append [of "next_request d" "[m]" msgs] by (cases m; simp)+
  ultimately show ?case
    using Cons.IH [of ?d "calls @ open_calls ?items"] aw out by (simp add: Let_def)
qed

section \<open>Answers\<close>

text \<open>Its answers: a call is answered by a text that the client reads as a response with the id of the
  call, a notification is not answered.\<close>

definition readable ::
    "(string \<Rightarrow> (('n, 'x) incoming_message, 'n, 'x) client_result) \<Rightarrow> ('n call \<Rightarrow> string option \<Rightarrow> bool) \<Rightarrow> bool" where
  "readable parse R \<longleftrightarrow>
     (\<forall>mc t. R (MethodCall mc) t \<longrightarrow> (\<exists>s res. t = Some s \<and> parse s = Ok (mc_id mc, res, None, None))) \<and>
     (\<forall>n t. R (Notification n) t \<longrightarrow> t = None)"

text \<open>What the answer to an open call does: the one-shot of a caller is completed; a subscription is active
  from then on when the answer is a subscription id, and gets the answer on its stream otherwise.\<close>

type_synonym 's active_map = "(subscription_id \<times> string, 's subscription) hash_map"

fun dx_resolve ::
    "('n, 'c, 's, 'u, 'x) duplex_ops \<Rightarrow> ('c, 's) pending_request \<times> ('n json, 'n, 'x) client_result
     \<Rightarrow> 's active_map \<times> 'u \<Rightarrow> 's active_map \<times> 'u" where
  "dx_resolve ops (PendingCall c, res) (subs, u) = (subs, snd (do_oneshot_send ops c res u))"
| "dx_resolve ops (PendingSubscription sub, res) (subs, u) =
     (case Option.bind (result_ok res) (sub_parse_value (do_as_u64 ops)) of
        Some s \<Rightarrow> (snd (hm_insert (s, sub_notification sub) (sub\<lparr>sub_id := Some s\<rparr>) subs), u)
      | None \<Rightarrow> (subs, snd (do_stream_send ops (sub_channel sub) res u)))"

definition dx_completes ::
    "('n, 'c, 's, 'u, 'x) duplex_ops \<Rightarrow> (('c, 's) pending_request \<times> ('n json, 'n, 'x) client_result) list
     \<Rightarrow> 's active_map \<times> 'u \<Rightarrow> 's active_map \<times> 'u" where
  "dx_completes ops log su = fold (dx_resolve ops) log su"

text \<open>The answers that calls are resolved with: what the client reads from an answer to the call.\<close>

definition answered ::
    "(string \<Rightarrow> (('n, 'x) incoming_message, 'n, 'x) client_result) \<Rightarrow> ('n call \<Rightarrow> string option \<Rightarrow> bool)
     \<Rightarrow> 'n method_call \<times> 'p \<Rightarrow> 'p \<times> ('n json, 'n, 'x) client_result \<Rightarrow> bool" where
  "answered parse R p a \<longleftrightarrow> fst a = snd p \<and>
     (\<exists>s. R (MethodCall (fst p)) (Some s) \<and> parse s = Ok (mc_id (fst p), snd a, None, None))"

lemma dx_completes_simps [simp]:
  "dx_completes ops [] su = su"
  "dx_completes ops (a # log) su = dx_completes ops log (dx_resolve ops a su)"
  "dx_completes ops (log @ log') su = dx_completes ops log' (dx_completes ops log su)"
  by (simp_all add: dx_completes_def)

text \<open>Texts that answer calls are read as answers to these calls.\<close>

lemma queue_read:
  assumes "readable parse R" and "list_all2 (\<lambda>s (mc, c). R (MethodCall mc) (Some s)) ss xs"
  shows "\<exists>log. list_all2 (answered parse R) xs log \<and>
    list_all2 (\<lambda>s m. parse s = Ok m) ss (map2 (\<lambda>(mc, c) (c', res). (mc_id mc, res, None, None)) xs log)"
  using assms(2)
proof (induction rule: list_all2_induct)
  case (Cons s ss x xs)
  obtain mc c where x: "x = (mc, c)" by fastforce
  then obtain res where "parse s = Ok (mc_id mc, res, None, None)" "answered parse R x (c, res)"
    using assms(1) Cons.hyps(1) by (fastforce simp: readable_def answered_def)
  moreover obtain log where "list_all2 (answered parse R) xs log"
    "list_all2 (\<lambda>s m. parse s = Ok m) ss (map2 (\<lambda>(mc, c) (c', res). (mc_id mc, res, None, None)) xs log)"
    using Cons.IH by blast
  ultimately show ?case using x by (intro exI [of _ "(c, res) # log"]) simp
qed (rule exI [of _ "[]"], simp)

lemma stream_read:
  assumes "list_all2 (\<lambda>s m. do_parse ops s = Ok m) ss ms"
  shows "handle_stream ops ss False d = (DuplexContinue, d\<lparr>dx_incoming := dx_incoming d @ ms\<rparr>)"
  using assms by (induction ss ms arbitrary: d rule: list_all2_induct) simp_all

lemma response_completes:
  assumes "map_of (dx_pending_requests d) i = Some p" and "\<And>c. p = PendingCall c \<Longrightarrow> fst (do_oneshot_send ops c res u)"
    and "dx_resolve ops (p, res) (dx_subscriptions d, u) = (subs, u')"
  shows "handle_response ops (i, res, None, None) d u =
    (DuplexContinue, d\<lparr>dx_pending_requests := snd (hm_remove i (dx_pending_requests d)), dx_subscriptions := subs\<rparr>, u')"
proof (cases p)
  case (PendingCall c)
  then show ?thesis using assms
    by (cases "do_oneshot_send ops c res u") (auto simp: handle_response_def Let_def case_prod_beta)
next
  case (PendingSubscription sub)
  then show ?thesis using assms
    by (auto simp: handle_response_def Let_def case_prod_beta split: option.splits)
qed

lemma pending_calls_Cons:
  assumes "ids_below k ((mc, p) # calls)"
  shows "(pending_calls ((mc, p) # calls))(mc_id mc := None) = pending_calls calls"
    and "pending_calls ((mc, p) # calls) (mc_id mc) = Some p" and "ids_below k calls"
proof -
  have "mc_id mc \<notin> (\<lambda>(mc, p). mc_id mc) ` set calls" using assms by (simp add: ids_below_def)
  note none = pending_calls_None [OF this]
  show "(pending_calls ((mc, p) # calls))(mc_id mc := None) = pending_calls calls"
    by (auto simp: pending_calls_def fun_eq_iff none)
  show "pending_calls ((mc, p) # calls) (mc_id mc) = Some p" by (simp add: pending_calls_def)
  show "ids_below k calls" using assms by (simp add: ids_below_def)
qed

lemma incoming_completes:
  assumes "\<And>c res u. fst (do_oneshot_send ops c res u)" and "list_all2 (answered parse R) xs log"
    and "map_of (dx_pending_requests d) = pending_calls (xs @ rest)" and "ids_below (next_request d) (xs @ rest)"
    and "dx_completes ops log (dx_subscriptions d, u) = (subs, u')"
  shows "\<exists>p. handle_incoming ops (map2 (\<lambda>(mc, c) (c', res). (mc_id mc, res, None, None)) xs log) d u =
      (DuplexContinue, d\<lparr>dx_pending_requests := p, dx_subscriptions := subs, dx_incoming := []\<rparr>, u') \<and>
    map_of p = pending_calls rest \<and> ids_below (next_request d) rest"
  using assms(2-5)
proof (induction xs log arbitrary: d u rule: list_all2_induct)
  case Nil
  then show ?case by (intro exI [of _ "dx_pending_requests d"]) simp
next
  case (Cons x xs a log)
  obtain mc p res where x: "x = (mc, p)" "a = (p, res)" using Cons.hyps(1) by (cases x; cases a) (auto simp: answered_def)
  obtain subs1 u1 where r: "dx_resolve ops (p, res) (dx_subscriptions d, u) = (subs1, u1)" by fastforce
  let ?d = "d\<lparr>dx_pending_requests := snd (hm_remove (mc_id mc) (dx_pending_requests d)), dx_subscriptions := subs1\<rparr>"
  note pc = pending_calls_Cons [of "next_request d" mc p "xs @ rest"]
  have "handle_response ops (mc_id mc, res, None, None) d u = (DuplexContinue, ?d, u1)"
    using response_completes [OF _ _ r, of "mc_id mc"] assms(1) pc(2) Cons.prems x by simp
  moreover have "map_of (dx_pending_requests ?d) = pending_calls (xs @ rest)" "ids_below (next_request ?d) (xs @ rest)"
    "dx_completes ops log (dx_subscriptions ?d, u1) = (subs, u')"
    using pc(1,3) Cons.prems x r by (simp_all add: next_request_def)
  note Cons.IH [OF this]
  ultimately show ?case using x by (auto simp: next_request_def)
qed

end
