(* ===== verification/Client_Session.thy ===== *)
theory Client_Session
  imports Client_Calls Client_Local
begin

text \<open>
  A client connected to a handler in the same process, as a whole: the \<open>connect\<close> functions of
  \<open>core-client/transports/src/transports/local.rs\<close>, which put the task of
  \<open>core-client/transports/src/transports/duplex.rs\<close> (theory \<open>Duplex\<close>) on top of the local transport
  (theory \<open>Client_Local\<close>). The sink of the task is the transport, the lines of a poll are what the
  transport's stream gives before it is pending.

  The theory shows that such a client is answered: polled again and again, it completes the
  one-shot of every call with the answer of the handler to that call.
\<close>

section \<open>Connecting\<close>

text \<open>JSON text and the channels on which the callers wait; \<open>'v\<close> is their environment.\<close>

record ('n, 'c, 's, 'v, 'x) caller_ops =
  co_to_string :: "'n request \<Rightarrow> string"
  co_parse :: "string \<Rightarrow> (('n, 'x) incoming_message, 'n, 'x) client_result"
  co_as_u64 :: "'n \<Rightarrow> u64 option"
  co_from_u64 :: "u64 \<Rightarrow> 'n"
  co_oneshot_send :: "'c \<Rightarrow> ('n json, 'n, 'x) client_result \<Rightarrow> 'v \<Rightarrow> bool \<times> 'v"
  co_stream_send :: "'s \<Rightarrow> ('n json, 'n, 'x) client_result \<Rightarrow> 'v \<Rightarrow> bool \<times> 'v"

fun is_ok :: "('a, 'e) result \<Rightarrow> bool" where
  "is_ok (Ok _) = True"
| "is_ok (Err _) = False"

definition sink_poll :: "((unit, 'y) result poll \<times> 'l \<times> 'w) \<Rightarrow> 'v \<Rightarrow> bool poll \<times> 'l \<times> 'w \<times> 'v" where
  "sink_poll p v = (case p of (r, l, w) \<Rightarrow> (case r of Ready x \<Rightarrow> Ready (is_ok x) | Pending \<Rightarrow> Pending, l, w, v))"

text \<open>The task over the local transport: its sink is the transport.\<close>

definition local_ops ::
    "('n, 'c, 's, 'v, 'x) caller_ops \<Rightarrow> ('q, 'y) channel_ops \<Rightarrow> ('m, 'f, 'w) handler_ops
     \<Rightarrow> ('n, 'c, 's, ('m, 'f, 'q) local_rpc \<times> 'w \<times> 'v, 'x) duplex_ops" where
  "local_ops co ch ho =
     \<lparr>do_to_string = co_to_string co, do_parse = co_parse co, do_as_u64 = co_as_u64 co, do_from_u64 = co_from_u64 co,
      do_oneshot_send = (\<lambda>c r (l, w, v). case co_oneshot_send co c r v of (b, v') \<Rightarrow> (b, l, w, v')),
      do_stream_send = (\<lambda>s r (l, w, v). case co_stream_send co s r v of (b, v') \<Rightarrow> (b, l, w, v')),
      do_sink_ready = (\<lambda>(l, w, v). sink_poll (local_poll_ready ch ho l w) v),
      do_sink_send = (\<lambda>s (l, w, v). case local_start_send ho s l w of (l', w') \<Rightarrow> (True, l', w', v)),
      do_sink_flush = (\<lambda>(l, w, v). sink_poll (local_poll_flush ch ho l w) v)\<rparr>"

text \<open>Reading a stream until it is pending or has ended; a stream that is always ready has no result.\<close>

partial_function (option) drain_stream ::
    "('z \<Rightarrow> string option poll \<times> 'z) \<Rightarrow> 'z \<Rightarrow> (string list \<times> bool \<times> 'z) option" where
  "drain_stream nxt z =
     (case nxt z of
        (Pending, z') \<Rightarrow> Some ([], False, z')
      | (Ready None, z') \<Rightarrow> Some ([], True, z')
      | (Ready (Some r), z') \<Rightarrow> Option.bind (drain_stream nxt z') (\<lambda>(rs, ended, z''). Some (r # rs, ended, z'')))"

text \<open>The task and the transport of a new client. \<open>duplex\<close> creates the channel of the client's
  messages with the task, and the client handle is the sending end of that channel.\<close>

definition duplex_task :: "'u \<Rightarrow> ('n, 'c, 's, 'x) duplex \<times> 'u" where
  "duplex_task io = (duplex_new, io)"

definition connect_with_metadata_and_middleware :: "'q \<Rightarrow> 'm \<Rightarrow> ('n, 'c, 's, 'x) duplex \<times> ('m, 'f, 'q) local_rpc" where
  "connect_with_metadata_and_middleware unbounded meta = duplex_task (local_with_metadata unbounded meta)"

definition connect_with_metadata :: "'q \<Rightarrow> 'm \<Rightarrow> ('n, 'c, 's, 'x) duplex \<times> ('m, 'f, 'q) local_rpc" where
  "connect_with_metadata unbounded meta = connect_with_metadata_and_middleware unbounded meta"

definition connect_with_middleware :: "'q \<Rightarrow> 'm \<Rightarrow> ('n, 'c, 's, 'x) duplex \<times> ('m, 'f, 'q) local_rpc" where
  "connect_with_middleware unbounded default_meta = connect_with_metadata_and_middleware unbounded default_meta"

definition local_connect :: "'q \<Rightarrow> 'm \<Rightarrow> ('n, 'c, 's, 'x) duplex \<times> ('m, 'f, 'q) local_rpc" where
  "local_connect unbounded default_meta = connect_with_middleware unbounded default_meta"

text \<open>One poll of the task, with the messages that the client handle has sent.\<close>

definition local_client_poll ::
    "('n, 'c, 's, 'v, 'x) caller_ops \<Rightarrow> ('q, 'y) channel_ops \<Rightarrow> ('m, 'f, 'w) handler_ops
     \<Rightarrow> ('n, 'c, 's) rpc_message list \<Rightarrow> bool \<Rightarrow> ('n, 'c, 's, 'x) duplex \<times> ('m, 'f, 'q) local_rpc \<times> 'w \<times> 'v
     \<Rightarrow> (('n, 'x) duplex_outcome \<times> ('n, 'c, 's, 'x) duplex \<times> ('m, 'f, 'q) local_rpc \<times> 'w \<times> 'v) option" where
  "local_client_poll co ch ho msgs closed s =
     (case s of (d, l, w, v) \<Rightarrow>
        case drain_stream (local_poll_next ch) l of
          None \<Rightarrow> None
        | Some (ls, ended, l') \<Rightarrow>
            Some (duplex_poll (local_ops co ch ho)
              \<lparr>pe_messages = msgs, pe_channel_closed = closed, pe_lines = ls, pe_stream_closed = ended\<rparr> d (l', w, v)))"

text \<open>A session: polls with the messages sent before each of them, while the task goes on.\<close>

fun local_session ::
    "('n, 'c, 's, 'v, 'x) caller_ops \<Rightarrow> ('q, 'y) channel_ops \<Rightarrow> ('m, 'f, 'w) handler_ops
     \<Rightarrow> ('n, 'c, 's) rpc_message list list \<Rightarrow> ('n, 'c, 's, 'x) duplex \<times> ('m, 'f, 'q) local_rpc \<times> 'w \<times> 'v
     \<Rightarrow> (('n, 'c, 's, 'x) duplex \<times> ('m, 'f, 'q) local_rpc \<times> 'w \<times> 'v) option" where
  "local_session co ch ho [] s = Some s"
| "local_session co ch ho (msgs # mss) s =
     (case local_client_poll co ch ho msgs False s of
        Some (DuplexContinue, s') \<Rightarrow> local_session co ch ho mss s'
      | _ \<Rightarrow> None)"

section \<open>What the client relies on\<close>

text \<open>The queue of the transport is an unbounded channel of which the transport holds both ends: it takes
  what is sent, gives what it holds, and waits when it holds nothing.\<close>

definition live_channel :: "('q, 'y) channel_ops \<Rightarrow> ('q \<Rightarrow> string list) \<Rightarrow> bool" where
  "live_channel ch held \<longleftrightarrow> fifo_channel ch held \<and>
     (\<forall>q. fst (ch_poll_ready ch q) = Ready (Ok ()) \<and> fst (ch_poll_flush ch q) = Ready (Ok ()) \<and>
          (\<forall>r. fst (ch_start_send ch r q) = Ok ()) \<and>
          (if held q = [] then fst (ch_poll_next ch q) = Pending else (\<exists>r. fst (ch_poll_next ch q) = Ready (Some r))))"

text \<open>The handler, for the calls in \<open>C\<close>: the futures of a call (\<open>F\<close>, with the world in which they stand) are those it
  returns for the text of the call and what they become when they are polled; each is pending a
  bounded number of times (\<open>turns\<close>) and resolves to an answer to the call (\<open>R\<close>).\<close>

definition serves_calls ::
    "('n request \<Rightarrow> string) \<Rightarrow> ('m, 'f, 'w) handler_ops \<Rightarrow> 'm \<Rightarrow> ('f \<Rightarrow> nat) \<Rightarrow> 'n call set
     \<Rightarrow> ('n call \<Rightarrow> 'f \<Rightarrow> 'w \<Rightarrow> bool) \<Rightarrow> ('n call \<Rightarrow> string option \<Rightarrow> bool) \<Rightarrow> bool" where
  "serves_calls to_string ho meta turns C F R \<longleftrightarrow>
     (\<forall>c \<in> C. \<forall>w f w'. ho_handle_request ho (to_string (SingleRequest c)) meta w = (f, w') \<longrightarrow> F c f w') \<and>
     (\<forall>c f w. F c f w \<longrightarrow>
        (case ho_poll ho f w of
           (Ready r, _, _) \<Rightarrow> R c r
         | (Pending, f', w') \<Rightarrow> F c f' w' \<and> turns f' < turns f))"

lemma live_channel_simps:
  assumes "live_channel ch held"
  shows "fst (ch_poll_ready ch q) = Ready (Ok ())" "held (snd (ch_poll_ready ch q)) = held q"
    and "fst (ch_poll_flush ch q) = Ready (Ok ())" "held (snd (ch_poll_flush ch q)) = held q"
    and "fst (ch_start_send ch r q) = Ok ()" "held (snd (ch_start_send ch r q)) = held q @ [r]"
  using assms by (simp_all add: live_channel_def fifo_channel_def)

lemma live_channel_next:
  assumes "live_channel ch held"
  shows "held q = [] \<Longrightarrow> \<exists>q'. ch_poll_next ch q = (Pending, q') \<and> held q' = []"
    and "held q = r # rs \<Longrightarrow> \<exists>q'. ch_poll_next ch q = (Ready (Some r), q') \<and> held q' = rs"
proof -
  obtain p q' where p: "ch_poll_next ch q = (p, q')" by fastforce
  have "(case fst (ch_poll_next ch q) of Ready (Some r) \<Rightarrow> held q = r # held (snd (ch_poll_next ch q))
      | _ \<Rightarrow> held (snd (ch_poll_next ch q)) = held q) \<and>
    (if held q = [] then fst (ch_poll_next ch q) = Pending else (\<exists>r. fst (ch_poll_next ch q) = Ready (Some r)))"
    using assms unfolding live_channel_def fifo_channel_def by blast
  then show "held q = [] \<Longrightarrow> \<exists>q'. ch_poll_next ch q = (Pending, q') \<and> held q' = []"
    and "held q = r # rs \<Longrightarrow> \<exists>q'. ch_poll_next ch q = (Ready (Some r), q') \<and> held q' = rs"
    using p by auto
qed

text \<open>Draining the transport's stream gives what the queue holds.\<close>

lemma drain_local:
  assumes "live_channel ch held"
  shows "\<exists>q'. drain_stream (local_poll_next ch) l = Some (held (lr_queue l), False, l\<lparr>lr_queue := q'\<rparr>) \<and> held q' = []"
proof (induction "held (lr_queue l)" arbitrary: l)
  case Nil
  then obtain q' where "ch_poll_next ch (lr_queue l) = (Pending, q')" "held q' = []"
    using live_channel_next(1) [OF assms, of "lr_queue l"] by auto
  then show ?case using Nil by (subst drain_stream.simps) (auto simp: local_poll_next_def)
next
  case (Cons r rs)
  obtain q1 where q1: "ch_poll_next ch (lr_queue l) = (Ready (Some r), q1)" "held q1 = rs"
    using live_channel_next(2) [OF assms, of "lr_queue l" r rs] Cons.hyps(2) by auto
  then obtain q' where "drain_stream (local_poll_next ch) (l\<lparr>lr_queue := q1\<rparr>) = Some (rs, False, l\<lparr>lr_queue := q'\<rparr>)" "held q' = []"
    using Cons.hyps(1) [of "l\<lparr>lr_queue := q1\<rparr>"] by auto
  then show ?case
    using q1 Cons.hyps(2) [symmetric] by (subst drain_stream.simps) (auto simp: local_poll_next_def)
qed

section \<open>The stages of a request\<close>

text \<open>A request between the client handle and its answer: it is first in the outgoing queue of the task,
  then its future is in the buffer of the transport, then its answer is in the transport's queue.\<close>

fun buffered_for :: "('n call \<Rightarrow> 'f \<Rightarrow> 'w \<Rightarrow> bool) \<Rightarrow> 'w \<Rightarrow> 'f buffered \<Rightarrow> ('n, 'c, 's) out_item list \<Rightarrow> bool" where
  "buffered_for F w (BufRequest f) ys = (\<exists>y. ys = [y] \<and> F (item_call y) f w)"
| "buffered_for F w (BufResponse r) ys = False"
| "buffered_for F w BufNone ys = (ys = [])"

definition staged ::
    "('n request \<Rightarrow> string) \<Rightarrow> ('q \<Rightarrow> string list) \<Rightarrow> 'n call set \<Rightarrow> ('n call \<Rightarrow> 'f \<Rightarrow> 'w \<Rightarrow> bool)
     \<Rightarrow> ('n call \<Rightarrow> string option \<Rightarrow> bool)     \<Rightarrow> ('n, 'c, 's) open_call list \<Rightarrow> ('m, 'f, 'q) local_rpc \<Rightarrow> 'w \<Rightarrow> string list \<Rightarrow> bool" where
  "staged to_string held C F R calls l w out \<longleftrightarrow>
     (\<exists>xs ys zs. calls = xs @ open_calls ys @ open_calls zs \<and>
        list_all2 (\<lambda>s (mc, c). R (MethodCall mc) (Some s)) (held (lr_queue l)) xs \<and>
        buffered_for F w (lr_buffered l) ys \<and> item_call ` set zs \<subseteq> C \<and> out = map (\<lambda>z. to_string (SingleRequest (item_call z))) zs)"

text \<open>How long the future in the buffer still takes.\<close>

definition buffer_turns :: "('f \<Rightarrow> nat) \<Rightarrow> ('m, 'f, 'q) local_rpc \<Rightarrow> nat" where
  "buffer_turns turns l = (case lr_buffered l of BufRequest f \<Rightarrow> Suc (turns f) | _ \<Rightarrow> 0)"

lemma buffer_turns_simps [simp]:
  "buffer_turns turns (l\<lparr>lr_queue := q\<rparr>) = buffer_turns turns l"
  "buffer_turns turns (l\<lparr>lr_buffered := BufRequest f\<rparr>) = Suc (turns f)"
  "buffer_turns turns (l\<lparr>lr_buffered := BufNone\<rparr>) = 0"
  by (simp_all add: buffer_turns_def)

lemma buffer_turns_None: "lr_buffered l = BufNone \<Longrightarrow> buffer_turns turns l = 0"
  by (simp add: buffer_turns_def)

lemma staged_queue [simp]: "held q = held (lr_queue l) \<Longrightarrow>
  staged to_string held C F R calls (l\<lparr>lr_queue := q\<rparr>) w out = staged to_string held C F R calls l w out"
  by (simp add: staged_def)

text \<open>What one look at the buffer does: the future gets nearer to its end, or the buffer is empty.\<close>

definition moved ::
    "('f \<Rightarrow> nat) \<Rightarrow> ('q \<Rightarrow> string list) \<Rightarrow> (unit, 'y) result poll \<Rightarrow> ('m, 'f, 'q) local_rpc \<Rightarrow> ('m, 'f, 'q) local_rpc \<Rightarrow> bool" where
  "moved turns held r l l' \<longleftrightarrow> lr_meta l' = lr_meta l \<and>
     (r = Pending \<and> buffer_turns turns l' < buffer_turns turns l \<or>
      r = Ready (Ok ()) \<and> lr_buffered l' = BufNone \<and> (buffer_turns turns l = 0 \<longrightarrow> held (lr_queue l') = held (lr_queue l)))"

lemma serves_poll:
  assumes "serves_calls to_string ho meta turns C F R" and "F c f w"
  shows "ho_poll ho f w = (Ready r, f', w') \<Longrightarrow> R c r"
    and "ho_poll ho f w = (Pending, f', w') \<Longrightarrow> F c f' w' \<and> turns f' < turns f"
proof -
  have "case ho_poll ho f w of (Ready r, _, _) \<Rightarrow> R c r | (Pending, f', w') \<Rightarrow> F c f' w' \<and> turns f' < turns f"
    using assms(1) [unfolded serves_calls_def, THEN conjunct2, rule_format, OF assms(2)] .
  then show "ho_poll ho f w = (Ready r, f', w') \<Longrightarrow> R c r"
    and "ho_poll ho f w = (Pending, f', w') \<Longrightarrow> F c f' w' \<and> turns f' < turns f" by simp_all
qed

lemma staged_answered:
  assumes "readable parse R" and "staged to_string held C F R calls l w out" and "lr_buffered l = BufRequest f"
    and "\<And>c. F c f w \<Longrightarrow> R c t" and "held q = held (lr_queue l) @ (case t of Some s \<Rightarrow> [s] | None \<Rightarrow> [])"
  shows "staged to_string held C F R calls (l\<lparr>lr_buffered := BufNone, lr_queue := q\<rparr>) w' out"
proof -
  obtain xs y zs where st: "calls = xs @ item_open y @ open_calls zs" "F (item_call y) f w"
    "list_all2 (\<lambda>s (mc, c). R (MethodCall mc) (Some s)) (held (lr_queue l)) xs"
    "item_call ` set zs \<subseteq> C" "out = map (\<lambda>z. to_string (SingleRequest (item_call z))) zs"
    using assms(2,3) by (auto simp: staged_def)
  have "R (item_call y) t" using assms(4) st(2) .
  then have "list_all2 (\<lambda>s (mc, c). R (MethodCall mc) (Some s)) (held q) (xs @ item_open y)"
    using assms(1,5) st(3) unfolding readable_def by (cases y) (fastforce intro: list_all2_appendI)+
  then show ?thesis using st(1,4,5)
    unfolding staged_def by (intro exI [of _ "xs @ item_open y"] exI [of _ "[]"] exI [of _ zs]) simp
qed

lemma poll_buffered_moves:
  assumes "live_channel ch held" and "serves_calls to_string ho meta turns C F R" and "readable parse R"
    and "staged to_string held C F R calls l w out" and "poll_buffered ch ho l w = (r, l', w')"
  shows "staged to_string held C F R calls l' w' out \<and> moved turns held r l l'"
proof (cases "lr_buffered l")
  case (BufRequest f)
  obtain p f' w1 where p: "ho_poll ho f w = (p, f', w1)" by (metis prod_cases3)
  show ?thesis
  proof (cases p)
    case Pending
    then have l': "r = Pending" "l' = l\<lparr>lr_buffered := BufRequest f'\<rparr>" "w' = w1"
      using assms(5) BufRequest p by (simp_all add: poll_buffered_def)
    moreover obtain xs ys zs where "calls = xs @ open_calls ys @ open_calls zs" "buffered_for F w (BufRequest f) ys"
      "list_all2 (\<lambda>s (mc, c). R (MethodCall mc) (Some s)) (held (lr_queue l)) xs"
      "item_call ` set zs \<subseteq> C" "out = map (\<lambda>z. to_string (SingleRequest (item_call z))) zs"
      using assms(4) BufRequest by (auto simp: staged_def)
    moreover from this(2) have "buffered_for F w1 (BufRequest f') ys \<and> turns f' < turns f"
      using serves_poll(2) [OF assms(2)] p Pending by auto
    ultimately show ?thesis using BufRequest
      by (auto simp: staged_def moved_def buffer_turns_def simp del: buffered_for.simps)
  next
    case (Ready t)
    let ?q = "case t of Some s \<Rightarrow> snd (ch_start_send ch s (lr_queue l)) | None \<Rightarrow> lr_queue l"
    have l': "r = Ready (Ok ()) \<and> l' = l\<lparr>lr_buffered := BufNone, lr_queue := ?q\<rparr>"
    proof (cases t)
      case (Some s)
      then show ?thesis
        using assms(5) BufRequest p Ready live_channel_simps(5) [OF assms(1), where r = s and q = "lr_queue l"]
        by (simp add: poll_buffered_def local_send_response_def Let_def case_prod_beta)
    qed (use assms(5) BufRequest p Ready in \<open>auto simp: poll_buffered_def local_send_response_def Let_def\<close>)
    have "held ?q = held (lr_queue l) @ (case t of Some s \<Rightarrow> [s] | None \<Rightarrow> [])"
      using live_channel_simps(6) [OF assms(1)] by (simp split: option.splits)
    then have "staged to_string held C F R calls l' w' out"
      unfolding l' [THEN conjunct2] using staged_answered [OF assms(3,4) BufRequest] serves_poll(1) [OF assms(2)] p Ready by blast
    then show ?thesis using l' BufRequest by (simp add: moved_def buffer_turns_def)
  qed
next
  case (BufResponse s)
  then show ?thesis using assms(4) by (auto simp: staged_def)
next
  case BufNone
  then have "r = Ready (Ok ())" "l' = l" "w' = w"
    using assms(5) by (cases l, simp add: poll_buffered_def local_send_response_def)+
  then show ?thesis using BufNone assms(4) by (simp add: moved_def)
qed

lemma after_buffered_moves:
  fixes ch :: "('q, 'y) channel_ops"
  assumes "live_channel ch held" and "serves_calls to_string ho meta turns C F R" and "readable parse R"
    and "staged to_string held C F R calls l w out" and "f = ch_poll_ready ch \<or> f = ch_poll_flush ch"
    and "local_after_buffered ch ho f l w = (r, l', w')"
  shows "staged to_string held C F R calls l' w' out \<and> moved turns held r l l'"
proof -
  obtain r1 :: "(unit, 'y) result poll" and l1 w1 where p: "poll_buffered ch ho l w = (r1, l1, w1)" by (metis prod_cases3)
  note st = poll_buffered_moves [OF assms(1-4) p]
  obtain q where q: "f (lr_queue l1) = (Ready (Ok ()), q)" "held q = held (lr_queue l1)"
    using assms(5) live_channel_simps(1-4) [OF assms(1), where q = "lr_queue l1"] by (metis prod.collapse)
  have "r = r1" "w' = w1" "l' = (case r1 of Pending \<Rightarrow> l1 | Ready _ \<Rightarrow> l1\<lparr>lr_queue := q\<rparr>)"
    using assms(6) p q(1) st by (auto simp: local_after_buffered_def moved_def split: poll.splits)
  then show ?thesis using st q(2) by (cases r1) (auto simp: moved_def)
qed

section \<open>One poll\<close>

lemma sink_ready_moves:
  assumes "live_channel ch held" and "serves_calls to_string ho meta turns C F R" and "readable parse R"
    and "staged to_string held C F R calls l w out"
  shows "\<exists>b l' w'. (do_sink_ready (local_ops co ch ho) (l, w, v) = (b, l', w', v) \<and>
    staged to_string held C F R calls l' w' out \<and> lr_meta l' = lr_meta l \<and>
    (b = Pending \<and> buffer_turns turns l' < buffer_turns turns l \<or>
     b = Ready True \<and> lr_buffered l' = BufNone \<and> (buffer_turns turns l = 0 \<longrightarrow> held (lr_queue l') = held (lr_queue l))))"
    and "\<exists>b l' w'. (do_sink_flush (local_ops co ch ho) (l, w, v) = (b, l', w', v) \<and>
    staged to_string held C F R calls l' w' out \<and> lr_meta l' = lr_meta l \<and>
    buffer_turns turns l' \<le> buffer_turns turns l \<and> (buffer_turns turns l = 0 \<longrightarrow> held (lr_queue l') = held (lr_queue l)))"
proof -
  obtain r l' w' where p: "local_poll_ready ch ho l w = (r, l', w')" by (metis prod_cases3)
  note m = after_buffered_moves [OF assms _ p [unfolded local_poll_ready_def]]
  show "\<exists>b l' w'. (do_sink_ready (local_ops co ch ho) (l, w, v) = (b, l', w', v) \<and>
    staged to_string held C F R calls l' w' out \<and> lr_meta l' = lr_meta l \<and>
    (b = Pending \<and> buffer_turns turns l' < buffer_turns turns l \<or>
     b = Ready True \<and> lr_buffered l' = BufNone \<and> (buffer_turns turns l = 0 \<longrightarrow> held (lr_queue l') = held (lr_queue l))))"
    using m p by (auto simp: local_ops_def sink_poll_def moved_def)
next
  obtain r l' w' where p: "local_poll_flush ch ho l w = (r, l', w')" by (metis prod_cases3)
  note m = after_buffered_moves [OF assms _ p [unfolded local_poll_flush_def]]
  show "\<exists>b l' w'. (do_sink_flush (local_ops co ch ho) (l, w, v) = (b, l', w', v) \<and>
    staged to_string held C F R calls l' w' out \<and> lr_meta l' = lr_meta l \<and>
    buffer_turns turns l' \<le> buffer_turns turns l \<and> (buffer_turns turns l = 0 \<longrightarrow> held (lr_queue l') = held (lr_queue l)))"
    using m p by (auto simp: local_ops_def sink_poll_def moved_def buffer_turns_None)
qed

text \<open>Taking a request out of the outgoing queue into the empty buffer.\<close>

lemma staged_send:
  assumes "serves_calls to_string ho (lr_meta l) turns C F R" and "staged to_string held C F R calls l w (s # out)"
    and "lr_buffered l = BufNone" and "local_start_send ho s l w = (l', w')"
  shows "staged to_string held C F R calls l' w' out \<and> lr_meta l' = lr_meta l"
proof -
  obtain xs z zs where st: "calls = xs @ item_open z @ open_calls zs" "s = to_string (SingleRequest (item_call z))"
    "list_all2 (\<lambda>s (mc, c). R (MethodCall mc) (Some s)) (held (lr_queue l)) xs"
    "item_call ` set (z # zs) \<subseteq> C" "out = map (\<lambda>z. to_string (SingleRequest (item_call z))) zs"
    using assms(2,3) by (auto simp: staged_def)
  obtain f where f: "ho_handle_request ho s (lr_meta l) w = (f, w')" "l' = l\<lparr>lr_buffered := BufRequest f\<rparr>"
    using assms(4) by (auto simp: local_start_send_def split: prod.splits)
  have "F (item_call z) f w'"
    using assms(1) [unfolded serves_calls_def, THEN conjunct1, rule_format, of "item_call z" w f w'] st(2,4) f(1) by simp
  then have "staged to_string held C F R calls l' w' out"
    unfolding staged_def using st f(2) by (intro exI [of _ xs] exI [of _ "[z]"] exI [of _ zs]) simp
  then show ?thesis using f(2) by simp
qed

lemma outgoing_moves:
  assumes "live_channel ch held" and "serves_calls to_string ho meta turns C F R" and "readable parse R"
    and "staged to_string held C F R calls l w out" and "lr_meta l = meta"
  shows "\<exists>out' l' w'. handle_outgoing (local_ops co ch ho) out (l, w, v) = (DuplexContinue, out', l', w', v) \<and>
    staged to_string held C F R calls l' w' out' \<and> lr_meta l' = meta \<and>
    (length out' < length out \<or> out' = out \<and> buffer_turns turns l' < buffer_turns turns l \<or>
     out' = [] \<and> out = [] \<and> buffer_turns turns l = 0 \<and> buffer_turns turns l' = 0 \<and> held (lr_queue l') = held (lr_queue l))"
  using assms(4,5)
proof (induction out arbitrary: l w)
  case Nil
  then show ?case using sink_ready_moves(1) [OF assms(1-3) Nil.prems(1), of co v]
    by (fastforce simp: buffer_turns_None)
next
  case (Cons s out)
  obtain b l1 w1 where r: "do_sink_ready (local_ops co ch ho) (l, w, v) = (b, l1, w1, v)"
    "staged to_string held C F R calls l1 w1 (s # out)" "lr_meta l1 = meta"
    "b = Pending \<and> buffer_turns turns l1 < buffer_turns turns l \<or> b = Ready True \<and> lr_buffered l1 = BufNone"
    using sink_ready_moves(1) [OF assms(1-3) Cons.prems(1), of co v] Cons.prems(2) by auto
  from r(4) show ?case
  proof
    assume "b = Pending \<and> buffer_turns turns l1 < buffer_turns turns l"
    then show ?thesis using r by simp
  next
    assume b: "b = Ready True \<and> lr_buffered l1 = BufNone"
    obtain l2 w2 where s: "local_start_send ho s l1 w1 = (l2, w2)" by fastforce
    have st: "staged to_string held C F R calls l2 w2 out" "lr_meta l2 = meta"
      using staged_send [OF _ r(2) _ s] assms(2) r(3) b by auto
    obtain out' l' w' where
      "handle_outgoing (local_ops co ch ho) out (l2, w2, v) = (DuplexContinue, out', l', w', v)"
      "staged to_string held C F R calls l' w' out'" "lr_meta l' = meta" "length out' \<le> length out"
      using Cons.IH [OF st] by fastforce
    moreover from this have "handle_outgoing (local_ops co ch ho) (s # out) (l, w, v) = (DuplexContinue, out', l', w', v)"
      using r(1) b s by (simp add: local_ops_def)
    ultimately show ?thesis by auto
  qed
qed

text \<open>Messages of the client handle add their requests to the outgoing queue.\<close>

lemma staged_more:
  assumes "staged to_string held C F R calls l w out" and "item_call ` set items \<subseteq> C"
  shows "staged to_string held C F R (calls @ open_calls items) l w (out @ map (\<lambda>z. to_string (SingleRequest (item_call z))) items)"
proof -
  obtain xs ys zs where "calls = xs @ open_calls ys @ open_calls zs"
    "list_all2 (\<lambda>s (mc, c). R (MethodCall mc) (Some s)) (held (lr_queue l)) xs"
    "buffered_for F w (lr_buffered l) ys" "item_call ` set zs \<subseteq> C" "out = map (\<lambda>z. to_string (SingleRequest (item_call z))) zs"
    using assms(1) by (auto simp: staged_def)
  then show ?thesis unfolding staged_def
    using assms(2) by - (rule exI [of _ xs], rule exI [of _ ys], rule exI [of _ "zs @ items"], simp add: image_Un)
qed

text \<open>Resolving open calls acts on the subscriptions and on the channels of the callers.\<close>

fun resolve ::
    "('n, 'c, 's, 'v, 'x) caller_ops \<Rightarrow> ('c, 's) pending_request \<times> ('n json, 'n, 'x) client_result
     \<Rightarrow> 's active_map \<times> 'v \<Rightarrow> 's active_map \<times> 'v" where
  "resolve co (PendingCall c, res) (subs, v) = (subs, snd (co_oneshot_send co c res v))"
| "resolve co (PendingSubscription sub, res) (subs, v) =
     (case Option.bind (result_ok res) (sub_parse_value (co_as_u64 co)) of
        Some s \<Rightarrow> (snd (hm_insert (s, sub_notification sub) (sub\<lparr>sub_id := Some s\<rparr>) subs), v)
      | None \<Rightarrow> (subs, snd (co_stream_send co (sub_channel sub) res v)))"

definition completes ::
    "('n, 'c, 's, 'v, 'x) caller_ops \<Rightarrow> (('c, 's) pending_request \<times> ('n json, 'n, 'x) client_result) list
     \<Rightarrow> 's active_map \<times> 'v \<Rightarrow> 's active_map \<times> 'v" where
  "completes co log sv = fold (resolve co) log sv"

lemma completes_simps [simp]:
  "completes co [] sv = sv" "completes co (a # log) sv = completes co log (resolve co a sv)"
  "completes co (log @ log') sv = completes co log' (completes co log sv)"
  by (simp_all add: completes_def)

lemma resolve_local:
  "dx_resolve (local_ops co ch ho) a (subs, l, w, v) = (case resolve co a (subs, v) of (subs', v') \<Rightarrow> (subs', l, w, v'))"
  by (cases "(co, a, subs, v)" rule: resolve.cases) (auto simp: local_ops_def case_prod_beta split: option.splits)

lemma dx_completes_local:
  "dx_completes (local_ops co ch ho) log (subs, l, w, v) = (case completes co log (subs, v) of (subs', v') \<Rightarrow> (subs', l, w, v'))"
  by (induction log arbitrary: subs v) (auto simp: resolve_local split: prod.splits)

text \<open>Between two polls, and how much is left to do: requests to be sent, then polls of the future in
  the buffer, then answers to be read.\<close>

definition between_polls where
  "between_polls to_string held C F R meta calls d l w \<longleftrightarrow>
     awaiting calls d \<and> staged to_string held C F R calls l w (dx_outgoing d) \<and> lr_meta l = meta"

definition work_left ::
    "('f \<Rightarrow> nat) \<Rightarrow> ('q \<Rightarrow> string list) \<Rightarrow> ('n, 'c, 's, 'x) duplex \<Rightarrow> ('m, 'f, 'q) local_rpc \<Rightarrow> nat \<times> nat \<times> nat" where
  "work_left turns held d l = (length (dx_outgoing d), buffer_turns turns l, length (held (lr_queue l)))"

abbreviation less_work :: "((nat \<times> nat \<times> nat) \<times> (nat \<times> nat \<times> nat)) set" where
  "less_work \<equiv> less_than <*lex*> less_than <*lex*> less_than"

lemma no_work_left:
  assumes "between_polls to_string held C F R meta calls d l w" and "work_left turns held d l = (0, 0, 0)"
  shows "calls = []"
  using assms by (cases "lr_buffered l") (auto simp: between_polls_def staged_def work_left_def buffer_turns_def)

lemma sending_moves:
  assumes "live_channel ch held" and "serves_calls to_string ho meta turns C F R" and "readable parse R"
    and "staged to_string held C F R calls l w (dx_outgoing d)" and "lr_meta l = meta" and "dx_channel_open d"
  shows "\<exists>out u l' w'. handle_outgoing (local_ops co ch ho) (dx_outgoing d) (l, w, v) = (DuplexContinue, out, u) \<and>
    duplex_finish (local_ops co ch ho) (d\<lparr>dx_outgoing := out\<rparr>) u = (False, l', w', v) \<and>
    staged to_string held C F R calls l' w' out \<and> lr_meta l' = meta \<and>
    ((length out, buffer_turns turns l') = (0, 0) \<and> (length (dx_outgoing d), buffer_turns turns l) = (0, 0) \<and>
       held (lr_queue l') = held (lr_queue l) \<or>
     ((length out, buffer_turns turns l'), (length (dx_outgoing d), buffer_turns turns l)) \<in> less_than <*lex*> less_than)"
proof -
  obtain out l1 w1 where o: "handle_outgoing (local_ops co ch ho) (dx_outgoing d) (l, w, v) = (DuplexContinue, out, l1, w1, v)"
    "staged to_string held C F R calls l1 w1 out" "lr_meta l1 = meta"
    and less: "length out < length (dx_outgoing d) \<or> out = dx_outgoing d \<and> buffer_turns turns l1 < buffer_turns turns l \<or>
      out = [] \<and> dx_outgoing d = [] \<and> buffer_turns turns l = 0 \<and> buffer_turns turns l1 = 0 \<and> held (lr_queue l1) = held (lr_queue l)"
    using outgoing_moves [OF assms(1-5), of co v] by blast
  obtain b l2 w2 where f: "do_sink_flush (local_ops co ch ho) (l1, w1, v) = (b, l2, w2, v)"
    "staged to_string held C F R calls l2 w2 out" "lr_meta l2 = meta" "buffer_turns turns l2 \<le> buffer_turns turns l1"
    "buffer_turns turns l1 = 0 \<Longrightarrow> held (lr_queue l2) = held (lr_queue l1)"
    using sink_ready_moves(2) [OF assms(1-3) o(2), of co v] o(3) by auto
  have "duplex_finish (local_ops co ch ho) (d\<lparr>dx_outgoing := out\<rparr>) (l1, w1, v) = (False, l2, w2, v)"
    using f(1) assms(6) by (simp add: duplex_finish_def)
  then show ?thesis using o(1) f(2-5) less by (intro exI [of _ out] exI [of _ "(l1, w1, v)"] exI [of _ l2] exI [of _ w2]) auto
qed

text \<open>The world changes only when the handler is given one of the requests or one of its futures is polled, and
  not at all when there is nothing to send and no future in the buffer.\<close>

definition ho_step ::
    "('n request \<Rightarrow> string) \<Rightarrow> ('m, 'f, 'w) handler_ops \<Rightarrow> 'm \<Rightarrow> 'n call set \<Rightarrow> ('n call \<Rightarrow> 'f \<Rightarrow> 'w \<Rightarrow> bool) \<Rightarrow> 'w \<Rightarrow> 'w \<Rightarrow> bool" where
  "ho_step to_string ho meta C F w w' \<longleftrightarrow>
     (\<exists>c \<in> C. w' = snd (ho_handle_request ho (to_string (SingleRequest c)) meta w)) \<or>
     (\<exists>c f. F c f w \<and> w' = snd (snd (ho_poll ho f w)))"

lemma poll_buffered_world:
  assumes "staged to_string held C F R calls l w out" and "poll_buffered ch ho l w = (r, l', w')"
  shows "reaches (ho_step to_string ho meta C F) w w'" and "buffer_turns turns l = 0 \<Longrightarrow> w' = w"
proof -
  have "(\<exists>c f. F c f w \<and> lr_buffered l = BufRequest f \<and> w' = snd (snd (ho_poll ho f w))) \<or> w' = w"
    using assms by (auto simp: staged_def poll_buffered_def Let_def split: buffered.splits prod.splits poll.splits)
  then show "reaches (ho_step to_string ho meta C F) w w'" "buffer_turns turns l = 0 \<Longrightarrow> w' = w"
    by (auto simp: buffer_turns_def intro: reaches_refl, intro reaches_one) (auto simp: ho_step_def)
qed

lemma after_buffered_world:
  assumes "staged to_string held C F R calls l w out" and "local_after_buffered ch ho f l w = (r, l', w')"
  shows "reaches (ho_step to_string ho meta C F) w w'" and "buffer_turns turns l = 0 \<Longrightarrow> w' = w"
proof -
  obtain r1 l1 w1 where p: "poll_buffered ch ho l w = (r1, l1, w1)" by (metis prod_cases3)
  have "w' = w1" using assms(2) p by (auto simp: local_after_buffered_def split: poll.splits result.splits prod.splits)
  then show "reaches (ho_step to_string ho meta C F) w w'" "buffer_turns turns l = 0 \<Longrightarrow> w' = w"
    using poll_buffered_world [OF assms(1) p] by simp_all
qed

lemma sink_world:
  assumes "staged to_string held C F R calls l w out"
    and "do_sink_ready (local_ops co ch ho) (l, w, v) = (b, l', w', v') \<or> do_sink_flush (local_ops co ch ho) (l, w, v) = (b, l', w', v')"
  shows "reaches (ho_step to_string ho meta C F) w w'" and "buffer_turns turns l = 0 \<Longrightarrow> w' = w"
proof -
  have "\<exists>f r. local_after_buffered ch ho f l w = (r, l', w')"
    using assms(2) by (auto simp: local_ops_def sink_poll_def local_poll_ready_def local_poll_flush_def case_prod_beta prod_eq_iff)
  then obtain f r where "local_after_buffered ch ho f l w = (r, l', w')" by blast
  from after_buffered_world [OF assms(1) this]
  show "reaches (ho_step to_string ho meta C F) w w'" "buffer_turns turns l = 0 \<Longrightarrow> w' = w" .
qed

lemma outgoing_world:
  assumes env: "live_channel ch held" "serves_calls to_string ho meta turns C F R" "readable parse R"
    and "staged to_string held C F R calls l w out" and "lr_meta l = meta"
    and "handle_outgoing (local_ops co ch ho) out (l, w, v) = (r, out', l', w', v')"
  shows "reaches (ho_step to_string ho meta C F) w w'"
  using assms(4-6)
proof (induction out arbitrary: l w)
  case Nil
  then show ?case by (auto intro: sink_world(1) [OF Nil.prems(1)] split: prod.splits poll.splits bool.splits)
next
  case (Cons s out)
  obtain b l1 w1 where r: "do_sink_ready (local_ops co ch ho) (l, w, v) = (b, l1, w1, v)" "staged to_string held C F R calls l1 w1 (s # out)"
    "lr_meta l1 = meta" "b = Ready True \<Longrightarrow> lr_buffered l1 = BufNone"
    using sink_ready_moves(1) [OF env Cons.prems(1), of co v] Cons.prems(2) by auto
  have w1: "reaches (ho_step to_string ho meta C F) w w1" by (rule sink_world(1) [OF Cons.prems(1) disjI1 [OF r(1)]])
  show ?case
  proof (cases "b = Ready True")
    case True
    obtain l2 w2 where s: "local_start_send ho s l1 w1 = (l2, w2)" by fastforce
    have st: "staged to_string held C F R calls l2 w2 out" "lr_meta l2 = meta"
      using staged_send [OF _ r(2) _ s] env(2) r(3,4) True by auto
    obtain c where "c \<in> C" "s = to_string (SingleRequest c)"
      using r(2,4) True by (auto simp: staged_def Cons_eq_map_conv)
    then have "ho_step to_string ho meta C F w1 w2"
      using s r(3) by (auto simp: local_start_send_def ho_step_def split: prod.splits intro!: bexI [of _ c])
    moreover have "do_sink_send (local_ops co ch ho) s (l1, w1, v) = (True, l2, w2, v)" using s by (simp add: local_ops_def)
    then have "reaches (ho_step to_string ho meta C F) w2 w'" using Cons.prems(3) Cons.IH [OF st] r(1) True by simp
    ultimately show ?thesis using w1 by (blast intro: reaches_trans reaches_step)
  next
    case False
    then have "w' = w1" using Cons.prems(3) r(1) by (auto split: poll.splits bool.splits)
    then show ?thesis using w1 by simp
  qed
qed

text \<open>A poll whose lines have been read and processed: it ends with sending.\<close>

lemma poll_sends:
  fixes co :: "('n, 'c, 's, 'v, 'x) caller_ops" and ch :: "('q, 'y) channel_ops" and ho :: "('m, 'f, 'w) handler_ops"
  defines "ops \<equiv> local_ops co ch ho"
  assumes env: "live_channel ch held" "serves_calls (co_to_string co) ho meta turns C F R" "readable (co_parse co) R"
    and "dx_channel_open d" and "dx_incoming (fold (handle_message ops) msgs d) = []"
    and "list_all2 (\<lambda>s m. do_parse ops s = Ok m) ls ms"
    and "handle_incoming ops ms ((fold (handle_message ops) msgs d)\<lparr>dx_incoming := ms\<rparr>) (l, w, v) = (DuplexContinue, d2, l, w, v2)"
    and "awaiting rest d2" and "staged (co_to_string co) held C F R rest l w (dx_outgoing d2)" and "lr_meta l = meta"
  shows "\<exists>out l' w'. duplex_poll ops \<lparr>pe_messages = msgs, pe_channel_closed = False, pe_lines = ls, pe_stream_closed = False\<rparr> d (l, w, v) =
      (DuplexContinue, d2\<lparr>dx_outgoing := out\<rparr>, l', w', v2) \<and>
    between_polls (co_to_string co) held C F R meta rest (d2\<lparr>dx_outgoing := out\<rparr>) l' w' \<and> reaches (ho_step (co_to_string co) ho meta C F) w w' \<and>
    ((length out, buffer_turns turns l') = (0, 0) \<and> (length (dx_outgoing d2), buffer_turns turns l) = (0, 0) \<and>
       held (lr_queue l') = held (lr_queue l) \<and> w' = w \<or>
     ((length out, buffer_turns turns l'), (length (dx_outgoing d2), buffer_turns turns l)) \<in> less_than <*lex*> less_than)"
proof -
  have "dx_channel_open d2" using assms(9) by (simp add: awaiting_def)
  then obtain out u l' w' where s: "handle_outgoing ops (dx_outgoing d2) (l, w, v2) = (DuplexContinue, out, u)"
    "duplex_finish ops (d2\<lparr>dx_outgoing := out\<rparr>) u = (False, l', w', v2)"
    "staged (co_to_string co) held C F R rest l' w' out" "lr_meta l' = meta"
    and less: "(length out, buffer_turns turns l') = (0, 0) \<and> (length (dx_outgoing d2), buffer_turns turns l) = (0, 0) \<and>
       held (lr_queue l') = held (lr_queue l) \<or>
     ((length out, buffer_turns turns l'), (length (dx_outgoing d2), buffer_turns turns l)) \<in> less_than <*lex*> less_than"
    using sending_moves [OF env assms(10,11), of co v2] unfolding ops_def by blast
  obtain l1 w1 v1 where u: "u = (l1, w1, v1)" by (metis prod_cases3)
  obtain b' where flush: "do_sink_flush ops (l1, w1, v1) = (b', l', w', v2)" using s(2) by (auto simp: duplex_finish_def u Let_def split: prod.splits)
  have st1: "staged (co_to_string co) held C F R rest l1 w1 out"
    using outgoing_moves [OF env assms(10,11), of co v2] s(1) unfolding ops_def u by auto
  have "reaches (ho_step (co_to_string co) ho meta C F) w w1" by (rule outgoing_world [OF env assms(10,11) s(1) [unfolded ops_def u]])
  moreover have "reaches (ho_step (co_to_string co) ho meta C F) w1 w'" by (rule sink_world(1) [OF st1 disjI2 [OF flush [unfolded ops_def]]])
  ultimately have world: "reaches (ho_step (co_to_string co) ho meta C F) w w'" by (rule reaches_trans)
  have idle: "w' = w" if none: "dx_outgoing d2 = []" "buffer_turns turns l = 0"
  proof -
    obtain b where r: "do_sink_ready ops (l, w, v2) = (b, l1, w1, v1)"
      using s(1) none(1) by (auto simp: u split: prod.splits poll.splits bool.splits)
    have "w1 = w" by (rule sink_world(2) [OF assms(10) disjI1 [OF r [unfolded ops_def]] none(2)])
    moreover have "buffer_turns turns l1 = 0"
      using sink_ready_moves(1) [OF env assms(10), of co v2] r none(2) by (auto simp: ops_def buffer_turns_None)
    then have "w' = w1" by (rule sink_world(2) [OF st1 disjI2 [OF flush [unfolded ops_def]]])
    ultimately show ?thesis by simp
  qed
  have "handle_client ops \<lparr>pe_messages = msgs, pe_channel_closed = False, pe_lines = ls, pe_stream_closed = False\<rparr> d = fold (handle_message ops) msgs d"
    using assms(5) by (simp add: handle_client_def)
  then have "duplex_poll ops \<lparr>pe_messages = msgs, pe_channel_closed = False, pe_lines = ls, pe_stream_closed = False\<rparr> d (l, w, v) =
      (DuplexContinue, d2\<lparr>dx_outgoing := out\<rparr>, l', w', v2)"
    using stream_read [OF assms(7), of "fold (handle_message ops) msgs d"] assms(6,8) s(1,2) by (simp add: duplex_poll_def)
  moreover have "between_polls (co_to_string co) held C F R meta rest (d2\<lparr>dx_outgoing := out\<rparr>) l' w'"
    using s(3,4) assms(9) by (simp add: between_polls_def awaiting_def next_request_def)
  ultimately show ?thesis using world idle less by (intro exI [of _ out] exI [of _ l'] exI [of _ w']) auto
qed

lemma poll_moves:
  assumes env: "live_channel ch held" "serves_calls (co_to_string co) ho meta turns C F R" "readable (co_parse co) R"
      "\<And>c res v. fst (co_oneshot_send co c res v)"
    and "unat (next_request d) + length msgs < 2 ^ 64"
    and "between_polls (co_to_string co) held C F R meta calls d l w"
    and "item_call ` set (request_items (next_request d) msgs) \<subseteq> C"
  shows "\<exists>d' l' w' v' answered_calls rest log.
    local_client_poll co ch ho msgs False (d, l, w, v) = Some (DuplexContinue, d', l', w', v') \<and>
    completes co log (dx_subscriptions d, v) = (dx_subscriptions d', v') \<and>
    calls @ open_calls (request_items (next_request d) msgs) = answered_calls @ rest \<and>
    list_all2 (answered (co_parse co) R) answered_calls log \<and>
    between_polls (co_to_string co) held C F R meta rest d' l' w' \<and>
    next_request d' = next_id (next_request d) msgs \<and>
    (msgs = [] \<longrightarrow> work_left turns held d l = (0, 0, 0) \<or> (work_left turns held d' l', work_left turns held d l) \<in> less_work)"
proof -
  let ?ops = "local_ops co ch ho"
  let ?calls = "calls @ open_calls (request_items (next_request d) msgs)"
  define d1 where "d1 = fold (handle_message ?ops) msgs d"
  have inv: "awaiting calls d" "staged (co_to_string co) held C F R calls l w (dx_outgoing d)" "lr_meta l = meta"
    using assms(6) by (simp_all add: between_polls_def)
  then have d1: "awaiting ?calls d1" "staged (co_to_string co) held C F R ?calls l w (dx_outgoing d1)"
    "next_request d1 = next_id (next_request d) msgs"
    using messages_queued [OF assms(5) inv(1), of ?ops] staged_more [OF inv(2) assms(7)]
    by (simp_all add: d1_def Let_def local_ops_def)
  have subs1: "dx_subscriptions d1 = dx_subscriptions d" by (simp add: d1_def)
  obtain q where q: "drain_stream (local_poll_next ch) l = Some (held (lr_queue l), False, l\<lparr>lr_queue := q\<rparr>)" "held q = []"
    using drain_local [OF env(1)] by blast
  obtain xs rest where xs: "?calls = xs @ rest" "list_all2 (\<lambda>s (mc, c). R (MethodCall mc) (Some s)) (held (lr_queue l)) xs"
    "staged (co_to_string co) held C F R rest (l\<lparr>lr_queue := q\<rparr>) w (dx_outgoing d1)"
    using d1(2) q(2) unfolding staged_def by fastforce
  obtain log where log: "list_all2 (answered (co_parse co) R) xs log"
    "list_all2 (\<lambda>s m. do_parse ?ops s = Ok m) (held (lr_queue l)) (map2 (\<lambda>(mc, c) (c', res). (mc_id mc, res, None, None)) xs log)"
    using queue_read [OF env(3) xs(2)] by (auto simp: local_ops_def)
  let ?ms = "map2 (\<lambda>(mc, c) (c', res). (mc_id mc, res, None, None)) xs log"
  let ?d1 = "d1\<lparr>dx_incoming := ?ms\<rparr>"
  have "map_of (dx_pending_requests ?d1) = pending_calls (xs @ rest)" "ids_below (next_request ?d1) (xs @ rest)"
    using d1(1) xs(1) by (simp_all add: awaiting_def next_request_def)
  moreover have "fst (do_oneshot_send ?ops c res u)" for c res u
    using env(4) by (cases u) (simp add: local_ops_def case_prod_beta)
  moreover obtain subs v1 where c: "completes co log (dx_subscriptions d, v) = (subs, v1)" by fastforce
  ultimately obtain p where p:
    "handle_incoming ?ops ?ms ?d1 (l\<lparr>lr_queue := q\<rparr>, w, v) =
       (DuplexContinue, d1\<lparr>dx_pending_requests := p, dx_subscriptions := subs, dx_incoming := []\<rparr>, l\<lparr>lr_queue := q\<rparr>, w, v1)"
    "map_of p = pending_calls rest" "ids_below (next_request d1) rest"
    using incoming_completes [OF _ log(1), of ?ops ?d1 rest "(l\<lparr>lr_queue := q\<rparr>, w, v)" subs "(l\<lparr>lr_queue := q\<rparr>, w, v1)"]
    by (auto simp: next_request_def dx_completes_local subs1)
  let ?d2 = "d1\<lparr>dx_pending_requests := p, dx_subscriptions := subs, dx_incoming := []\<rparr>"
  have d2: "awaiting rest ?d2" using p(2,3) d1(1) by (simp add: awaiting_def next_request_def)
  obtain out l' w' where s:
    "duplex_poll ?ops \<lparr>pe_messages = msgs, pe_channel_closed = False, pe_lines = held (lr_queue l), pe_stream_closed = False\<rparr> d (l\<lparr>lr_queue := q\<rparr>, w, v) =
      (DuplexContinue, ?d2\<lparr>dx_outgoing := out\<rparr>, l', w', v1)"
    "between_polls (co_to_string co) held C F R meta rest (?d2\<lparr>dx_outgoing := out\<rparr>) l' w'"
    and less: "(length out, buffer_turns turns l') = (0, 0) \<and> (length (dx_outgoing d1), buffer_turns turns l) = (0, 0) \<and> held (lr_queue l') = [] \<or>
     ((length out, buffer_turns turns l'), (length (dx_outgoing d1), buffer_turns turns l)) \<in> less_than <*lex*> less_than"
    using poll_sends [OF env(1-3), of d msgs "held (lr_queue l)" ?ms "l\<lparr>lr_queue := q\<rparr>" w v ?d2 v1 rest] inv(1,3) d1(1) log(2) p(1) d2 xs(3) q(2)
    by (auto simp: awaiting_def d1_def)
  let ?d3 = "?d2\<lparr>dx_outgoing := out\<rparr>"
  have "local_client_poll co ch ho msgs False (d, l, w, v) = Some (DuplexContinue, ?d3, l', w', v1)"
    using q(1) s(1) by (simp add: local_client_poll_def)
  moreover note s(2)
  moreover have "msgs = [] \<Longrightarrow> work_left turns held d l = (0, 0, 0) \<or> (work_left turns held ?d3 l', work_left turns held d l) \<in> less_work"
    using less by (auto simp: work_left_def d1_def)
  ultimately show ?thesis using xs(1) log(1) d1(3) c
    by (intro exI [of _ ?d3] exI [of _ l'] exI [of _ w'] exI [of _ v1] exI [of _ xs] exI [of _ rest] exI [of _ log])
      (simp add: next_request_def)
qed

section \<open>Every call is answered\<close>

lemma local_session_Cons:
  assumes "local_client_poll co ch ho msgs False s = Some (DuplexContinue, s')"
  shows "local_session co ch ho (msgs # mss) s = local_session co ch ho mss s'"
  using assms by simp

lemma idle_polls_answer:
  assumes env: "live_channel ch held" "serves_calls (co_to_string co) ho meta turns C F R" "readable (co_parse co) R"
      "\<And>c res v. fst (co_oneshot_send co c res v)"
    and "between_polls (co_to_string co) held C F R meta calls d l w"
  shows "\<exists>n d' l' w' v' log. local_session co ch ho (replicate n []) (d, l, w, v) = Some (d', l', w', v') \<and>
    completes co log (dx_subscriptions d, v) = (dx_subscriptions d', v') \<and>
    list_all2 (answered (co_parse co) R) calls log \<and> dx_pending_requests d' = []"
proof -
  have "wf less_work" by (intro wf_lex_prod wf_less_than)
  then show ?thesis using assms(5)
  proof (induction "work_left turns held d l" arbitrary: d l w v calls rule: wf_induct_rule)
    case less
    show ?case
    proof (cases "work_left turns held d l = (0, 0, 0)")
      case True
      then have "calls = []" using no_work_left [OF less(2)] by blast
      moreover from this have "map_of (dx_pending_requests d) = Map.empty"
        using less(2) by (simp add: between_polls_def awaiting_def pending_calls_def)
      then have "dx_pending_requests d = []" by (simp only: map_of_eq_empty_iff)
      ultimately show ?thesis
        by (intro exI [of _ 0] exI [of _ d] exI [of _ l] exI [of _ w] exI [of _ v] exI [of _ "[]"]) simp
    next
      case False
      have "unat (next_request d) + length [] < 2 ^ 64" using unsigned_less [of "next_request d", where ?'a = nat] by simp
      from poll_moves [OF env this less(2), of v] False obtain d1 l1 w1 v1 ok rest log where p:
        "local_client_poll co ch ho [] False (d, l, w, v) = Some (DuplexContinue, d1, l1, w1, v1)"
        "completes co log (dx_subscriptions d, v) = (dx_subscriptions d1, v1)"
        "calls = ok @ rest" "list_all2 (answered (co_parse co) R) ok log"
        "between_polls (co_to_string co) held C F R meta rest d1 l1 w1" "(work_left turns held d1 l1, work_left turns held d l) \<in> less_work"
        by (auto simp del: in_lex_prod)
      from less(1) [OF p(6,5), of v1] obtain n d' l' w' v' log' where
        "local_session co ch ho (replicate n []) (d1, l1, w1, v1) = Some (d', l', w', v')"
        "completes co log' (dx_subscriptions d1, v1) = (dx_subscriptions d', v')"
        "list_all2 (answered (co_parse co) R) rest log'" "dx_pending_requests d' = []" by blast
      then show ?thesis using p(1-4)
        by (intro exI [of _ "Suc n"] exI [of _ d'] exI [of _ l'] exI [of _ w'] exI [of _ v'] exI [of _ "log @ log'"])
          (simp add: list_all2_appendI)
    qed
  qed
qed

lemma session_answers:
  assumes env: "live_channel ch held" "serves_calls (co_to_string co) ho meta turns C F R" "readable (co_parse co) R"
      "\<And>c res v. fst (co_oneshot_send co c res v)"
    and "unat (next_request d) + length (concat mss) < 2 ^ 64"
    and "between_polls (co_to_string co) held C F R meta calls d l w"
    and "item_call ` set (request_items (next_request d) (concat mss)) \<subseteq> C"
  shows "\<exists>n d' l' w' v' log. local_session co ch ho (mss @ replicate n []) (d, l, w, v) = Some (d', l', w', v') \<and>
    completes co log (dx_subscriptions d, v) = (dx_subscriptions d', v') \<and>
    list_all2 (answered (co_parse co) R) (calls @ open_calls (request_items (next_request d) (concat mss))) log \<and>
    dx_pending_requests d' = []"
  using assms(5-7)
proof (induction mss arbitrary: d l w v calls)
  case Nil
  show ?case using idle_polls_answer [OF env Nil(2), of v] by simp
next
  case (Cons msgs mss)
  have bound: "unat (next_request d) + length msgs < 2 ^ 64" using Cons.prems(1) by simp
  have "item_call ` set (request_items (next_request d) msgs) \<subseteq> C"
    using Cons.prems(3) by (auto simp: request_items_append)
  from poll_moves [OF env bound Cons.prems(2) this, of v] obtain d1 l1 w1 v1 ok rest log where p:
    "local_client_poll co ch ho msgs False (d, l, w, v) = Some (DuplexContinue, d1, l1, w1, v1)"
    "completes co log (dx_subscriptions d, v) = (dx_subscriptions d1, v1)"
    "calls @ open_calls (request_items (next_request d) msgs) = ok @ rest" "list_all2 (answered (co_parse co) R) ok log"
    "between_polls (co_to_string co) held C F R meta rest d1 l1 w1" "next_request d1 = next_id (next_request d) msgs"
    by blast
  have "unat (next_request d1) + length (concat mss) < 2 ^ 64"
    using p(6) next_id_bound [OF bound] Cons.prems(1) by simp
  moreover have "item_call ` set (request_items (next_request d1) (concat mss)) \<subseteq> C"
    using Cons.prems(3) p(6) by (auto simp: request_items_append)
  ultimately obtain n d' l' w' v' log' where r:
    "local_session co ch ho (mss @ replicate n []) (d1, l1, w1, v1) = Some (d', l', w', v')"
    "completes co log' (dx_subscriptions d1, v1) = (dx_subscriptions d', v')"
    "list_all2 (answered (co_parse co) R) (rest @ open_calls (request_items (next_request d1) (concat mss))) log'"
    "dx_pending_requests d' = []" using Cons.IH [OF _ p(5), of v1] by blast
  have "calls @ open_calls (request_items (next_request d) (concat (msgs # mss))) =
      ok @ rest @ open_calls (request_items (next_request d1) (concat mss))"
    by (simp add: request_items_append p(6) flip: append_assoc) (simp add: p(3))
  then have "list_all2 (answered (co_parse co) R) (calls @ open_calls (request_items (next_request d) (concat (msgs # mss)))) (log @ log')"
    using p(4) r(3) by (simp add: list_all2_appendI)
  moreover have "local_session co ch ho ((msgs # mss) @ replicate n []) (d, l, w, v) = Some (d', l', w', v')"
    "completes co (log @ log') (dx_subscriptions d, v) = (dx_subscriptions d', v')" using p(1,2) r(1,2) by simp_all
  ultimately show ?case using r(4) by blast
qed

lemma between_polls_start:
  assumes "held q = []"
  shows "between_polls to_string held C F R meta [] duplex_new (local_with_metadata q meta) w"
  using assms by (simp add: between_polls_def awaiting_def staged_def duplex_new_def local_with_metadata_def pending_calls_def ids_below_def open_calls_def)

section \<open>The handler of \<open>core/src/io.rs\<close>\<close>

text \<open>The handler as the local transport uses it. A future of the handler resolves when it is polled.\<close>

definition handler_futures ::
    "(string \<Rightarrow> ('n request, 'e) result) \<Rightarrow> ('n response \<Rightarrow> string) \<Rightarrow> nat list \<Rightarrow> ('n, 'm, 'w) meta_io_handler
     \<Rightarrow> ('m, ('w, string option) fut, 'w) handler_ops" where
  "handler_futures server_read reply sched h =
     \<lparr>ho_handle_request = handle_request server_read reply sched h,
      ho_poll = (\<lambda>f w. case f w of Some (r, w') \<Rightarrow> (Ready r, f, w') | None \<Rightarrow> (Pending, f, w))\<rparr>"

text \<open>A future of the handler for a call, in a world \<open>w\<close>: in whatever world it is polled after something
  outside the handler has happened (\<open>E\<close>), it resolves to the reply to the call; polling it relates the worlds as \<open>Q\<close> says.\<close>

definition reply_future ::
    "('w \<Rightarrow> 'w \<Rightarrow> bool) \<Rightarrow> ('w \<Rightarrow> 'w \<Rightarrow> bool) \<Rightarrow> ('n response \<Rightarrow> string) \<Rightarrow> ('n, 'm, 'w) meta_io_handler \<Rightarrow> 'm \<Rightarrow> 'n call set
     \<Rightarrow> 'n call \<Rightarrow> ('w, string option) fut \<Rightarrow> 'w \<Rightarrow> bool" where
  "reply_future E Q reply h meta C c f w \<longleftrightarrow>
     c \<in> C \<and> keeps f Q \<and> (\<forall>w'. E w w' \<longrightarrow> (\<exists>t w''. f w' = Some (t, w'') \<and> handler_reply E reply h meta c t))"

lemma handler_serves:
  fixes h :: "('n, 'm, 'w) meta_io_handler"
  assumes "middleware h = Noop" and "\<And>c. c \<in> C \<Longrightarrow> server_read (to_string (SingleRequest c)) = Ok (SingleRequest c)"
    and "procs_answer E h" and "procs_keep Q h" and "\<And>w. E w w" and "\<And>w. Q w w"
  shows "serves_calls to_string (handler_futures server_read reply sched h) meta (\<lambda>_. 0) C
    (reply_future E Q reply h meta C) (\<lambda>c t. c \<in> C \<and> handler_reply E reply h meta c t)"
  unfolding serves_calls_def
proof (intro conjI ballI allI impI)
  fix c w f w' assume c: "c \<in> C" and
    "ho_handle_request (handler_futures server_read reply sched h) (to_string (SingleRequest c)) meta w = (f, w')"
  then have r: "handle_request server_read reply sched h (to_string (SingleRequest c)) meta w = (f, w')" by (simp add: handler_futures_def)
  have "keeps f Q" by (rule handle_single_keeps(2) [OF assms(1) assms(2) [OF c] assms(4) _ r]) (rule assms(6))
  moreover have "\<exists>t w3. f w2 = Some (t, w3) \<and> handler_reply E reply h meta c t" if "E w' w2" for w2
    by (rule handler_reply_now [OF assms(1) assms(2) [OF c] assms(3) r that])
  ultimately show "reply_future E Q reply h meta C c f w'" using c by (simp add: reply_future_def)
next
  fix c and f :: "('w, string option) fut" and w assume s: "reply_future E Q reply h meta C c f w"
  then obtain r w' where "f w = Some (r, w')" "handler_reply E reply h meta c r" "c \<in> C"
    using assms(5) unfolding reply_future_def by blast
  then show "case ho_poll (handler_futures server_read reply sched h) f w of
      (Ready t, _, _) \<Rightarrow> c \<in> C \<and> handler_reply E reply h meta c t
    | (Pending, f', w') \<Rightarrow> reply_future E Q reply h meta C c f' w' \<and> (0 :: nat) < 0" by (simp add: handler_futures_def)
qed

lemma handler_steps_keep:
  assumes "middleware h = Noop" and "\<And>c. c \<in> C \<Longrightarrow> server_read (to_string (SingleRequest c)) = Ok (SingleRequest c)"
    and "procs_keep Q h" and refl: "\<And>w. Q w w"
    and "ho_step to_string (handler_futures server_read reply sched h) meta C (reply_future E Q reply h meta C) w w'"
  shows "Q w w'"
proof -
  consider (request) c where "c \<in> C" "w' = snd (handle_request server_read reply sched h (to_string (SingleRequest c)) meta w)"
    | (poll) f where "keeps f Q" "w' = snd (snd (ho_poll (handler_futures server_read reply sched h) f w))"
    using assms(5) by (auto simp: ho_step_def reply_future_def handler_futures_def)
  then show ?thesis
  proof cases
    case request
    then obtain f where "handle_request server_read reply sched h (to_string (SingleRequest c)) meta w = (f, w')" by (metis prod.collapse)
    then show ?thesis
      using handle_single_keeps(1) [of h server_read "to_string (SingleRequest c)" c Q] assms(1-3) request(1) refl by blast
  next
    case poll
    then show ?thesis using refl by (auto simp: handler_futures_def keeps_def split: option.splits)
  qed
qed

lemma list_channel_live: "live_channel list_channel (\<lambda>q. q)"
  using list_channel_fifo by (simp add: id_def) (simp add: live_channel_def list_channel_def split: list.splits)

end
