(* ===== verification/Client_Pubsub.thy ===== *)
theory Client_Pubsub
  imports Client_Session
begin

text \<open>
  A client with publish-subscribe that is connected to a handler in its own process:
  \<open>connect_with_pubsub\<close> and \<open>connect_with_pubsub_and_middleware\<close> of
  \<open>core-client/transports/src/transports/local.rs\<close>. The metadata of the transport is a session; what the
  server sends to the session arrives at a channel, which the client task reads together with the
  queue of the transport (\<open>futures::stream::select\<close>, an argument).

  The theory shows that such a client is served: polled again and again, it resolves every call and
  subscribe request with an answer of the handler to it, and takes every notification that was sent to the session,
  once and in the order in which they were sent, whatever the interleaving.
\<close>

section \<open>Connecting\<close>

text \<open>The session is shared (\<open>Arc::new\<close>): the metadata is its address \<open>sid\<close> in the store of sessions. \<open>pair\<close> is the
  result of \<open>mpsc::unbounded\<close>.\<close>

definition connect_with_pubsub_and_middleware ::
    "'q \<Rightarrow> 't \<times> 'r \<Rightarrow> nat \<Rightarrow> ('t, 'u) ps_world
     \<Rightarrow> (('n, 'c, 's, 'x) duplex \<times> (nat, 'f, 'q) local_rpc \<times> 'r) \<times> ('t, 'u) ps_world" where
  "connect_with_pubsub_and_middleware unbounded pair sid w =
     (let (tx, rx) = pair; w1 = w\<lparr>ps_sessions := (ps_sessions w)(sid := session_new tx)\<rparr>
      in (duplex_task (local_with_metadata unbounded sid, rx), w1))"

definition connect_with_pubsub ::
    "'q \<Rightarrow> 't \<times> 'r \<Rightarrow> nat \<Rightarrow> ('t, 'u) ps_world
     \<Rightarrow> (('n, 'c, 's, 'x) duplex \<times> (nat, 'f, 'q) local_rpc \<times> 'r) \<times> ('t, 'u) ps_world" where
  "connect_with_pubsub unbounded pair sid w = connect_with_pubsub_and_middleware unbounded pair sid w"

text \<open>One poll of the task, with the messages that the client handle has sent. The stream \<open>sel\<close> acts on the
  transport and on the world, where the channel of the session is.\<close>

type_synonym ('m, 'f, 'q, 'w) merged_next = "('m, 'f, 'q) local_rpc \<times> 'w \<Rightarrow> string option poll \<times> ('m, 'f, 'q) local_rpc \<times> 'w"

definition pubsub_client_poll ::
    "('n, 'c, 's, 'v, 'x) caller_ops \<Rightarrow> ('q, 'y) channel_ops \<Rightarrow> ('m, 'f, 'w) handler_ops \<Rightarrow> ('m, 'f, 'q, 'w) merged_next
     \<Rightarrow> ('n, 'c, 's) rpc_message list \<Rightarrow> bool \<Rightarrow> ('n, 'c, 's, 'x) duplex \<times> ('m, 'f, 'q) local_rpc \<times> 'w \<times> 'v
     \<Rightarrow> (('n, 'x) duplex_outcome \<times> ('n, 'c, 's, 'x) duplex \<times> ('m, 'f, 'q) local_rpc \<times> 'w \<times> 'v) option" where
  "pubsub_client_poll co ch ho sel msgs closed s =
     (case s of (d, l, w, v) \<Rightarrow>
        case drain_stream sel (l, w) of
          None \<Rightarrow> None
        | Some (ls, ended, l', w') \<Rightarrow>
            Some (duplex_poll (local_ops co ch ho)
              \<lparr>pe_messages = msgs, pe_channel_closed = closed, pe_lines = ls, pe_stream_closed = ended\<rparr> d (l', w', v)))"

text \<open>A session: rounds of messages of the client handle, of what the server does meanwhile, and of a poll, while
  the task goes on.\<close>

fun pubsub_session ::
    "('n, 'c, 's, 'v, 'x) caller_ops \<Rightarrow> ('q, 'y) channel_ops \<Rightarrow> ('m, 'f, 'w) handler_ops \<Rightarrow> ('m, 'f, 'q, 'w) merged_next
     \<Rightarrow> (('n, 'c, 's) rpc_message list \<times> ('w \<Rightarrow> 'w)) list \<Rightarrow> ('n, 'c, 's, 'x) duplex \<times> ('m, 'f, 'q) local_rpc \<times> 'w \<times> 'v
     \<Rightarrow> (('n, 'c, 's, 'x) duplex \<times> ('m, 'f, 'q) local_rpc \<times> 'w \<times> 'v) option" where
  "pubsub_session co ch ho sel [] s = Some s"
| "pubsub_session co ch ho sel ((msgs, g) # rounds) (d, l, w, v) =
     (case pubsub_client_poll co ch ho sel msgs False (d, l, g w, v) of
        Some (DuplexContinue, s') \<Rightarrow> pubsub_session co ch ho sel rounds s'
      | _ \<Rightarrow> None)"

section \<open>What the client relies on\<close>

text \<open>The merged stream gives the next item of one of the two, and waits only when there is none. It does not
  end: the transport holds both ends of its queue, and the session the sending end of the other channel.
  \<open>inbox\<close> is what the channel of the session holds, \<open>history\<close> all that was ever sent to it, \<open>E\<close> what may
  happen to the world outside the handler, and \<open>I\<close> an invariant of the world.\<close>

definition fair_select ::
    "('w \<Rightarrow> bool) \<Rightarrow> ('w \<Rightarrow> 'w \<Rightarrow> bool) \<Rightarrow> ('m, 'f, 'q, 'w) merged_next \<Rightarrow> ('q \<Rightarrow> string list) \<Rightarrow> ('w \<Rightarrow> string list) \<Rightarrow> ('w \<Rightarrow> string list) \<Rightarrow> bool" where
  "fair_select I E sel held inbox history \<longleftrightarrow>
     (\<forall>l w r l' w'. sel (l, w) = (r, l', w') \<longrightarrow>
        E w w' \<and> (I w \<longrightarrow> I w') \<and> history w' = history w \<and> (\<exists>q. l' = l\<lparr>lr_queue := q\<rparr>) \<and>
        (case r of
           Pending \<Rightarrow> held (lr_queue l) = [] \<and> inbox w = [] \<and> held (lr_queue l') = [] \<and> inbox w' = []
         | Ready None \<Rightarrow> False
         | Ready (Some t) \<Rightarrow> held (lr_queue l) = t # held (lr_queue l') \<and> inbox w' = inbox w \<or>
             inbox w = t # inbox w' \<and> held (lr_queue l') = held (lr_queue l)))"

text \<open>The server keeps the invariant and only sends to the channel, and what it sends are notifications (\<open>P\<close>).\<close>

definition publishes ::
    "('w \<Rightarrow> bool) \<Rightarrow> (string \<Rightarrow> bool) \<Rightarrow> ('w \<Rightarrow> string list) \<Rightarrow> ('w \<Rightarrow> string list) \<Rightarrow> 'w \<Rightarrow> 'w \<Rightarrow> bool" where
  "publishes I P inbox history w w' \<longleftrightarrow>
     (I w \<longrightarrow> I w' \<and> (\<exists>ts. history w' = history w @ ts \<and> inbox w' = inbox w @ ts \<and> list_all P ts))"

text \<open>What happens beside the handler in the rounds of a session: it publishes, and leaves the handler alone (\<open>E\<close>).\<close>

definition rounds_publish ::
    "('w \<Rightarrow> bool) \<Rightarrow> ('w \<Rightarrow> 'w \<Rightarrow> bool) \<Rightarrow> (string \<Rightarrow> bool) \<Rightarrow> ('w \<Rightarrow> string list) \<Rightarrow> ('w \<Rightarrow> string list) \<Rightarrow> ('a \<times> ('w \<Rightarrow> 'w)) list \<Rightarrow> bool" where
  "rounds_publish I E P inbox history rounds \<longleftrightarrow>
     list_all (\<lambda>(msgs, g). \<forall>w. publishes I P inbox history w (g w) \<and> E w (g w)) rounds"

lemma publishes_refl: "publishes I P inbox history w w"
  by (simp add: publishes_def)

lemma publishes_trans:
  "publishes I P inbox history w w' \<Longrightarrow> publishes I P inbox history w' w'' \<Longrightarrow> publishes I P inbox history w w''"
  unfolding publishes_def by (metis append.assoc list_all_append)

lemma publishes_reaches:
  assumes "\<And>w w'. step w w' \<Longrightarrow> publishes I P inbox history w w'" and "reaches step w w'"
  shows "publishes I P inbox history w w'"
  using assms(2) by (induction rule: reaches.induct) (auto intro: publishes_refl publishes_trans assms(1))

text \<open>Draining the merged stream gives some interleaving of what both hold.\<close>

lemma drain_select:
  fixes l :: "('m, 'f, 'q) local_rpc" and w :: 'w
  assumes "fair_select I E sel held inbox history" and "transp E"
  shows "\<exists>ls q w'. drain_stream sel (l, w) = Some (ls, False, l\<lparr>lr_queue := q\<rparr>, w') \<and>
    ls \<in> shuffles (held (lr_queue l)) (inbox w) \<and> held q = [] \<and> inbox w' = [] \<and> history w' = history w \<and> E w w' \<and> (I w \<longrightarrow> I w')"
proof (induction "length (held (lr_queue l)) + length (inbox w)" arbitrary: l w rule: less_induct)
  case less
  obtain r l1 w1 where s: "sel (l, w) = (r, l1, w1)" by (metis prod_cases3)
  note step = assms(1) [unfolded fair_select_def, rule_format, OF s]
  then obtain q1 where l1: "l1 = l\<lparr>lr_queue := q1\<rparr>" by blast
  show ?case
  proof (cases r)
    case Pending
    then show ?thesis using s step l1 by (subst drain_stream.simps) auto
  next
    case (Ready x)
    then obtain t where t: "r = Ready (Some t)" using step by (cases x) auto
    then have one: "held (lr_queue l) = t # held q1 \<and> inbox w1 = inbox w \<or> inbox w = t # inbox w1 \<and> held q1 = held (lr_queue l)"
      using step l1 by simp
    then have "length (held (lr_queue l1)) + length (inbox w1) < length (held (lr_queue l)) + length (inbox w)"
      using l1 by auto
    from less.hyps [OF this] l1 obtain ls q w' where
      "drain_stream sel (l1, w1) = Some (ls, False, l\<lparr>lr_queue := q\<rparr>, w')" "ls \<in> shuffles (held q1) (inbox w1)"
      "held q = []" "inbox w' = []" "history w' = history w1" "E w1 w'" "I w1 \<longrightarrow> I w'" by auto
    moreover from this(2) have "t # ls \<in> shuffles (held (lr_queue l)) (inbox w)"
      using one by (auto simp: Cons_in_shuffles_iff)
    moreover from calculation(6) have "E w w'" using step assms(2) by (blast dest: transpD)
    ultimately show ?thesis using s t step by (subst drain_stream.simps) auto
  qed
qed

section \<open>Deliveries\<close>

text \<open>What the client takes from the merged stream: the answer to an open call, or a notification for a
  subscription id and notification name. A notification goes to the stream of the subscription that is
  active under them; when there is none it is dropped.\<close>

datatype ('n, 'c, 's, 'x) delivery =
    Answer "('c, 's) pending_request" "('n json, 'n, 'x) client_result"
  | Note "subscription_id \<times> string" "('n json, 'n, 'x) client_result"

fun dx_deliver ::
    "('n, 'c, 's, 'u, 'x) duplex_ops \<Rightarrow> ('n, 'c, 's, 'x) delivery \<Rightarrow> 's active_map \<times> 'u \<Rightarrow> 's active_map \<times> 'u" where
  "dx_deliver ops (Answer p res) su = dx_resolve ops (p, res) su"
| "dx_deliver ops (Note key res) (subs, u) =
     (subs, case map_of subs key of None \<Rightarrow> u | Some sub \<Rightarrow> snd (do_stream_send ops (sub_channel sub) res u))"

fun answers_in :: "('n, 'c, 's, 'x) delivery list \<Rightarrow> (('c, 's) pending_request \<times> ('n json, 'n, 'x) client_result) list" where
  "answers_in [] = []"
| "answers_in (Answer p res # log) = (p, res) # answers_in log"
| "answers_in (Note key res # log) = answers_in log"

fun notes_in :: "('n, 'c, 's, 'x) delivery list \<Rightarrow> ((subscription_id \<times> string) \<times> ('n json, 'n, 'x) client_result) list" where
  "notes_in [] = []"
| "notes_in (Answer p res # log) = notes_in log"
| "notes_in (Note key res # log) = (key, res) # notes_in log"

lemma deliveries_append [simp]:
  "answers_in (log @ log') = answers_in log @ answers_in log'" "notes_in (log @ log') = notes_in log @ notes_in log'"
  by (induction log rule: answers_in.induct) simp_all

text \<open>A text that the client reads as a notification.\<close>

definition noted ::
    "(string \<Rightarrow> (('n, 'x) incoming_message, 'n, 'x) client_result) \<Rightarrow> string
     \<Rightarrow> (subscription_id \<times> string) \<times> ('n json, 'n, 'x) client_result \<Rightarrow> bool" where
  "noted parse t a \<longleftrightarrow> parse t = Ok (IdNull, snd a, Some (snd (fst a)), Some (fst (fst a)))"

lemma ids_below_null: "ids_below k calls \<Longrightarrow> pending_calls calls IdNull = None"
  by (force simp: pending_calls_def ids_below_def map_of_eq_None_iff)

lemma note_delivered:
  assumes "map_of (dx_pending_requests d) IdNull = None" and "\<And>s res u. fst (do_stream_send ops s res u)"
  shows "handle_response ops (IdNull, res, Some name, Some sid) d u =
    (DuplexContinue, d, snd (dx_deliver ops (Note (sid, name) res) (dx_subscriptions d, u)))"
proof (cases "map_of (dx_subscriptions d) (sid, name)")
  case None
  then show ?thesis
    using assms(1) hm_remove_absent [OF assms(1)] by (simp add: handle_response_def deliver_notification_def Let_def case_prod_beta)
next
  case (Some sub)
  obtain b u' where u: "do_stream_send ops (sub_channel sub) res u = (b, u')" by fastforce
  then have b using assms(2) [of "sub_channel sub" res u] by simp
  then show ?thesis
    using Some u assms(1) hm_remove_absent [OF assms(1)] by (simp add: handle_response_def deliver_notification_def Let_def case_prod_beta)
qed

text \<open>Processing an interleaving of answers and notifications.\<close>

lemma incoming_delivers:
  assumes sends: "\<And>c res u. fst (do_oneshot_send ops c res u)" "\<And>s res u. fst (do_stream_send ops s res u)"
    and "readable (do_parse ops) R" and "ls \<in> shuffles qs ts"
    and "list_all2 (\<lambda>s (mc, p). R (MethodCall mc) (Some s)) qs xs" and "list_all (\<lambda>t. \<exists>a. noted (do_parse ops) t a) ts"
    and "map_of (dx_pending_requests d) = pending_calls (xs @ rest)" and "ids_below (next_request d) (xs @ rest)"
  shows "\<exists>ms log p subs u'. list_all2 (\<lambda>s m. do_parse ops s = Ok m) ls ms \<and>
    (\<forall>inc. handle_incoming ops ms (d\<lparr>dx_incoming := inc\<rparr>) u =
      (DuplexContinue, d\<lparr>dx_pending_requests := p, dx_subscriptions := subs, dx_incoming := []\<rparr>, u')) \<and>
    fold (dx_deliver ops) log (dx_subscriptions d, u) = (subs, u') \<and>
    list_all2 (answered (do_parse ops) R) xs (answers_in log) \<and> list_all2 (noted (do_parse ops)) ts (notes_in log) \<and>
    map_of p = pending_calls rest \<and> ids_below (next_request d) rest"
  using assms(4-8)
proof (induction ls arbitrary: qs ts xs d u)
  case Nil
  then show ?case
    by - (rule exI [of _ "[]"], rule exI [of _ "[]"], rule exI [of _ "dx_pending_requests d"], rule exI [of _ "dx_subscriptions d"],
      rule exI [of _ u], simp)
next
  case (Cons s ls)
  consider (answer) qs' where "qs = s # qs'" "ls \<in> shuffles qs' ts" | (note_) ts' where "ts = s # ts'" "ls \<in> shuffles qs ts'"
    using Cons.prems(1) by (auto simp: Cons_in_shuffles_iff neq_Nil_conv)
  then show ?case
  proof cases
    case answer
    then obtain mc p xs' where xs: "xs = (mc, p) # xs'" "R (MethodCall mc) (Some s)" "list_all2 (\<lambda>s (mc, p). R (MethodCall mc) (Some s)) qs' xs'"
      using Cons.prems(2) by (auto simp: list_all2_Cons1)
    then obtain res where res: "do_parse ops s = Ok (mc_id mc, res, None, None)" "answered (do_parse ops) R (mc, p) (p, res)"
      using assms(3) by (fastforce simp: readable_def answered_def)
    obtain subs1 u1 where r: "dx_resolve ops (p, res) (dx_subscriptions d, u) = (subs1, u1)" by fastforce
    let ?d = "d\<lparr>dx_pending_requests := snd (hm_remove (mc_id mc) (dx_pending_requests d)), dx_subscriptions := subs1\<rparr>"
    note pc = pending_calls_Cons [of "next_request d" mc p "xs' @ rest"]
    have h: "handle_response ops (mc_id mc, res, None, None) (d\<lparr>dx_incoming := inc\<rparr>) u = (DuplexContinue, ?d\<lparr>dx_incoming := inc\<rparr>, u1)" for inc
      using response_completes [of "d\<lparr>dx_incoming := inc\<rparr>" "mc_id mc" p ops res u subs1 u1] sends(1) pc(2) Cons.prems(4,5) xs(1) r by simp
    have "map_of (dx_pending_requests ?d) = pending_calls (xs' @ rest)" "ids_below (next_request ?d) (xs' @ rest)"
      using pc(1,3) Cons.prems(4,5) xs(1) by (simp_all add: next_request_def)
    from Cons.IH [OF answer(2) xs(3) Cons.prems(3) this, of u1] obtain ms log pr subs u' where
      "list_all2 (\<lambda>s m. do_parse ops s = Ok m) ls ms"
      "\<And>inc. handle_incoming ops ms (?d\<lparr>dx_incoming := inc\<rparr>) u1 = (DuplexContinue, d\<lparr>dx_pending_requests := pr, dx_subscriptions := subs, dx_incoming := []\<rparr>, u')"
      "fold (dx_deliver ops) log (subs1, u1) = (subs, u')" "list_all2 (answered (do_parse ops) R) xs' (answers_in log)"
      "list_all2 (noted (do_parse ops)) ts (notes_in log)" "map_of pr = pending_calls rest" "ids_below (next_request d) rest"
      by (auto simp: next_request_def)
    then show ?thesis using h r res xs(1)
      by - (rule exI [of _ "(mc_id mc, res, None, None) # ms"], rule exI [of _ "Answer p res # log"], rule exI [of _ pr],
        rule exI [of _ subs], rule exI [of _ u'], simp)
  next
    case note_
    then obtain sid name res where a: "do_parse ops s = Ok (IdNull, res, Some name, Some sid)" "noted (do_parse ops) s ((sid, name), res)"
      using Cons.prems(3) by (auto simp: noted_def)
    obtain u1 where r: "dx_deliver ops (Note (sid, name) res) (dx_subscriptions d, u) = (dx_subscriptions d, u1)" by simp
    have "map_of (dx_pending_requests d) IdNull = None" using ids_below_null Cons.prems(4,5) by metis
    then have h: "handle_response ops (IdNull, res, Some name, Some sid) (d\<lparr>dx_incoming := inc\<rparr>) u = (DuplexContinue, d\<lparr>dx_incoming := inc\<rparr>, u1)" for inc
      using note_delivered [OF _ sends(2), of "d\<lparr>dx_incoming := inc\<rparr>"] r by simp
    have "list_all (\<lambda>t. \<exists>a. noted (do_parse ops) t a) ts'" using Cons.prems(3) note_(1) by simp
    from Cons.IH [OF note_(2) Cons.prems(2) this Cons.prems(4,5), of u1] obtain ms log pr subs u' where
      "list_all2 (\<lambda>s m. do_parse ops s = Ok m) ls ms"
      "\<And>inc. handle_incoming ops ms (d\<lparr>dx_incoming := inc\<rparr>) u1 = (DuplexContinue, d\<lparr>dx_pending_requests := pr, dx_subscriptions := subs, dx_incoming := []\<rparr>, u')"
      "fold (dx_deliver ops) log (dx_subscriptions d, u1) = (subs, u')" "list_all2 (answered (do_parse ops) R) xs (answers_in log)"
      "list_all2 (noted (do_parse ops)) ts' (notes_in log)" "map_of pr = pending_calls rest" "ids_below (next_request d) rest" by blast
    then show ?thesis using h r a note_(1)
      by - (rule exI [of _ "(IdNull, res, Some name, Some sid) # ms"], rule exI [of _ "Note (sid, name) res # log"], rule exI [of _ pr],
        rule exI [of _ subs], rule exI [of _ u'], simp del: dx_deliver.simps)
  qed
qed

section \<open>One poll\<close>

fun deliver ::
    "('n, 'c, 's, 'v, 'x) caller_ops \<Rightarrow> ('n, 'c, 's, 'x) delivery \<Rightarrow> 's active_map \<times> 'v \<Rightarrow> 's active_map \<times> 'v" where
  "deliver co (Answer p res) sv = resolve co (p, res) sv"
| "deliver co (Note key res) (subs, v) =
     (subs, case map_of subs key of None \<Rightarrow> v | Some sub \<Rightarrow> snd (co_stream_send co (sub_channel sub) res v))"

definition delivers ::
    "('n, 'c, 's, 'v, 'x) caller_ops \<Rightarrow> ('n, 'c, 's, 'x) delivery list \<Rightarrow> 's active_map \<times> 'v \<Rightarrow> 's active_map \<times> 'v" where
  "delivers co log sv = fold (deliver co) log sv"

lemma delivers_simps [simp]:
  "delivers co [] sv = sv" "delivers co (a # log) sv = delivers co log (deliver co a sv)"
  "delivers co (log @ log') sv = delivers co log' (delivers co log sv)"
  by (simp_all add: delivers_def)

lemma deliver_local:
  "dx_deliver (local_ops co ch ho) a (subs, l, w, v) = (case deliver co a (subs, v) of (subs', v') \<Rightarrow> (subs', l, w, v'))"
proof (cases a)
  case (Note key res)
  then show ?thesis by (auto simp: local_ops_def case_prod_beta split: option.splits)
qed (simp add: resolve_local)

lemma delivers_local:
  "fold (dx_deliver (local_ops co ch ho)) log (subs, l, w, v) = (case delivers co log (subs, v) of (subs', v') \<Rightarrow> (subs', l, w, v'))"
  by (induction log arbitrary: subs v) (auto simp: deliver_local split: prod.splits)

text \<open>The assumptions on everything around the client: its transport, its handler, the callers, the merged
  stream and the channel of the session. The callers and the subscribers wait for what they are sent.\<close>

definition pubsub_env ::
    "('n, 'c, 's, 'v, 'x) caller_ops \<Rightarrow> ('q, 'y) channel_ops \<Rightarrow> ('m, 'f, 'w) handler_ops \<Rightarrow> ('m, 'f, 'q, 'w) merged_next
     \<Rightarrow> ('q \<Rightarrow> string list) \<Rightarrow> 'm \<Rightarrow> ('f \<Rightarrow> nat) \<Rightarrow> 'n call set \<Rightarrow> ('n call \<Rightarrow> 'f \<Rightarrow> 'w \<Rightarrow> bool) \<Rightarrow> ('n call \<Rightarrow> string option \<Rightarrow> bool)
     \<Rightarrow> ('w \<Rightarrow> bool) \<Rightarrow> ('w \<Rightarrow> 'w \<Rightarrow> bool) \<Rightarrow> (string \<Rightarrow> bool) \<Rightarrow> ('w \<Rightarrow> string list) \<Rightarrow> ('w \<Rightarrow> string list) \<Rightarrow> bool" where
  "pubsub_env co ch ho sel held meta turns C F R I E P inbox history \<longleftrightarrow>
     live_channel ch held \<and> serves_calls (co_to_string co) ho meta turns C F R \<and> readable (co_parse co) R \<and>
     (\<forall>c res v. fst (co_oneshot_send co c res v)) \<and> (\<forall>s res v. fst (co_stream_send co s res v)) \<and>
     fair_select I E sel held inbox history \<and> transp E \<and> (\<forall>c f w w'. F c f w \<and> E w w' \<longrightarrow> F c f w') \<and> (\<forall>t. P t \<longrightarrow> (\<exists>a. noted (co_parse co) t a)) \<and>
     (\<forall>w w'. ho_step (co_to_string co) ho meta C F w w' \<longrightarrow> publishes I P inbox history w w')"

lemma pubsub_envD:
  assumes "pubsub_env co ch ho sel held meta turns C F R I E P inbox history"
  shows "live_channel ch held" "serves_calls (co_to_string co) ho meta turns C F R" "readable (co_parse co) R"
    and "fst (co_oneshot_send co c res v)" "fst (co_stream_send co s res v)" "fair_select I E sel held inbox history" "transp E"
    and "staged to_string held C F R calls l w out \<Longrightarrow> E w w' \<Longrightarrow> staged to_string held C F R calls l w' out"
    and "list_all P ts \<Longrightarrow> list_all (\<lambda>t. \<exists>a. noted (co_parse co) t a) ts"
    and "reaches (ho_step (co_to_string co) ho meta C F) w w' \<Longrightarrow> publishes I P inbox history w w'"
proof -
  have stable: "F c f w \<Longrightarrow> E w w' \<Longrightarrow> F c f w'" for c f w w' using assms by (auto simp: pubsub_env_def)
  show "staged to_string held C F R calls l w out \<Longrightarrow> E w w' \<Longrightarrow> staged to_string held C F R calls l w' out"
    by (cases "lr_buffered l") (fastforce simp: staged_def intro: stable)+
qed (use assms publishes_reaches [of "ho_step (co_to_string co) ho meta C F" I P inbox history w w'] in \<open>auto simp: pubsub_env_def list_all_iff\<close>)

lemma poll_delivers:
  assumes env: "pubsub_env co ch ho sel held meta turns C F R I E P inbox history"
    and "list_all P (inbox w)" and "unat (next_request d) + length msgs < 2 ^ 64"
    and "between_polls (co_to_string co) held C F R meta calls d l w" and "item_call ` set (request_items (next_request d) msgs) \<subseteq> C"
    and "I w"
  shows "\<exists>d' l' w' v' ok rest log.
    pubsub_client_poll co ch ho sel msgs False (d, l, w, v) = Some (DuplexContinue, d', l', w', v') \<and>
    delivers co log (dx_subscriptions d, v) = (dx_subscriptions d', v') \<and>
    calls @ open_calls (request_items (next_request d) msgs) = ok @ rest \<and>
    list_all2 (answered (co_parse co) R) ok (answers_in log) \<and> list_all2 (noted (co_parse co)) (inbox w) (notes_in log) \<and>
    between_polls (co_to_string co) held C F R meta rest d' l' w' \<and> next_request d' = next_id (next_request d) msgs \<and>
    history w' = history w @ inbox w' \<and> list_all P (inbox w') \<and> I w' \<and>
    (msgs = [] \<longrightarrow> work_left turns held d l = (0, 0, 0) \<and> work_left turns held d' l' = (0, 0, 0) \<and> inbox w' = [] \<or>
       (work_left turns held d' l', work_left turns held d l) \<in> less_work)"
proof -
  let ?ops = "local_ops co ch ho"
  let ?calls = "calls @ open_calls (request_items (next_request d) msgs)"
  define d1 where "d1 = fold (handle_message ?ops) msgs d"
  have inv: "awaiting calls d" "staged (co_to_string co) held C F R calls l w (dx_outgoing d)" "lr_meta l = meta"
    using assms(4) by (simp_all add: between_polls_def)
  then have d1: "awaiting ?calls d1" "staged (co_to_string co) held C F R ?calls l w (dx_outgoing d1)"
    "next_request d1 = next_id (next_request d) msgs" "dx_subscriptions d1 = dx_subscriptions d"
    using messages_queued [OF assms(3) inv(1), of ?ops] staged_more [OF inv(2) assms(5)]
    by (simp_all add: d1_def Let_def local_ops_def)
  obtain ls q w1 where q: "drain_stream sel (l, w) = Some (ls, False, l\<lparr>lr_queue := q\<rparr>, w1)"
    "ls \<in> shuffles (held (lr_queue l)) (inbox w)" "held q = []" "inbox w1 = []" "history w1 = history w" "E w w1" "I w1"
    using drain_select [OF pubsub_envD(6,7) [OF env]] assms(6) by blast
  have st1: "staged (co_to_string co) held C F R ?calls l w1 (dx_outgoing d1)" by (rule pubsub_envD(8) [OF env d1(2) q(6)])
  obtain xs rest where xs: "?calls = xs @ rest" "list_all2 (\<lambda>s (mc, p). R (MethodCall mc) (Some s)) (held (lr_queue l)) xs"
    "staged (co_to_string co) held C F R rest (l\<lparr>lr_queue := q\<rparr>) w1 (dx_outgoing d1)"
    using st1 q(3) unfolding staged_def by fastforce
  have sends: "fst (do_oneshot_send ?ops c res u)" "fst (do_stream_send ?ops s res u)" for c s res u
    using pubsub_envD(4,5) [OF env] by (cases u; simp add: local_ops_def case_prod_beta)+
  have parse: "do_parse ?ops = co_parse co" by (simp add: local_ops_def)
  have pend: "map_of (dx_pending_requests d1) = pending_calls (xs @ rest)" "ids_below (next_request d1) (xs @ rest)"
    using d1(1) xs(1) by (simp_all add: awaiting_def)
  from incoming_delivers [OF sends pubsub_envD(3) [OF env, folded parse] q(2) xs(2) pubsub_envD(9) [OF env assms(2), folded parse] this,
      of "(l\<lparr>lr_queue := q\<rparr>, w1, v)"]
  obtain ms log p subs u2 where m: "list_all2 (\<lambda>s m. do_parse ?ops s = Ok m) ls ms"
    "\<And>inc. handle_incoming ?ops ms (d1\<lparr>dx_incoming := inc\<rparr>) (l\<lparr>lr_queue := q\<rparr>, w1, v) =
      (DuplexContinue, d1\<lparr>dx_pending_requests := p, dx_subscriptions := subs, dx_incoming := []\<rparr>, u2)"
    "fold (dx_deliver ?ops) log (dx_subscriptions d, l\<lparr>lr_queue := q\<rparr>, w1, v) = (subs, u2)"
    "list_all2 (answered (co_parse co) R) xs (answers_in log)" "list_all2 (noted (co_parse co)) (inbox w) (notes_in log)"
    "map_of p = pending_calls rest" "ids_below (next_request d1) rest"
    unfolding parse d1(4) by blast
  obtain v2 where c: "delivers co log (dx_subscriptions d, v) = (subs, v2)" and u2: "u2 = (l\<lparr>lr_queue := q\<rparr>, w1, v2)"
    using m(3) by (auto simp: delivers_local split: prod.splits)
  let ?d2 = "d1\<lparr>dx_pending_requests := p, dx_subscriptions := subs, dx_incoming := []\<rparr>"
  have d2: "awaiting rest ?d2" using m(6,7) d1(1) by (simp add: awaiting_def next_request_def)
  have "handle_incoming ?ops ms (d1\<lparr>dx_incoming := ms\<rparr>) (l\<lparr>lr_queue := q\<rparr>, w1, v) = (DuplexContinue, ?d2, l\<lparr>lr_queue := q\<rparr>, w1, v2)"
    using m(2) u2 by simp
  then obtain out l' w' where s:
    "duplex_poll ?ops \<lparr>pe_messages = msgs, pe_channel_closed = False, pe_lines = ls, pe_stream_closed = False\<rparr> d (l\<lparr>lr_queue := q\<rparr>, w1, v) =
      (DuplexContinue, ?d2\<lparr>dx_outgoing := out\<rparr>, l', w', v2)"
    "between_polls (co_to_string co) held C F R meta rest (?d2\<lparr>dx_outgoing := out\<rparr>) l' w'"
    "reaches (ho_step (co_to_string co) ho meta C F) w1 w'"
    and less: "(length out, buffer_turns turns l') = (0, 0) \<and> (length (dx_outgoing d1), buffer_turns turns l) = (0, 0) \<and> held (lr_queue l') = [] \<and> w' = w1 \<or>
     ((length out, buffer_turns turns l'), (length (dx_outgoing d1), buffer_turns turns l)) \<in> less_than <*lex*> less_than"
    using poll_sends [OF pubsub_envD(1-3) [OF env], of d msgs ls ms "l\<lparr>lr_queue := q\<rparr>" w1 v ?d2 v2 rest] inv(1,3) d1(1) m(1) d2 xs(3) q(3)
    by (auto simp: awaiting_def d1_def)
  let ?d3 = "?d2\<lparr>dx_outgoing := out\<rparr>"
  have "pubsub_client_poll co ch ho sel msgs False (d, l, w, v) = Some (DuplexContinue, ?d3, l', w', v2)"
    using q(1) s(1) by (simp add: pubsub_client_poll_def)
  moreover have "history w' = history w @ inbox w' \<and> list_all P (inbox w') \<and> I w'"
    using pubsub_envD(10) [OF env s(3)] q(4,5,7) by (auto simp: publishes_def)
  moreover have "msgs = [] \<longrightarrow> work_left turns held d l = (0, 0, 0) \<and> work_left turns held ?d3 l' = (0, 0, 0) \<and> inbox w' = [] \<or>
      (work_left turns held ?d3 l', work_left turns held d l) \<in> less_work"
    using less q(4) by (auto simp: work_left_def d1_def)
  ultimately show ?thesis using xs(1) m(4,5) d1(3) c s(2)
    by - (rule exI [of _ ?d3], rule exI [of _ l'], rule exI [of _ w'], rule exI [of _ v2], rule exI [of _ xs], rule exI [of _ rest],
      rule exI [of _ log], simp add: next_request_def)
qed

section \<open>Everything arrives\<close>

lemma next_id_append: "next_id k (ms @ ms') = next_id (next_id k ms) ms'"
  by (simp add: next_id_def)

lemma no_work_nothing_open:
  assumes "between_polls to_string held C F R meta calls d l w" and "work_left turns held d l = (0, 0, 0)"
  shows "calls = []" and "dx_pending_requests d = []"
proof -
  show "calls = []" by (rule no_work_left [OF assms])
  then have "map_of (dx_pending_requests d) = Map.empty"
    using assms(1) by (simp add: between_polls_def awaiting_def pending_calls_def)
  then show "dx_pending_requests d = []" by (simp only: map_of_eq_empty_iff)
qed

lemma idle_polls_deliver:
  assumes env: "pubsub_env co ch ho sel held meta turns C F R I E P inbox history"
    and "list_all P (inbox w)" and "between_polls (co_to_string co) held C F R meta calls d l w" and "I w"
  shows "\<exists>n d' l' w' v' log sent. pubsub_session co ch ho sel (replicate n ([], \<lambda>w. w)) (d, l, w, v) = Some (d', l', w', v') \<and>
    delivers co log (dx_subscriptions d, v) = (dx_subscriptions d', v') \<and>
    list_all2 (answered (co_parse co) R) calls (answers_in log) \<and> dx_pending_requests d' = [] \<and>
    between_polls (co_to_string co) held C F R meta [] d' l' w' \<and> next_request d' = next_request d \<and>
    history w' = history w @ sent \<and> inbox w' = [] \<and> I w' \<and> list_all P sent \<and> list_all2 (noted (co_parse co)) (inbox w @ sent) (notes_in log)"
proof -
  have "wf less_work" by (intro wf_lex_prod wf_less_than)
  then show ?thesis using assms(2-4)
  proof (induction "work_left turns held d l" arbitrary: d l w v calls rule: wf_induct_rule)
    case less
    have bound: "unat (next_request d) + length [] < 2 ^ 64" using unsigned_less [of "next_request d", where ?'a = nat] by simp
    from poll_delivers [OF env less(2) bound less(3) _ less(4), of v] obtain d1 l1 w1 v1 ok rest log where p:
      "pubsub_client_poll co ch ho sel [] False (d, l, w, v) = Some (DuplexContinue, d1, l1, w1, v1)"
      "delivers co log (dx_subscriptions d, v) = (dx_subscriptions d1, v1)" "calls = ok @ rest"
      "list_all2 (answered (co_parse co) R) ok (answers_in log)" "list_all2 (noted (co_parse co)) (inbox w) (notes_in log)"
      "between_polls (co_to_string co) held C F R meta rest d1 l1 w1" "history w1 = history w @ inbox w1" "list_all P (inbox w1)"
      "next_request d1 = next_request d" "I w1"
      and work: "work_left turns held d1 l1 = (0, 0, 0) \<and> inbox w1 = [] \<or> (work_left turns held d1 l1, work_left turns held d l) \<in> less_work"
      by (auto simp del: in_lex_prod)
    from work show ?case
    proof
      assume none: "work_left turns held d1 l1 = (0, 0, 0) \<and> inbox w1 = []"
      then have "rest = []" "dx_pending_requests d1 = []" using no_work_nothing_open [OF p(6)] by blast+
      then show ?thesis using p none
        by - (rule exI [of _ 1], rule exI [of _ d1], rule exI [of _ l1], rule exI [of _ w1], rule exI [of _ v1], rule exI [of _ log],
          rule exI [of _ "[]"], simp)
    next
      assume "(work_left turns held d1 l1, work_left turns held d l) \<in> less_work"
      from less(1) [OF this p(8,6,10), of v1] obtain n d' l' w' v' log' sent where r:
        "pubsub_session co ch ho sel (replicate n ([], \<lambda>w. w)) (d1, l1, w1, v1) = Some (d', l', w', v')"
        "delivers co log' (dx_subscriptions d1, v1) = (dx_subscriptions d', v')"
        "list_all2 (answered (co_parse co) R) rest (answers_in log')" "dx_pending_requests d' = []"
        "history w' = history w1 @ sent" "inbox w' = []" "list_all P sent" "list_all2 (noted (co_parse co)) (inbox w1 @ sent) (notes_in log')"
        "between_polls (co_to_string co) held C F R meta [] d' l' w'" "next_request d' = next_request d1" "I w'" by blast
      then show ?thesis using p
        by - (rule exI [of _ "Suc n"], rule exI [of _ d'], rule exI [of _ l'], rule exI [of _ w'], rule exI [of _ v'],
          rule exI [of _ "log @ log'"], rule exI [of _ "inbox w1 @ sent"], simp add: list_all2_appendI)
    qed
  qed
qed

lemma pubsub_session_serves:
  assumes env: "pubsub_env co ch ho sel held meta turns C F R I E P inbox history"
    and "rounds_publish I E P inbox history rounds"
    and "list_all P (inbox w)" and "unat (next_request d) + length (concat (map fst rounds)) < 2 ^ 64"
    and "between_polls (co_to_string co) held C F R meta calls d l w"
    and "item_call ` set (request_items (next_request d) (concat (map fst rounds))) \<subseteq> C" and "I w"
  shows "\<exists>n d' l' w' v' log sent. pubsub_session co ch ho sel (rounds @ replicate n ([], \<lambda>w. w)) (d, l, w, v) = Some (d', l', w', v') \<and>
    delivers co log (dx_subscriptions d, v) = (dx_subscriptions d', v') \<and>
    list_all2 (answered (co_parse co) R) (calls @ open_calls (request_items (next_request d) (concat (map fst rounds)))) (answers_in log) \<and>
    dx_pending_requests d' = [] \<and>
    between_polls (co_to_string co) held C F R meta [] d' l' w' \<and> next_request d' = next_id (next_request d) (concat (map fst rounds)) \<and>
    history w' = history w @ sent \<and> inbox w' = [] \<and> I w' \<and> list_all P sent \<and> list_all2 (noted (co_parse co)) (inbox w @ sent) (notes_in log)"
  using assms(2-7)
proof (induction rounds arbitrary: d l w v calls)
  case Nil
  then show ?case using idle_polls_deliver [OF env Nil(2,4,6), of v] by simp
next
  case (Cons round rounds)
  obtain msgs g where round: "round = (msgs, g)" by fastforce
  let ?mss = "concat (map fst rounds)"
  have bound: "unat (next_request d) + length msgs < 2 ^ 64" using Cons.prems(3) round by simp
  have items: "item_call ` set (request_items (next_request d) msgs) \<subseteq> C"
    using Cons.prems(5) round by (auto simp: request_items_append)
  obtain ts where g: "history (g w) = history w @ ts" "inbox (g w) = inbox w @ ts" "list_all P ts" "I (g w)"
    using Cons.prems(1,6) round by (fastforce simp: rounds_publish_def publishes_def)
  then have sent: "list_all P (inbox (g w))" using Cons.prems(2) by simp
  have later: "rounds_publish I E P inbox history rounds" and "E w (g w)" using Cons.prems(1) round by (simp_all add: rounds_publish_def)
  from this(2) have "between_polls (co_to_string co) held C F R meta calls d l (g w)"
    using Cons.prems(4) by (auto simp: between_polls_def intro: pubsub_envD(8) [OF env])
  from poll_delivers [OF env sent bound this items g(4), of v] obtain d1 l1 w1 v1 ok rest log where p:
    "pubsub_client_poll co ch ho sel msgs False (d, l, g w, v) = Some (DuplexContinue, d1, l1, w1, v1)"
    "delivers co log (dx_subscriptions d, v) = (dx_subscriptions d1, v1)"
    "calls @ open_calls (request_items (next_request d) msgs) = ok @ rest"
    "list_all2 (answered (co_parse co) R) ok (answers_in log)" "list_all2 (noted (co_parse co)) (inbox (g w)) (notes_in log)"
    "between_polls (co_to_string co) held C F R meta rest d1 l1 w1" "next_request d1 = next_id (next_request d) msgs"
    "history w1 = history (g w) @ inbox w1" "list_all P (inbox w1)" "I w1" by blast
  have "unat (next_request d1) + length ?mss < 2 ^ 64"
    using p(7) next_id_bound [OF bound] Cons.prems(3) round by simp
  moreover have "item_call ` set (request_items (next_request d1) ?mss) \<subseteq> C"
    using Cons.prems(5) p(7) round by (auto simp: request_items_append)
  ultimately obtain n d' l' w' v' log' sent where r:
    "pubsub_session co ch ho sel (rounds @ replicate n ([], \<lambda>w. w)) (d1, l1, w1, v1) = Some (d', l', w', v')"
    "delivers co log' (dx_subscriptions d1, v1) = (dx_subscriptions d', v')"
    "list_all2 (answered (co_parse co) R) (rest @ open_calls (request_items (next_request d1) ?mss)) (answers_in log')"
    "dx_pending_requests d' = []" "history w' = history w1 @ sent" "inbox w' = []" "list_all P sent"
    "list_all2 (noted (co_parse co)) (inbox w1 @ sent) (notes_in log')"
    "between_polls (co_to_string co) held C F R meta [] d' l' w'" "next_request d' = next_id (next_request d1) ?mss" "I w'"
    using Cons.IH [OF later p(9) _ p(6) _ p(10), of v1] by blast
  have "calls @ open_calls (request_items (next_request d) (concat (map fst (round # rounds)))) =
      ok @ rest @ open_calls (request_items (next_request d1) ?mss)"
    by (simp add: round request_items_append p(7) flip: append_assoc) (simp add: p(3))
  then have "list_all2 (answered (co_parse co) R) (calls @ open_calls (request_items (next_request d) (concat (map fst (round # rounds)))))
      (answers_in (log @ log'))"
    using p(4) r(3) by (simp add: list_all2_appendI)
  moreover have "list_all2 (noted (co_parse co)) (inbox w @ ts @ inbox w1 @ sent) (notes_in (log @ log'))"
    using p(5) r(8) g(2) list_all2_appendI by fastforce
  ultimately show ?case using p(1,2,7-9) r(1,2,4-7,9-11) g(1,3) round
    by - (rule exI [of _ n], rule exI [of _ d'], rule exI [of _ l'], rule exI [of _ w'], rule exI [of _ v'],
      rule exI [of _ "log @ log'"], rule exI [of _ "ts @ inbox w1 @ sent"], simp add: next_id_append)
qed

text \<open>A longer session in phases: in each of them the client's handle and the server do what they do, and the
  task is polled until nothing is left; then the next phase begins. \<open>A\<close> relates the requests of a phase
  with what answered them, and \<open>N\<close> what was sent to the session with the notifications that were taken.\<close>

fun phases_served where
  "phases_served co ch ho sel inbox history A N [] s = True"
| "phases_served co ch ho sel inbox history A N (rounds # phases) (d, l, w, v) =
     (\<exists>n d' l' w' v' log sent. pubsub_session co ch ho sel (rounds @ replicate n ([], \<lambda>w. w)) (d, l, w, v) = Some (d', l', w', v') \<and>
        delivers co log (dx_subscriptions d, v) = (dx_subscriptions d', v') \<and>
        A (open_calls (request_items (next_request d) (concat (map fst rounds)))) (answers_in log) \<and> N sent (notes_in log) \<and>
        dx_pending_requests d' = [] \<and> history w' = history w @ sent \<and> inbox w' = [] \<and>
        phases_served co ch ho sel inbox history A N phases (d', l', w', v'))"

lemma phases_served_mono:
  assumes "\<And>calls as. A calls as \<Longrightarrow> A' calls as" and "\<And>ts ns. N ts ns \<Longrightarrow> N' ts ns"
    and "phases_served co ch ho sel inbox history A N phases s"
  shows "phases_served co ch ho sel inbox history A' N' phases s"
  using assms(3)
proof (induction phases arbitrary: s)
  case (Cons rounds phases)
  obtain d l w v where s: "s = (d, l, w, v)" by (metis prod_cases4)
  show ?case using Cons.prems unfolding s phases_served.simps by (blast intro: assms(1,2) Cons.IH)
qed simp

lemma phases_are_served:
  assumes env: "pubsub_env co ch ho sel held meta turns C F R I E P inbox history"
    and "list_all (rounds_publish I E P inbox history) phases"
    and "inbox w = []" and "unat (next_request d) + length (concat (map fst (concat phases))) < 2 ^ 64"
    and "between_polls (co_to_string co) held C F R meta [] d l w"
    and "item_call ` set (request_items (next_request d) (concat (map fst (concat phases)))) \<subseteq> C" and "I w"
  shows "phases_served co ch ho sel inbox history (list_all2 (answered (co_parse co) R))
    (\<lambda>ts ns. list_all P ts \<and> list_all2 (noted (co_parse co)) ts ns) phases (d, l, w, v)"
  using assms(2-7)
proof (induction phases arbitrary: d l w v)
  case (Cons rounds phases)
  let ?msgs = "concat (map fst rounds)" and ?later = "concat (map fst (concat phases))"
  have bound: "unat (next_request d) + length ?msgs < 2 ^ 64" using Cons.prems(3) by simp
  have items: "item_call ` set (request_items (next_request d) ?msgs) \<subseteq> C"
    using Cons.prems(5) by (auto simp: request_items_append)
  have "rounds_publish I E P inbox history rounds" and later: "list_all (rounds_publish I E P inbox history) phases"
    using Cons.prems(1) by simp_all
  moreover have "list_all P (inbox w)" using Cons.prems(2) by simp
  ultimately obtain n d' l' w' v' log sent where s:
    "pubsub_session co ch ho sel (rounds @ replicate n ([], \<lambda>w. w)) (d, l, w, v) = Some (d', l', w', v')"
    "delivers co log (dx_subscriptions d, v) = (dx_subscriptions d', v')"
    "list_all2 (answered (co_parse co) R) (open_calls (request_items (next_request d) ?msgs)) (answers_in log)"
    "dx_pending_requests d' = []" "between_polls (co_to_string co) held C F R meta [] d' l' w'"
    "next_request d' = next_id (next_request d) ?msgs" "history w' = history w @ sent" "inbox w' = []"
    "list_all P sent" "list_all2 (noted (co_parse co)) sent (notes_in log)" "I w'"
    using pubsub_session_serves [OF env _ _ bound Cons.prems(4) items Cons.prems(6), of v] unfolding Cons.prems(2) append_Nil by blast
  have "unat (next_request d') + length ?later < 2 ^ 64"
    using s(6) next_id_bound [OF bound] Cons.prems(3) by simp
  moreover have "item_call ` set (request_items (next_request d') ?later) \<subseteq> C"
    using Cons.prems(5) s(6) by (auto simp: request_items_append)
  ultimately show ?case
    using s Cons.IH [OF later s(8) _ s(5) _ s(11), of v'] unfolding phases_served.simps by blast
qed simp

end
