(* ===== verification/Client_Ipc.thy ===== *)
theory Client_Ipc
  imports Client_Calls Client_Ws Ipc_Session
begin

text \<open>
  The IPC client (\<open>core-client/transports/src/transports/ipc.rs\<close>): the client task of theory \<open>Duplex\<close> over
  a connection whose bytes are framed by the stream codec; and a client and the server of theory
  \<open>Ipc_Session\<close> together: the requests of the client go through the server, and the responses, in
  the order in which the server completes them, through the client to the callers.

  Connecting to the endpoint is an argument; so are the bytes on the wire, which arrive in any chunks.
\<close>

section \<open>Connecting\<close>

definition ipc_client_codec :: stream_codec where
  "ipc_client_codec = stream_incoming"

text \<open>The task is spawned with the connection; the client handle sends to the task.\<close>

definition ipc_client_connect ::
    "(string \<Rightarrow> 'u \<Rightarrow> ('k, 'x) result \<times> 'u) \<Rightarrow> (('n, 'c, 's, 'x) duplex \<times> 'k \<Rightarrow> 'u \<Rightarrow> 'u) \<Rightarrow> 'h \<Rightarrow> string \<Rightarrow> 'u
     \<Rightarrow> ('h, 'n, 'x) client_result \<times> 'u" where
  "ipc_client_connect endpoint_connect spawn handle path u =
     (case endpoint_connect path u of
        (Err e, u1) \<Rightarrow> (Err (OtherError e), u1)
      | (Ok connection, u1) \<Rightarrow> (Ok handle, spawn (duplex_new, connection) u1))"

text \<open>What the sink writes, and what the stream gives for the bytes that arrive.\<close>

definition ipc_client_write :: "string list \<Rightarrow> string" where
  "ipc_client_write out = concat (map (\<lambda>m. encode ipc_client_codec m []) out)"

definition ipc_client_read :: "string list \<Rightarrow> string list" where
  "ipc_client_read chunks = read_chunks (next_message (incoming_separator ipc_client_codec)) [] chunks"

text \<open>The stream and the incoming queue over successive polls, with the lines that each of them reads.\<close>

fun client_reads ::
    "('n, 'c, 's, 'u, 'x) duplex_ops \<Rightarrow> string list list \<Rightarrow> ('n, 'c, 's, 'x) duplex \<Rightarrow> 'u
     \<Rightarrow> ('n, 'x) duplex_outcome \<times> ('n, 'c, 's, 'x) duplex \<times> 'u" where
  "client_reads ops [] d u = (DuplexContinue, d, u)"
| "client_reads ops (ls # lss) d u =
     (case handle_stream ops ls False d of
        (DuplexContinue, d1) \<Rightarrow>
          (case handle_incoming ops (dx_incoming d1) d1 u of
             (DuplexContinue, d2, u2) \<Rightarrow> client_reads ops lss d2 u2
           | (r, d2, u2) \<Rightarrow> (r, d2, u2))
      | (r, d1) \<Rightarrow> (r, d1, u))"

section \<open>Reading the answers\<close>

lemma client_reads_complete:
  assumes "\<And>c res u. fst (do_oneshot_send ops c res u)" and "readable (do_parse ops) R"
    and "list_all2 (\<lambda>s (mc, c). R (MethodCall mc) (Some s)) (concat lss) xs"
    and "dx_incoming d = []" and "map_of (dx_pending_requests d) = pending_calls (xs @ rest)" and "ids_below (next_request d) (xs @ rest)"
  shows "\<exists>d' u' log. client_reads ops lss d u = (DuplexContinue, d', u') \<and>
    dx_completes ops log (dx_subscriptions d, u) = (dx_subscriptions d', u') \<and>
    list_all2 (answered (do_parse ops) R) xs log \<and> map_of (dx_pending_requests d') = pending_calls rest"
  using assms(3-6)
proof (induction lss arbitrary: d u xs)
  case Nil
  then show ?case by (intro exI [of _ d] exI [of _ u] exI [of _ "[]"]) simp
next
  case (Cons ls lss)
  from Cons.prems(1) obtain ys zs where xs: "xs = ys @ zs" "list_all2 (\<lambda>s (mc, c). R (MethodCall mc) (Some s)) ls ys"
    "list_all2 (\<lambda>s (mc, c). R (MethodCall mc) (Some s)) (concat lss) zs"
    by (auto simp: list_all2_append1)
  obtain log where log: "list_all2 (answered (do_parse ops) R) ys log"
    "list_all2 (\<lambda>s m. do_parse ops s = Ok m) ls (map2 (\<lambda>(mc, c) (c', res). (mc_id mc, res, None, None)) ys log)"
    using queue_read [OF assms(2) xs(2)] by blast
  let ?ms = "map2 (\<lambda>(mc, c) (c', res). (mc_id mc, res, None, None)) ys log"
  let ?d1 = "d\<lparr>dx_incoming := ?ms\<rparr>"
  have s: "handle_stream ops ls False d = (DuplexContinue, ?d1)" using stream_read [OF log(2), of d] Cons.prems(2) by simp
  have "map_of (dx_pending_requests ?d1) = pending_calls (ys @ zs @ rest)" "ids_below (next_request ?d1) (ys @ zs @ rest)"
    using Cons.prems(3,4) xs(1) by (simp_all add: next_request_def)
  moreover obtain subs u1 where c: "dx_completes ops log (dx_subscriptions d, u) = (subs, u1)" by fastforce
  ultimately obtain p where p:
    "handle_incoming ops ?ms ?d1 u = (DuplexContinue, d\<lparr>dx_pending_requests := p, dx_subscriptions := subs, dx_incoming := []\<rparr>, u1)"
    "map_of p = pending_calls (zs @ rest)" "ids_below (next_request d) (zs @ rest)"
    using incoming_completes [OF assms(1) log(1), of ?d1 "zs @ rest" u] by (auto simp: next_request_def)
  let ?d2 = "d\<lparr>dx_pending_requests := p, dx_subscriptions := subs, dx_incoming := []\<rparr>"
  obtain d' u' log' where "client_reads ops lss ?d2 u1 = (DuplexContinue, d', u')"
    "dx_completes ops log' (subs, u1) = (dx_subscriptions d', u')"
    "list_all2 (answered (do_parse ops) R) zs log'" "map_of (dx_pending_requests d') = pending_calls rest"
    using Cons.IH [OF xs(3), of ?d2 u1] p(2,3) by (auto simp: next_request_def)
  then show ?case using s p(1) xs(1) log(1) c
    by (intro exI [of _ d'] exI [of _ u'] exI [of _ "log @ log'"]) (simp add: list_all2_appendI)
qed

lemma pending_calls_keys: "map fst (map (\<lambda>(mc, p). (mc_id mc, p)) calls) = map (\<lambda>(mc, c). mc_id mc) calls"
  by (simp add: comp_def case_prod_unfold)

lemma pending_calls_perm:
  assumes "ids_below k calls" and "mset calls' = mset calls"
  shows "pending_calls calls' = pending_calls calls" and "ids_below k calls'"
proof -
  have "mset (map (\<lambda>(mc, c). mc_id mc) calls') = mset (map (\<lambda>(mc, c). mc_id mc) calls)" using assms(2) by simp
  then have "distinct (map (\<lambda>(mc, c). mc_id mc) calls')" using assms(1) mset_eq_imp_distinct_iff by (metis ids_below_def)
  moreover have eq: "set calls' = set calls" using assms(2) by (rule mset_eq_setD)
  ultimately show ids: "ids_below k calls'" using assms(1) by (simp add: ids_below_def)
  show "pending_calls calls' = pending_calls calls"
    unfolding pending_calls_def
    by (intro iffD2 [OF map_of_inject_set], unfold pending_calls_keys) (use ids assms(1) eq in \<open>simp_all add: ids_below_def\<close>)
qed

text \<open>Values that give the same texts as others up to order can be put in that order.\<close>

lemma mset_map_order: "mset xs = mset (map f zs) \<Longrightarrow> \<exists>zs'. mset zs' = mset zs \<and> xs = map f zs'"
proof (induction xs arbitrary: zs)
  case (Cons x xs)
  then have "x \<in> set (map f zs)" by (metis list.set_intros(1) mset_eq_setD)
  then obtain z where z: "z \<in> set zs" "f z = x" by auto
  then have eq: "mset zs = add_mset z (mset (remove1 z zs))" by simp
  have "add_mset x (mset xs) = image_mset f (mset zs)" using Cons.prems by simp
  also have "\<dots> = add_mset x (mset (map f (remove1 z zs)))" by (simp only: eq image_mset_add_mset z(2) mset_map)
  finally have "mset xs = mset (map f (remove1 z zs))" by simp
  from Cons.IH [OF this] obtain zs' where "mset zs' = mset (remove1 z zs)" "xs = map f zs'" by blast
  then show ?case using z by (intro exI [of _ "z # zs'"]) simp
qed simp

section \<open>Through the server and back\<close>

text \<open>A request that is a single call gets the reply of the handler to that call.\<close>

definition single_reply ::
    "(string \<Rightarrow> ('n request, 'e) result) \<Rightarrow> ('n response \<Rightarrow> string) \<Rightarrow> ('n, 'm, 'w) meta_io_handler \<Rightarrow> 'm \<Rightarrow> string \<Rightarrow> string option \<Rightarrow> bool" where
  "single_reply server_read reply h meta req t \<longleftrightarrow>
     (\<forall>c. server_read req = Ok (SingleRequest c) \<longrightarrow> handler_reply any_time reply h meta c t)"

lemma ipc_serve_replies:
  assumes "middleware (ib_handler b) = Noop" and "procs_resolve (ib_handler b)"
    and "\<And>req r. server_read req = Ok r \<Longrightarrow> sched_covers (sched req) r"
  shows "serves (ipc_serve server_read reply sched b meta) (single_reply server_read reply (ib_handler b) meta)"
proof -
  have "surely (fst (handle_request server_read reply (sched req) (ib_handler b) req meta w))
      (single_reply server_read reply (ib_handler b) meta req)" for req w
  proof (cases "\<exists>c. server_read req = Ok (SingleRequest c)")
    case True
    then obtain c where c: "server_read req = Ok (SingleRequest c)" by blast
    have "surely (fst (handle_request server_read reply (sched req) (ib_handler b) req meta w)) (handler_reply any_time reply (ib_handler b) meta c)"
      by (rule handler_reply_future) (use assms c in simp_all)
    then show ?thesis by (rule surely_mono) (simp add: single_reply_def c)
  next
    case False
    have "surely (fst (handle_request server_read reply (sched req) (ib_handler b) req meta w))
        (text_answer server_read reply (compatibility (ib_handler b)) req)"
      by (rule handle_request_future [OF assms(1,2)]) (rule assms(3))
    then show ?thesis by (rule surely_mono) (use False in \<open>simp add: single_reply_def\<close>)
  qed
  then show ?thesis by (simp add: serves_def ipc_serve_def ipc_service_call_def ipc_service_new_def)
qed

text \<open>The replies that there are belong to the calls, in their order.\<close>

lemma replies_of_calls:
  assumes "list_all2 (\<lambda>z t. handler_reply any_time reply h meta (item_call z) t) zs ts"
  shows "list_all2 (\<lambda>s (mc, c). handler_reply any_time reply h meta (MethodCall mc) (Some s)) (List.map_filter (\<lambda>t. t) ts) (open_calls zs)"
  using assms
proof (induction rule: list_all2_induct)
  case (Cons z zs t ts)
  then show ?case by (cases z) (auto simp: map_filter_simps)
qed (simp add: map_filter_simps)

text \<open>What the separator leaves before a message.\<close>

definition padding :: "separator \<Rightarrow> string \<Rightarrow> bool" where
  "padding sep ws \<longleftrightarrow> ws = [] \<or> (\<exists>c. sep = SepByte c \<and> ws = [c])"

lemma enveloped_padding: "list_all2 (\<lambda>s m. \<exists>ws. s = ws @ m \<and> padding sep ws) (enveloped sep ms) ms"
  by (cases "(sep, ms)" rule: enveloped.cases)
    (auto simp: padding_def list_all2_map1 list.rel_map intro!: list_all2_refl)

definition padded_reply where
  "padded_reply sep reply h meta C c t \<longleftrightarrow>
     c \<in> C \<and> (\<forall>n. c \<noteq> Notification n) \<and> (\<exists>ws s. t = Some (ws @ s) \<and> padding sep ws \<and> handler_reply any_time reply h meta c (Some s))"

text \<open>A connection of the server that has done its work: its responses are the replies to the calls of
  some order of the requests.\<close>

lemma ipc_responses:
  assumes "serves serve (single_reply server_read reply h meta)" and "0 < n"
    and "list_all (\<lambda>m. json_group m \<and> utf8_valid m) (map text items)" and "blank_separator sep"
    and "\<And>z ws. z \<in> set items \<Longrightarrow> padding sep ws \<Longrightarrow> server_read (ws @ text z) = Ok (SingleRequest (item_call z))"
    and "concat received = concat (map (\<lambda>m. encode (codec_new i sep) m []) (map text items))"
    and "reaches (ipc_step serve n) (ipc_pipe_start (read_chunks (next_message SepEmpty) [] received) w) p" and "pipe_finished p"
  shows "\<exists>zs. mset zs = mset items \<and>
    list_all2 (\<lambda>s (mc, c). handler_reply any_time reply h meta (MethodCall mc) (Some s)) (pp_responses p) (open_calls zs)"
proof -
  let ?A = "single_reply server_read reply h meta" and ?texts = "enveloped sep (map text items)"
  have "pipe_ok serve ?A n ?texts p"
    using ipc_safe.inv_reaches [OF start_ok [OF assms(2,1)] assms(7)] enveloped_stream [OF assms(3,4,6)] by simp
  then obtain completed ts where c: "mset completed = mset ?texts" "list_all2 ?A completed ts" "pp_responses p = List.map_filter (\<lambda>t. t) ts"
    using assms(8) by (auto simp: pipe_ok_def pipe_inv_def accounted_def pipe_finished_def)
  have "mset completed = mset (map fst (zip ?texts items))" using c(1) by (simp add: length_enveloped)
  from mset_map_order [OF this] obtain zs where zs: "mset zs = mset (zip ?texts items)" "completed = map fst zs" by blast
  have read: "server_read t = Ok (SingleRequest (item_call z))" if "(t, z) \<in> set zs" for t z
  proof -
    have "(t, z) \<in> set (zip ?texts items)" using that mset_eq_setD [OF zs(1)] by simp
    then obtain k where k: "k < length items" "t = ?texts ! k" "z = items ! k"
      by (auto simp: set_zip length_enveloped)
    then obtain ws where "t = ws @ text z" "padding sep ws"
      using enveloped_padding [of sep "map text items"] by (auto simp: list_all2_conv_all_nth)
    then show ?thesis using assms(5) k by simp
  qed
  have "handler_reply any_time reply h meta (item_call (snd (zs ! k))) (ts ! k)" if "k < length zs" for k
    using c(2) read [of "fst (zs ! k)" "snd (zs ! k)"] that nth_mem [OF that]
    by (simp add: zs(2) list_all2_conv_all_nth single_reply_def)
  then have "list_all2 (\<lambda>z t. handler_reply any_time reply h meta (item_call z) t) (map snd zs) ts"
    using c(2) by (simp add: zs(2) list_all2_conv_all_nth)
  from replies_of_calls [OF this] show ?thesis
    using arg_cong [OF zs(1), of "image_mset snd"] c(3) by (intro exI [of _ "map snd zs"]) (simp add: length_enveloped flip: mset_map)
qed

lemma reply_lines:
  assumes "list_all2 (\<lambda>s (mc, c). handler_reply any_time reply h meta (MethodCall mc) (Some s)) resps calls"
    and "\<And>mc c. (mc, c) \<in> set calls \<Longrightarrow> MethodCall mc \<in> C"
    and "\<And>mc s. MethodCall mc \<in> C \<Longrightarrow> handler_reply any_time reply h meta (MethodCall mc) (Some s) \<Longrightarrow> json_group s \<and> utf8_valid s"
    and "blank_separator out" and "concat returned = concat (map (\<lambda>m. encode (codec_new j out) m []) resps)"
  shows "list_all2 (\<lambda>s (mc, c). padded_reply out reply h meta C (MethodCall mc) (Some s)) (read_chunks (next_message SepEmpty) [] returned) calls"
proof -
  have pt: "MethodCall (fst (calls ! k)) \<in> C \<and> handler_reply any_time reply h meta (MethodCall (fst (calls ! k))) (Some (resps ! k))"
    if "k < length resps" for k
    using assms(1) assms(2) [of "fst (calls ! k)" "snd (calls ! k)"] that
    by (auto simp: list_all2_conv_all_nth case_prod_beta)
  then have "list_all (\<lambda>m. json_group m \<and> utf8_valid m) resps" using assms(3) unfolding list_all_length by blast
  then have lines: "read_chunks (next_message SepEmpty) [] returned = enveloped out resps"
    using assms(4,5) by (rule enveloped_stream)
  have "padded_reply out reply h meta C (MethodCall (fst (calls ! k))) (Some (enveloped out resps ! k))" if "k < length resps" for k
    using pt [OF that] enveloped_padding [of out resps] that
    by (fastforce simp: padded_reply_def list_all2_conv_all_nth length_enveloped)
  then show ?thesis
    using list_all2_lengthD [OF assms(1)] unfolding lines by (simp add: list_all2_conv_all_nth length_enveloped case_prod_beta)
qed

text \<open>From the messages of the client handle to the completed one-shots.\<close>

lemma ipc_round_trip:
  fixes ops :: "('n, 'c, 's, 'u, 'x) duplex_ops"
  defines "text z \<equiv> do_to_string ops (SingleRequest (item_call z))"
  assumes "serves serve (single_reply server_read reply h meta)" and "0 < n"
    and "length msgs < 2 ^ 64"
    and items: "items = request_items 0 msgs" and d: "d = fold (handle_message ops) msgs duplex_new"
    and "list_all (\<lambda>m. json_group m \<and> utf8_valid m) (map text items)" and "blank_separator out"
    and "\<And>z ws. z \<in> set items \<Longrightarrow> padding default_separator ws \<Longrightarrow> server_read (ws @ text z) = Ok (SingleRequest (item_call z))"
    and "\<And>mc s. MethodCall mc \<in> item_call ` set items \<Longrightarrow> handler_reply any_time reply h meta (MethodCall mc) (Some s) \<Longrightarrow> json_group s \<and> utf8_valid s"
    and "readable (do_parse ops) (padded_reply out reply h meta (item_call ` set items))"
    and "\<And>c res u. fst (do_oneshot_send ops c res u)"
    and "concat received = ipc_client_write (dx_outgoing d)"
    and "reaches (ipc_step serve n) (ipc_pipe_start (read_chunks (next_message SepEmpty) [] received) w) p" and "pipe_finished p"
    and "concat returned = concat (map (\<lambda>m. encode (codec_new j out) m []) (pp_responses p))"
    and "concat lss = ipc_client_read returned"
  shows "\<exists>d' u' log calls. client_reads ops lss d u = (DuplexContinue, d', u') \<and>
    dx_completes ops log ([], u) = (dx_subscriptions d', u') \<and>
    dx_pending_requests d' = [] \<and> mset calls = mset (open_calls items) \<and>
    list_all2 (answered (do_parse ops) (padded_reply out reply h meta (item_call ` set items))) calls log"
proof -
  have new: "awaiting [] (duplex_new :: ('n, 'c, 's, 'x) duplex)" "next_request (duplex_new :: ('n, 'c, 's, 'x) duplex) = 0"
    "dx_outgoing (duplex_new :: ('n, 'c, 's, 'x) duplex) = []"
    by (simp_all add: awaiting_def duplex_new_def pending_calls_def ids_below_def next_request_def request_builder_new_def)
  have aw: "awaiting (open_calls items) d" and out: "dx_outgoing d = map text items"
    using messages_queued [OF _ new(1), of msgs ops] assms(4) by (simp_all add: new items d text_def Let_def)
  have bytes: "concat received = concat (map (\<lambda>m. encode (codec_new SepEmpty default_separator) m []) (map text items))"
    using assms(13) by (simp only: ipc_client_write_def ipc_client_codec_def stream_incoming_def out)
  obtain zs where zs: "mset zs = mset items"
    "list_all2 (\<lambda>s (mc, c). handler_reply any_time reply h meta (MethodCall mc) (Some s)) (pp_responses p) (open_calls zs)"
    using ipc_responses [OF assms(2,3,7) blank_separator_default _ bytes assms(14,15)] assms(9) by blast
  have sets: "set zs = set items" using zs(1) by (rule mset_eq_setD)
  have perm: "mset (open_calls zs) = mset (open_calls items)"
    by (simp only: mset_open_calls zs(1))
  have "list_all2 (\<lambda>s (mc, c). padded_reply out reply h meta (item_call ` set items) (MethodCall mc) (Some s))
      (concat lss) (open_calls zs)"
    unfolding assms(17) ipc_client_read_def ipc_client_codec_def stream_incoming_def
    using reply_lines [OF zs(2) _ assms(10,8,16), where C = "item_call ` set items"] open_calls_item [of _ _ zs] sets
    by (simp add: codec_new_def)
  moreover have "map_of (dx_pending_requests d) = pending_calls (open_calls zs @ [])" "ids_below (next_request d) (open_calls zs @ [])"
    using aw by (simp_all add: awaiting_def pending_calls_perm [OF _ perm, of "next_request d"])
  moreover have "dx_subscriptions d = []" by (simp add: d) (simp add: duplex_new_def)
  ultimately obtain d' u' log where "client_reads ops lss d u = (DuplexContinue, d', u')"
    "dx_completes ops log ([], u) = (dx_subscriptions d', u')"
    "list_all2 (answered (do_parse ops) (padded_reply out reply h meta (item_call ` set items))) (open_calls zs) log"
    "dx_pending_requests d' = []"
    using client_reads_complete [OF assms(12,11), of lss "open_calls zs" d "[]" u] aw by (auto simp: awaiting_def)
  then show ?thesis using perm by blast
qed

end
