(* ===== verification/Client_Connect.thy ===== *)
theory Client_Connect
  imports Client_Ipc Client_Http
begin

text \<open>
  Connecting a WebSocket or HTTP client (\<open>core-client/transports/src/transports/ws.rs\<close>, \<open>http.rs\<close>): the
  address is read, the connection is made, and the client task is spawned with it; the client handle
  sends to the task. Reading the address, making the connection and spawning are arguments that act on
  an environment \<open>'u\<close>.
\<close>

section \<open>WebSocket\<close>

definition ws_do_connect ::
    "('b \<Rightarrow> 'u \<Rightarrow> ('k \<times> 'r, 'x) result \<times> 'u) \<Rightarrow> (('n, 'c, 's, 'x) duplex \<times> 'k ws_client \<Rightarrow> 'u \<Rightarrow> 'u) \<Rightarrow> 'h \<Rightarrow> 'b \<Rightarrow> 'u
     \<Rightarrow> ('h, 'n, 'x) client_result \<times> 'u" where
  "ws_do_connect async_connect spawn handle client_builder u =
     (case async_connect client_builder u of
        (Err e, u1) \<Rightarrow> (Err (OtherError e), u1)
      | (Ok (client, _), u1) \<Rightarrow> (Ok handle, spawn (duplex_new, ws_client_new client) u1))"

text \<open>The outer result is the outcome of reading the address, before anything is connected.\<close>

definition ws_try_connect ::
    "(string \<Rightarrow> ('b, 'x) result) \<Rightarrow> ('b \<Rightarrow> 'u \<Rightarrow> ('k \<times> 'r, 'x) result \<times> 'u)
     \<Rightarrow> (('n, 'c, 's, 'x) duplex \<times> 'k ws_client \<Rightarrow> 'u \<Rightarrow> 'u) \<Rightarrow> 'h \<Rightarrow> string
     \<Rightarrow> ('u \<Rightarrow> ('h, 'n, 'x) client_result \<times> 'u, 'n, 'x) client_result" where
  "ws_try_connect client_builder_new async_connect spawn handle url =
     (case client_builder_new url of
        Err e \<Rightarrow> Err (OtherError e)
      | Ok client_builder \<Rightarrow> Ok (ws_do_connect async_connect spawn handle client_builder))"

definition ws_connect ::
    "('l \<Rightarrow> 'b) \<Rightarrow> ('b \<Rightarrow> 'u \<Rightarrow> ('k \<times> 'r, 'x) result \<times> 'u) \<Rightarrow> (('n, 'c, 's, 'x) duplex \<times> 'k ws_client \<Rightarrow> 'u \<Rightarrow> 'u)
     \<Rightarrow> 'h \<Rightarrow> 'l \<Rightarrow> 'u \<Rightarrow> ('h, 'n, 'x) client_result \<times> 'u" where
  "ws_connect from_url async_connect spawn handle url = ws_do_connect async_connect spawn handle (from_url url)"

section \<open>HTTP\<close>

text \<open>No connection is made before the first request.\<close>

definition http_connect ::
    "(string \<Rightarrow> ('l, 'x) result) \<Rightarrow> ('l \<times> ('n, 'c, 's, 'x) http_task \<Rightarrow> 'u \<Rightarrow> 'u) \<Rightarrow> 'h \<Rightarrow> string \<Rightarrow> 'u
     \<Rightarrow> ('h, 'n, 'x) client_result \<times> 'u" where
  "http_connect parse_uri spawn handle url u =
     (case parse_uri url of
        Err e \<Rightarrow> (Err (OtherError e), u)
      | Ok uri \<Rightarrow> (Ok handle, spawn (uri, http_start []) u))"

section \<open>A task per client\<close>

text \<open>With the spawned tasks recorded, a client has one new task, in its start state, and a failed attempt
  none.\<close>

lemma ws_connect_tasks:
  assumes "async_connect client_builder u = (r, u')"
  shows "ws_do_connect (\<lambda>b (u, ts). case async_connect b u of (r, u') \<Rightarrow> (r, u', ts)) (\<lambda>t (u, ts). (u, ts @ [t])) handle client_builder (u, ts) =
    (case r of
       Ok (client, _) \<Rightarrow> (Ok handle, u', ts @ [(duplex_new, \<lparr>wc_socket = client, wc_queue = []\<rparr>)])
     | Err e \<Rightarrow> (Err (OtherError e), u', ts))"
  using assms by (auto simp: ws_do_connect_def ws_client_new_def split: result.splits)

lemma ipc_connect_tasks:
  assumes "endpoint_connect path u = (r, u')"
  shows "ipc_client_connect (\<lambda>p (u, ts). case endpoint_connect p u of (r, u') \<Rightarrow> (r, u', ts)) (\<lambda>t (u, ts). (u, ts @ [t])) handle path (u, ts) =
    (case r of
       Ok connection \<Rightarrow> (Ok handle, u', ts @ [(duplex_new, connection)])
     | Err e \<Rightarrow> (Err (OtherError e), u', ts))"
  using assms by (auto simp: ipc_client_connect_def split: result.splits)

end
