(* ===== verification/Client_Wire.thy ===== *)
theory Client_Wire
  imports Core_Wire Client_Pubsub
begin

text \<open>
  The JSON text between a client and a server, in both directions: the reply to a call, as the client
  reads it, and the notification of a typed sink (\<open>pubsub/src/typed.rs\<close>), as the client reads it. The lemmas
  connect the derived serializers and deserializers of theory \<open>Core_Wire\<close> with the reading of theory
  \<open>Client\<close>.
\<close>

section \<open>Replies\<close>

text \<open>The JSON text of an object is an argument \<open>write\<close>; a reader is the derived deserializer of its
  type on the object that was written.\<close>

definition read_as :: "(string \<Rightarrow> ('a, 'e) result) \<Rightarrow> ((string, 'n json) fmap \<Rightarrow> 'a option)
    \<Rightarrow> ((string, 'n json) fmap \<Rightarrow> string) \<Rightarrow> (string, 'n json) fmap \<Rightarrow> bool" where
  "read_as reader de write m \<longleftrightarrow>
     (case de m of Some a \<Rightarrow> reader (write m) = Ok a | None \<Rightarrow> (\<exists>e. reader (write m) = Err e))"

text \<open>Errors that survive being written and read.\<close>

fun wire_stable :: "('a, 'n rpc_error) result \<Rightarrow> bool" where
  "wire_stable (Ok a) = True"
| "wire_stable (Err e) = (ec_from (ec_code (err_code e)) = err_code e \<and> err_data e \<noteq> Some VNull)"

lemma de_response_se:
  assumes "\<And>x. as_u64 (from_u64 x) = Some x" "\<And>x. as_i64 (from_i64 x) = Some x" "wire_stable r"
  shows "de_client_response as_u64 as_i64 (se_output from_u64 from_i64 (output_from r i ver)) =
    Some (ClientOutput (output_from r i ver))"
  using de_output_se [of as_u64 from_u64 as_i64 from_i64 "output_from r i ver"] assms
  by (cases r) (simp_all add: de_client_response_def)

lemma reply_parsed:
  assumes "\<And>x. as_u64 (from_u64 x) = Some x" "\<And>x. as_i64 (from_i64 x) = Some x" "wire_stable r" and "out = output_from r i ver"
    and "read_as (\<lambda>s. client_read (ws @ s)) (de_client_response as_u64 as_i64) write (se_output from_u64 from_i64 out)"
    and "t = ws @ write (se_output from_u64 from_i64 out)"
  shows "parse_response as_u64 as_i64 client_read t = Ok (i, map_err JsonRpcError r, None, None)"
proof -
  have "de_client_response as_u64 as_i64 (se_output from_u64 from_i64 out) = Some (ClientOutput out)"
    unfolding assms(4) by (intro de_response_se assms(1-3))
  then have "client_read t = Ok (ClientOutput out)" using assms(5,6) by (simp add: read_as_def)
  then show ?thesis using assms(4) by (cases r) (simp_all add: parse_response_def)
qed

text \<open>What a client reads from the replies of a handler to the calls in \<open>C\<close>.\<close>

lemma replies_read:
  fixes calls :: "('n method_call \<times> 'p) list"
  assumes "\<And>x. as_u64 (from_u64 x) = Some x" "\<And>x. as_i64 (from_i64 x) = Some x"
    and "\<And>mc r. MethodCall mc \<in> C \<Longrightarrow> call_result E h meta mc r \<Longrightarrow> wire_stable r \<and>
      reply (SingleResponse (output_from r (mc_id mc) (mc_jsonrpc mc))) =
        write (se_output from_u64 from_i64 (output_from r (mc_id mc) (mc_jsonrpc mc))) \<and>
      read_as client_read (de_client_response as_u64 as_i64) write
        (se_output from_u64 from_i64 (output_from r (mc_id mc) (mc_jsonrpc mc)))"
    and "parse = parse_response as_u64 as_i64 client_read"
  shows "readable parse (\<lambda>c t. c \<in> C \<and> handler_reply E reply h meta c t)"
    and "list_all2 (answered parse (\<lambda>c t. c \<in> C \<and> handler_reply E reply h meta c t)) calls log \<Longrightarrow>
      list_all2 (\<lambda>(mc, p) (p', res). p' = p \<and> (\<exists>r. call_result E h meta mc r \<and> res = map_err JsonRpcError r)) calls log"
proof -
  have parse: "parse (reply (SingleResponse (output_from r (mc_id mc) (mc_jsonrpc mc)))) =
      Ok (mc_id mc, map_err JsonRpcError r, None, None)" if "MethodCall mc \<in> C" "call_result E h meta mc r" for mc r
    unfolding assms(4) by (rule reply_parsed [where ws = "[]"]) (use assms(1,2) assms(3) [OF that] in \<open>simp_all del: output_from.simps\<close>)
  then show "readable parse (\<lambda>c t. c \<in> C \<and> handler_reply E reply h meta c t)" by (auto simp: readable_def)
  have "p' = p \<and> (\<exists>r. call_result E h meta mc r \<and> res = map_err JsonRpcError r)"
    if "answered parse (\<lambda>c t. c \<in> C \<and> handler_reply E reply h meta c t) (mc, p) (p', res)" for mc p res and p' :: 'p
    using that parse by (auto simp: answered_def)
  then show "list_all2 (\<lambda>(mc, p) (p', res). p' = p \<and> (\<exists>r. call_result E h meta mc r \<and> res = map_err JsonRpcError r)) calls log"
    if "list_all2 (answered parse (\<lambda>c t. c \<in> C \<and> handler_reply E reply h meta c t)) calls log"
    using that by (elim list_all2_mono) auto
qed

section \<open>Notifications\<close>

lemma de_notification_se:
  "de_client_response as_u64 as_i64 (se_call from_u64 (Notification nt)) = Some (ClientNotification nt)"
  by (simp add: de_client_response_def de_output_def de_success_def de_failure_def de_notification_def member_simps)

lemma notification_read:
  assumes "\<And>x. as_u64 (from_u64 x) = Some x" "\<And>x. as_i64 (from_i64 x) = Some x" "wire_stable v"
  shows "notification_into_result as_i64 (val_to_params from_u64 val_json (se_error from_i64) k v) = map_ok val_json v"
proof (cases v)
  case (Ok x)
  then show ?thesis using notification_result_read(1) [of as_u64 from_u64] assms(1) by simp
next
  case (Err e)
  then have "de_error as_i64 (se_error from_i64 e) = Some e"
    using assms(3) by (intro de_error_se) (simp_all add: assms(2))
  then show ?thesis using Err by (simp add: val_to_params_def fmlookup_of_list)
qed

text \<open>The notification of a typed sink and its text.\<close>

definition note_of ::
    "(u64 \<Rightarrow> 'n) \<Rightarrow> (i64 \<Rightarrow> 'n) \<Rightarrow> ('a \<Rightarrow> 'n json) \<Rightarrow> 't typed_sink \<Rightarrow> ('a, 'n rpc_error) result \<Rightarrow> 'n notification" where
  "note_of from_u64 from_i64 val_json k v =
     \<lparr>nt_jsonrpc = Some V2, nt_method = sink_notification (ty_sink k), nt_params = val_to_params from_u64 val_json (se_error from_i64) k v\<rparr>"

definition note_text ::
    "(u64 \<Rightarrow> 'n) \<Rightarrow> (i64 \<Rightarrow> 'n) \<Rightarrow> ('a \<Rightarrow> 'n json) \<Rightarrow> ((string, 'n json) fmap \<Rightarrow> string) \<Rightarrow> 't typed_sink \<Rightarrow> ('a, 'n rpc_error) result \<Rightarrow> string" where
  "note_text from_u64 from_i64 val_json write k v =
     sink_params_to_string (\<lambda>n. write (se_call from_u64 (Notification n))) (ty_sink k) (val_to_params from_u64 val_json (se_error from_i64) k v)"

lemma note_parsed:
  assumes "\<And>x. as_u64 (from_u64 x) = Some x" "\<And>x. as_i64 (from_i64 x) = Some x" "wire_stable v"
    and "read_as client_read (de_client_response as_u64 as_i64) write (se_call from_u64 (Notification (note_of from_u64 from_i64 val_json k v)))"
  shows "parse_response as_u64 as_i64 client_read (note_text from_u64 from_i64 val_json write k v) =
    Ok (IdNull, map_err JsonRpcError (map_ok val_json v), Some (sink_notification (ty_sink k)), Some (ty_id k))"
proof -
  let ?nt = "note_of from_u64 from_i64 val_json k v"
  have "client_read (note_text from_u64 from_i64 val_json write k v) = Ok (ClientNotification ?nt)"
    using assms(4) by (simp only: read_as_def de_notification_se option.simps note_text_def note_of_def sink_params_to_string_def)
  moreover have "params_subscription as_u64 (nt_params ?nt) = Some (ty_id k)"
    using notification_result_read(2) [of as_u64 from_u64] assms(1) by (simp add: note_of_def)
  moreover have "notification_into_result as_i64 (nt_params ?nt) = map_ok val_json v"
    using notification_read [of as_u64 from_u64 as_i64 from_i64 v] assms(1-3) by (simp add: note_of_def)
  ultimately show ?thesis by (simp add: parse_response_def note_of_def)
qed

text \<open>The texts that sinks of the server send, and what the client reads from a sequence of them.\<close>

definition sink_text ::
    "('n \<Rightarrow> u64 option) \<Rightarrow> (u64 \<Rightarrow> 'n) \<Rightarrow> ('n \<Rightarrow> i64 option) \<Rightarrow> (i64 \<Rightarrow> 'n) \<Rightarrow> (string \<Rightarrow> ('n client_response, string \<times> 'x) result)
     \<Rightarrow> ((string, 'n json) fmap \<Rightarrow> string) \<Rightarrow> ('a \<Rightarrow> 'n json) \<Rightarrow> 't typed_sink \<Rightarrow> ('a, 'n rpc_error) result \<Rightarrow> string \<Rightarrow> bool" where
  "sink_text as_u64 from_u64 as_i64 from_i64 client_read write val_json k v t \<longleftrightarrow>
     t = note_text from_u64 from_i64 val_json write k v \<and> wire_stable v \<and>
     read_as client_read (de_client_response as_u64 as_i64) write (se_call from_u64 (Notification (note_of from_u64 from_i64 val_json k v)))"

lemma sink_text_noted:
  assumes "\<And>x. as_u64 (from_u64 x) = Some x" "\<And>x. as_i64 (from_i64 x) = Some x"
    and "sink_text as_u64 from_u64 as_i64 from_i64 client_read write val_json k v t"
  shows "noted (parse_response as_u64 as_i64 client_read) t a \<longleftrightarrow>
    a = ((ty_id k, sink_notification (ty_sink k)), map_err JsonRpcError (map_ok val_json v))"
  using note_parsed [of as_u64 from_u64 as_i64 from_i64 v client_read "write" val_json k] assms
  by (cases a) (auto simp: noted_def sink_text_def)

lemma sink_texts_read:
  assumes "\<And>x. as_u64 (from_u64 x) = Some x" "\<And>x. as_i64 (from_i64 x) = Some x"
    and "list_all (\<lambda>t. \<exists>(k :: 't typed_sink) v. sink_text as_u64 from_u64 as_i64 from_i64 client_read write val_json k v t) ts"
    and "list_all2 (noted (parse_response as_u64 as_i64 client_read)) ts ns"
  shows "\<exists>pubs. list_all2 (\<lambda>(k :: 't typed_sink, v) t. sink_text as_u64 from_u64 as_i64 from_i64 client_read write val_json k v t) pubs ts \<and>
    ns = map (\<lambda>(k, v). ((ty_id k, sink_notification (ty_sink k)), map_err JsonRpcError (map_ok val_json v))) pubs"
  using assms(4,3)
proof (induction ts ns rule: list_all2_induct)
  case (Cons t ts n ns)
  then obtain k :: "'t typed_sink" and v where kv: "sink_text as_u64 from_u64 as_i64 from_i64 client_read write val_json k v t" by auto
  obtain pubs where "list_all2 (\<lambda>(k :: 't typed_sink, v) t. sink_text as_u64 from_u64 as_i64 from_i64 client_read write val_json k v t) pubs ts"
    "ns = map (\<lambda>(k, v). ((ty_id k, sink_notification (ty_sink k)), map_err JsonRpcError (map_ok val_json v))) pubs"
    using Cons by auto
  then show ?case using kv Cons.hyps(1) sink_text_noted [OF assms(1,2) kv] by (intro exI [of _ "(k, v) # pubs"]) simp
qed simp

lemma sink_texts_text:
  "list_all2 (\<lambda>(k, v) t. sink_text as_u64 from_u64 as_i64 from_i64 client_read write val_json k v t) pubs ts \<Longrightarrow>
    ts = map (\<lambda>(k, v). note_text from_u64 from_i64 val_json write k v) pubs"
  by (induction rule: list_all2_induct) (auto simp: sink_text_def)

end
