(* ===== verification/Pubsub_End_To_End.thy ===== *)
theory Pubsub_End_To_End
  imports Client_Wire
begin

text \<open>
  Publish-subscribe between a client and a handler in one process, from the sink of the server to the stream of
  the subscriber: \<open>connect_with_pubsub\<close> (\<open>core-client/transports/src/transports/local.rs\<close>), the client task, the handler
  of \<open>core/src/io.rs\<close>, the pub-sub methods (\<open>pubsub/src/subscription.rs\<close>) and typed sinks (\<open>pubsub/src/typed.rs\<close>) together.
\<close>

section \<open>Subscriptions of a client in the process of the handler\<close>

text \<open>C6: publish-subscribe with a handler in the same process, end to end. A session goes through phases. In each
  of them the client's handle sends calls, subscribe requests and notifications, the server publishes values through sinks of the session,
  from its handler or beside it, and the client task is polled, in whatever interleaving. When the task is then polled often
  enough, every call and subscribe request of the phase has been resolved, in their order, with the result of the call, and every value
  published in the phase has been taken once, in the order of publication, under the id and the notification name of its sink; nothing is
  pending, the channel of the session is empty, and the next phase is served in the same way. What was taken acts as \<open>delivers\<close> says: a
  result completes its caller or makes its subscription active, and a value goes to the stream of the subscription that is
  active under its id and name. So every value published in a phase after that of its subscribe request reaches the subscriber.\<close>

theorem pubsub_client_served:
  fixes co :: "('n, 'c, 's, 'v, 'x) caller_ops"
    and phases :: "(('n, 'c, 's) rpc_message list \<times> (('t, 'u) ps_world \<Rightarrow> ('t, 'u) ps_world)) list list"
    and val_json :: "'a \<Rightarrow> 'n json"
  assumes "\<And>x. as_u64 (from_u64 x) = Some x" and "\<And>x. as_i64 (from_i64 x) = Some x"
    and "live_channel ch held" and "held q = []" and "middleware h = Noop" and "procs_answer E h"
    and C: "C = item_call ` set (request_items 0 (concat (map fst (concat phases))))"
    and "\<And>c. c \<in> C \<Longrightarrow> co_to_string co (SingleRequest c) = write (se_call from_u64 c) \<and>
      read_as server_read (\<lambda>m. map_option SingleRequest (de_call as_u64 m)) write (se_call from_u64 c)"
    and "\<And>mc r. MethodCall mc \<in> C \<Longrightarrow> call_result E h sid mc r \<Longrightarrow> wire_stable r \<and>
      reply (SingleResponse (output_from r (mc_id mc) (mc_jsonrpc mc))) =
        write (se_output from_u64 from_i64 (output_from r (mc_id mc) (mc_jsonrpc mc))) \<and>
      read_as client_read (de_client_response as_u64 as_i64) write
        (se_output from_u64 from_i64 (output_from r (mc_id mc) (mc_jsonrpc mc)))"
    and "co_parse co = parse_response as_u64 as_i64 client_read"
    and "\<And>c res v. fst (co_oneshot_send co c res v)" and "\<And>s res v. fst (co_stream_send co s res v)"
    and "length (concat (map fst (concat phases))) < 2 ^ 64"
    and P: "P = (\<lambda>t. \<exists>(k :: 't typed_sink) v. sink_text as_u64 from_u64 as_i64 from_i64 client_read write val_json k v t)"
    and "procs_keep (publishes I P inbox history) h"
    and "list_all (rounds_publish I E P inbox history) phases"
    and "\<And>w. E w w" and "transp E" and "fair_select I E (sel rx) held inbox history"
    and "connect_with_pubsub q (tx, rx) sid w = ((d0, l0, rx'), w0)" and "inbox w0 = []" and "I w0"
  shows "phases_served co ch (handler_futures server_read reply sched h) (sel rx') inbox history
    (list_all2 (\<lambda>(mc, p) (p', res). p' = p \<and> (\<exists>r. call_result E h sid mc r \<and> res = map_err JsonRpcError r)))
    (\<lambda>ts ns. \<exists>pubs :: ('t typed_sink \<times> ('a, 'n rpc_error) result) list.
       ts = map (\<lambda>(k, v). note_text from_u64 from_i64 val_json write k v) pubs \<and>
       ns = map (\<lambda>(k, v). ((ty_id k, sink_notification (ty_sink k)), map_err JsonRpcError (map_ok val_json v))) pubs)
    phases (d0, l0, w0, v)"
proof -
  let ?Q = "publishes I P inbox history"
  let ?R = "\<lambda>c t. c \<in> C \<and> handler_reply E reply h sid c t" and ?F = "reply_future E ?Q reply h sid C"
  let ?ho = "handler_futures server_read reply sched h"
  have written: "server_read (co_to_string co (SingleRequest c)) = Ok (SingleRequest c)" if "c \<in> C" for c
    using assms(8) [OF that] by (simp add: read_as_def de_call_se assms(1))
  have serves: "serves_calls (co_to_string co) ?ho sid (\<lambda>_. 0) C ?F ?R"
    by (rule handler_serves [OF assms(5) written assms(6,15,17) publishes_refl])
  have read: "readable (co_parse co) ?R" by (rule replies_read(1) [OF assms(1,2) _ assms(10)]) (rule assms(9))
  have step: "?Q w1 w2" if "ho_step (co_to_string co) ?ho sid C ?F w1 w2" for w1 w2
    by (rule handler_steps_keep [OF assms(5) written assms(15) publishes_refl that])
  have noted: "\<exists>a. noted (co_parse co) t a" if "P t" for t
    using that sink_text_noted [of as_u64 from_u64 as_i64 from_i64] assms(1,2) unfolding P assms(10) by blast
  have stable: "?F c f w2" if "?F c f w1" "E w1 w2" for c f w1 w2
    using that assms(18) unfolding reply_future_def by (blast dest: transpD)
  have start: "d0 = duplex_new" "l0 = local_with_metadata q sid" "rx' = rx"
    using assms(20) by (auto simp: connect_with_pubsub_def connect_with_pubsub_and_middleware_def duplex_task_def Let_def)
  have env: "pubsub_env co ch ?ho (sel rx') held sid (\<lambda>_. 0) C ?F ?R I E P inbox history"
    unfolding pubsub_env_def start using assms(3,11,12,18,19) serves read step noted stable by blast
  have first: "next_request d0 = 0" by (simp add: start next_request_def duplex_new_def request_builder_new_def)
  have start_inv: "between_polls (co_to_string co) held C ?F ?R sid [] d0 l0 w0"
    unfolding start by (rule between_polls_start) (rule assms(4))
  have bound: "unat (next_request d0) + length (concat (map fst (concat phases))) < 2 ^ 64" using assms(13) by (simp add: first)
  have "item_call ` set (request_items (next_request d0) (concat (map fst (concat phases)))) \<subseteq> C" by (simp add: first C)
  note served = phases_are_served [OF env assms(16) assms(21) bound start_inv this assms(22), of v]
  show ?thesis
  proof (rule phases_served_mono [OF _ _ served])
    show "list_all2 (\<lambda>(mc, p) (p', res). p' = p \<and> (\<exists>r. call_result E h sid mc r \<and> res = map_err JsonRpcError r)) calls as"
      if "list_all2 (answered (co_parse co) ?R) calls as" for calls as
      by (rule replies_read(2) [OF assms(1,2) _ assms(10) that]) (rule assms(9))
    show "\<exists>pubs :: ('t typed_sink \<times> ('a, 'n rpc_error) result) list.
        ts = map (\<lambda>(k, v). note_text from_u64 from_i64 val_json write k v) pubs \<and>
        ns = map (\<lambda>(k, v). ((ty_id k, sink_notification (ty_sink k)), map_err JsonRpcError (map_ok val_json v))) pubs"
      if sent: "list_all P ts \<and> list_all2 (noted (co_parse co)) ts ns" for ts ns
      using sink_texts_read [OF assms(1,2) sent [unfolded P, THEN conjunct1] sent [unfolded assms(10), THEN conjunct2]]
      by (blast dest: sink_texts_text)
  qed
qed

text \<open>A concrete session for the witness: the world has the one-shot channels of the handler, the channel of
  the session and all that was sent to it; the handler has a subscription that is always granted.\<close>

type_synonym tick_env = "u64 sub_answer option list \<times> string list \<times> string list"

definition tick_items :: "(tick_env, nat, u64 sub_answer) oneshot_ops" where
  "tick_items =
     \<lparr>os_channel = (\<lambda>(cs, i, h). (length cs, cs @ [None], i, h)),
      os_send = (\<lambda>c a (cs, i, h). (Ok (), cs[c := Some a], i, h)),
      os_recv = (\<lambda>c (cs, i, h). map_option (\<lambda>a. (Ok a, cs, i, h)) (cs ! c))\<rparr>"

definition tick_receipts :: "(tick_env, unit, unit) oneshot_ops" where
  "tick_receipts =
     \<lparr>os_channel = (\<lambda>u. ((), u)), os_send = (\<lambda>c a u. (Ok (), u)), os_recv = (\<lambda>c u. None)\<rparr>"

definition tick_server :: "(u64, nat, (unit, tick_env) ps_world) meta_io_handler" where
  "tick_server = ps_handler (pubsub_add_subscription Some (\<lambda>x. x) tick_items tick_receipts (\<lambda>f u. u) Some ''tick''
     (''sub'', \<lambda>params meta sb u. snd (assign_id tick_items sb (SubNumber 5) u))
     (''stop'', \<lambda>i meta u. (fut_ready (Ok (VBool True)), u)) pubsub_default)"

definition tick_inbox :: "(unit, tick_env) ps_world \<Rightarrow> string list" where
  "tick_inbox w = fst (snd (ps_env w))"

definition tick_history :: "(unit, tick_env) ps_world \<Rightarrow> string list" where
  "tick_history w = snd (snd (ps_env w))"

text \<open>Nothing outside the handler touches its channels, and what the sessions run for a subscription is
  the handler's own function.\<close>

definition tick_outside :: "(unit, tick_env) ps_world \<Rightarrow> (unit, tick_env) ps_world \<Rightarrow> bool" where
  "tick_outside w w' \<longleftrightarrow> fst (ps_env w') = fst (ps_env w)"

definition tick_inv :: "(unit, tick_env) ps_world \<Rightarrow> bool" where
  "tick_inv w \<longleftrightarrow> (\<forall>sid. \<forall>e \<in> set (active_subscriptions (ps_sessions w sid)). snd e = (\<lambda>i u. u))"

definition tick_select :: "unit \<Rightarrow> (nat, 'f, string list, (unit, tick_env) ps_world) merged_next" where
  "tick_select rx lw =
     (case lw of (l, w) \<Rightarrow>
        case lr_queue l of
          t # q \<Rightarrow> (Ready (Some t), l\<lparr>lr_queue := q\<rparr>, w)
        | [] \<Rightarrow>
            (case ps_env w of
               (cs, t # i, h) \<Rightarrow> (Ready (Some t), l, w\<lparr>ps_env := (cs, i, h)\<rparr>)
             | (cs, [], h) \<Rightarrow> (Pending, l, w)))"

definition tick_transport :: "(tick_env, unit, unit) transport_ops" where
  "tick_transport =
     \<lparr>tr_unbounded_send = (\<lambda>t s (cs, i, h). (Ok (), cs, i @ [s], h @ [s])), tr_poll_ready = (\<lambda>t u. (Ready (Ok ()), u)),
      tr_start_send = (\<lambda>t s (cs, i, h). (Ok (), cs, i @ [s], h @ [s])), tr_poll_flush = (\<lambda>t u. (Ready (Ok ()), u)),
      tr_poll_close = (\<lambda>t u. (Ready (Ok ()), u))\<rparr>"

definition tick_sink :: "unit typed_sink" where
  "tick_sink = \<lparr>ty_sink = \<lparr>sink_notification = ''tick'', sink_transport = ()\<rparr>, ty_id = SubNumber 5\<rparr>"

definition tick_write :: "(string, u64 json) fmap \<Rightarrow> string" where
  "tick_write m =
     (case fmlookup m ''method'' of None \<Rightarrow> ''reply'' | Some v \<Rightarrow> if v = VString ''sub'' then ''call'' else ''tick'')"

definition tick_publish :: "(unit, tick_env) ps_world \<Rightarrow> (unit, tick_env) ps_world" where
  "tick_publish w = w\<lparr>ps_env := snd (typed_notify (\<lambda>x. x) (\<lambda>x. x) (se_error (\<lambda>x. x)) (\<lambda>n. tick_write (se_call (\<lambda>x. x) (Notification n)))
     tick_transport tick_sink (Ok (VBool True)) (ps_env w))\<rparr>"

definition tick_subscribe :: "(u64, nat, nat) rpc_message" where
  "tick_subscribe = MsgSubscribe \<lparr>sm_subscription = \<lparr>cs_subscribe = ''sub'', cs_subscribe_params = ParamsNone,
     cs_notification = ''tick'', cs_unsubscribe = ''stop''\<rparr>, sm_sender = 9\<rparr>"

definition tick_call :: "u64 method_call" where
  "tick_call = \<lparr>mc_jsonrpc = Some V2, mc_method = ''sub'', mc_params = ParamsNone, mc_id = IdNum 0\<rparr>"

definition tick_server_read :: "string \<Rightarrow> (u64 request, unit) result" where
  "tick_server_read s = (if s = ''call'' then Ok (SingleRequest (MethodCall tick_call)) else Err ())"

definition tick_client_read :: "string \<Rightarrow> (u64 client_response, string \<times> unit) result" where
  "tick_client_read s =
     (if s = ''reply'' then Ok (ClientOutput (Success \<lparr>su_jsonrpc = Some V2, su_result = VNumber 5, su_id = IdNum 0\<rparr>))
      else if s = ''tick'' then Ok (ClientNotification (note_of (\<lambda>x. x) (\<lambda>x. x) (\<lambda>x. x) tick_sink (Ok (VBool True))))
      else Err (''x'', ()))"

definition tick_callers :: "(u64, nat, nat, (nat \<times> (u64 json, u64, unit) client_result) list, unit) caller_ops" where
  "tick_callers =
     \<lparr>co_to_string = (\<lambda>_. ''call''), co_parse = parse_response Some Some tick_client_read, co_as_u64 = Some, co_from_u64 = (\<lambda>x. x),
      co_oneshot_send = (\<lambda>c r v. (True, v @ [(c, r)])), co_stream_send = (\<lambda>s r v. (True, v @ [(s, r)]))\<rparr>"

definition tick_phases :: "((u64, nat, nat) rpc_message list \<times> ((unit, tick_env) ps_world \<Rightarrow> (unit, tick_env) ps_world)) list list" where
  "tick_phases = [[([tick_subscribe], \<lambda>w. w)], [([], tick_publish)]]"

lemmas tick_methods = tick_server_def pubsub_add_subscription_def new_subscription_def pubsub_default_def default_handler_def
  with_compatibility_def default_compatibility_def add_method_with_meta_def methods_insert_def

lemmas tick_subscribing = subscribe_call_def rv_channel_def rv_recv_def rv_send_def assign_id_def tick_items_def tick_receipts_def
  fut_bind_def lift_fut_def session_sender_def

lemma tick_procs:
  "methods tick_server name = Some (Method f) \<Longrightarrow>
     f = subscribe_call (\<lambda>x. x) tick_items tick_receipts (\<lambda>f u. u) Some (fst (new_subscription ''tick''
       (\<lambda>params meta sb u. snd (assign_id tick_items sb (SubNumber 5) u)) (\<lambda>i meta u. (fut_ready (Ok (VBool True)), u)))) \<or>
     f = unsubscribe_call Some Some \<lparr>un_notification = ''tick'', un_unsubscribe = (\<lambda>i meta u. (fut_ready (Ok (VBool True)), u))\<rparr>"
  "methods tick_server name \<noteq> Some (NotificationProc g)"
  by (auto simp: tick_methods split: if_splits)

lemma tick_subscribe_result:
  assumes "subscribe_call (\<lambda>x. x) tick_items tick_receipts (\<lambda>f u. u) Some (fst (new_subscription ''tick''
       (\<lambda>params meta sb u. snd (assign_id tick_items sb (SubNumber 5) u)) (\<lambda>i meta u. (fut_ready (Ok (VBool True)), u)))) p m w = (fr, w1)"
    and "tick_outside w1 w2"
  shows "\<exists>w3. fr w2 = Some (Ok (VNumber 5), w3)"
  using assms
  by (auto simp: tick_subscribing new_subscription_def tick_outside_def Let_def case_prod_beta nth_append split: option.splits)

lemma tick_answers: "procs_answer tick_outside tick_server"
  unfolding procs_answer_def
proof (intro allI impI)
  fix name f p m w fr w1 w2 assume "methods tick_server name = Some (Method f)" "f p m w = (fr, w1)" "tick_outside w1 w2"
  then show "fr w2 \<noteq> None"
    using tick_procs(1) [of name f] tick_subscribe_result
    by (fastforce simp: unsubscribe_call_def session_remove_subscription_def Let_def case_prod_beta lift_fut_def fut_ready_def
        split: option.splits if_splits)
qed

lemma tick_result:
  "call_result tick_outside tick_server sid tick_call r \<Longrightarrow> r = Ok (VNumber 5)"
  using tick_subscribe_result
  by (fastforce simp: call_result_def tick_call_def resolve_method_def tick_methods split: if_splits)

lemma tick_inv_simps:
  "tick_inv w \<Longrightarrow> map_of (active_subscriptions (ps_sessions w sid)) k = Some old \<Longrightarrow> old = (\<lambda>i u. u)"
  "tick_inv w \<Longrightarrow> tick_inv (w\<lparr>ps_env := u\<rparr>)"
  "tick_inv w \<Longrightarrow> tick_inv (w\<lparr>ps_sessions := (ps_sessions w)(sid := (ps_sessions w sid)\<lparr>active_subscriptions :=
     AList.delete k (active_subscriptions (ps_sessions w sid))\<rparr>)\<rparr>)"
  "tick_inv w \<Longrightarrow> tick_inv (w\<lparr>ps_env := u, ps_sessions := (ps_sessions w)(sid := (ps_sessions w sid)\<lparr>active_subscriptions :=
     AList.update k (\<lambda>i u. u) (active_subscriptions (ps_sessions w sid))\<rparr>)\<rparr>)"
proof -
  show "tick_inv w \<Longrightarrow> tick_inv (w\<lparr>ps_sessions := (ps_sessions w)(sid := (ps_sessions w sid)\<lparr>active_subscriptions :=
     AList.delete k (active_subscriptions (ps_sessions w sid))\<rparr>)\<rparr>)"
    by (force simp: tick_inv_def AList.delete_eq)
  have "set (AList.update k v xs) \<subseteq> insert (k, v) (set xs)" for v and xs :: "(sub_key \<times> tick_env remove_fn) list"
    by (induction xs) auto
  then show "tick_inv w \<Longrightarrow> tick_inv (w\<lparr>ps_env := u, ps_sessions := (ps_sessions w)(sid := (ps_sessions w sid)\<lparr>active_subscriptions :=
     AList.update k (\<lambda>i u. u) (active_subscriptions (ps_sessions w sid))\<rparr>)\<rparr>)"
    by (fastforce simp: tick_inv_def)
qed (force simp: tick_inv_def dest: map_of_SomeD)+

lemma tick_keeps: "procs_keep (publishes tick_inv P tick_inbox tick_history) tick_server"
  unfolding procs_keep_def
proof (intro conjI allI impI)
  fix name f p m w assume f: "methods tick_server name = Some (Method f)"
  show "publishes tick_inv P tick_inbox tick_history w (snd (f p m w))"
    using tick_procs(1) [OF f]
    by (elim disjE) (auto simp: publishes_def tick_inv_simps tick_inbox_def tick_history_def tick_subscribing new_subscription_def unsubscribe_call_def
        session_remove_subscription_def hm_remove_def Let_def case_prod_beta split: option.splits if_splits)
  show "keeps (fst (f p m w)) (publishes tick_inv P tick_inbox tick_history)"
    using tick_procs(1) [OF f]
    by (elim disjE) (auto simp: keeps_def publishes_def tick_inv_simps tick_inbox_def tick_history_def tick_subscribing new_subscription_def unsubscribe_call_def
        session_remove_subscription_def hm_remove_def hm_insert_def add_to_session_def session_add_subscription_def drop_callback_def
        Let_def case_prod_beta fut_ready_def dest: tick_inv_simps(1) split: option.splits if_splits result.splits)
qed (use tick_procs(2) in blast)

lemma tick_fair: "fair_select tick_inv tick_outside (tick_select rx) (\<lambda>q. q) tick_inbox tick_history"
proof -
  have "\<exists>q. l = l\<lparr>lr_queue := q\<rparr>" for l :: "(nat, 'f, string list) local_rpc" by (rule exI [of _ "lr_queue l"]) simp
  then show ?thesis
    unfolding fair_select_def
    by (auto simp: tick_select_def tick_inv_def tick_outside_def tick_inbox_def tick_history_def split: list.splits prod.splits)
qed

lemma tick_published:
  "tick_publish w = w\<lparr>ps_env := (fst (ps_env w), tick_inbox w @ [''tick''], tick_history w @ [''tick''])\<rparr>"
  by (cases "ps_env w") (simp add: tick_publish_def typed_notify_def sink_notify_def sink_params_to_string_def tick_transport_def tick_sink_def
      tick_write_def tick_inbox_def tick_history_def fmlookup_of_list)

lemma tick_text: "sink_text Some (\<lambda>x. x) Some (\<lambda>x. x) tick_client_read tick_write (\<lambda>x. x) tick_sink (Ok (VBool True)) ''tick''"
  unfolding sink_text_def read_as_def de_notification_se
  by (simp add: note_text_def note_of_def sink_params_to_string_def tick_client_read_def tick_write_def tick_sink_def fmlookup_of_list)

lemma tick_rounds:
  "P ''tick'' \<Longrightarrow> list_all (rounds_publish tick_inv tick_outside P tick_inbox tick_history) tick_phases"
  by (simp add: tick_phases_def rounds_publish_def publishes_def tick_published tick_inv_simps(2) tick_outside_def)
    (simp add: tick_inbox_def tick_history_def)

theorem pubsub_client_served_witness:
  "phases_served tick_callers list_channel (handler_futures tick_server_read (\<lambda>_. ''reply'') [] tick_server) (tick_select ()) tick_inbox tick_history
    (list_all2 (\<lambda>(mc, p) (p', res). p' = p \<and> (\<exists>r. call_result tick_outside tick_server 3 mc r \<and> res = map_err JsonRpcError r)))
    (\<lambda>ts ns. \<exists>pubs :: (unit typed_sink \<times> (u64 json, u64 rpc_error) result) list.
       ts = map (\<lambda>(k, v). note_text (\<lambda>x. x) (\<lambda>x. x) (\<lambda>x. x) tick_write k v) pubs \<and>
       ns = map (\<lambda>(k, v). ((ty_id k, sink_notification (ty_sink k)), map_err JsonRpcError (map_ok (\<lambda>x. x) v))) pubs)
    tick_phases (duplex_new, local_with_metadata [] 3, \<lparr>ps_env = ([], [], []), ps_sessions = (\<lambda>_. session_new ())\<rparr>, [])"
proof -
  let ?P = "\<lambda>t. \<exists>(k :: unit typed_sink) v. sink_text Some (\<lambda>x. x) Some (\<lambda>x. x) tick_client_read tick_write (\<lambda>x. x) k v t"
  let ?w = "\<lparr>ps_env = ([], [], []), ps_sessions = (\<lambda>_. session_new ())\<rparr> :: (unit, tick_env) ps_world"
  have C: "{MethodCall tick_call} = item_call ` set (request_items 0 (concat (map fst (concat tick_phases))))"
    by (simp add: tick_phases_def tick_subscribe_def tick_call_def)
  have connect: "connect_with_pubsub [] ((), ()) 3 ?w = ((duplex_new, local_with_metadata [] 3, ()), ?w)"
    by (simp add: connect_with_pubsub_def connect_with_pubsub_and_middleware_def duplex_task_def Let_def fun_eq_iff)
  have "?P ''tick''" using tick_text by blast
  then have rounds: "list_all (rounds_publish tick_inv tick_outside ?P tick_inbox tick_history) tick_phases" by (rule tick_rounds)
  show ?thesis
  proof (rule pubsub_client_served [OF _ _ list_channel_live refl _ tick_answers C _ _ _ _ _ _ refl tick_keeps rounds _ _ tick_fair connect])
    show "transp tick_outside" by (auto simp: transp_def tick_outside_def)
    show "middleware tick_server = Noop" by (simp add: tick_methods)
    show "co_parse tick_callers = parse_response Some Some tick_client_read" by (simp add: tick_callers_def)
    fix mc r assume "MethodCall mc \<in> {MethodCall tick_call}" "call_result tick_outside tick_server 3 mc r"
    then have "mc = tick_call" "r = Ok (VNumber 5)" using tick_result by auto
    then show "wire_stable r \<and> ''reply'' = tick_write (se_output (\<lambda>x. x) (\<lambda>x. x) (output_from r (mc_id mc) (mc_jsonrpc mc))) \<and>
        read_as tick_client_read (de_client_response Some Some) tick_write (se_output (\<lambda>x. x) (\<lambda>x. x) (output_from r (mc_id mc) (mc_jsonrpc mc)))"
      by (simp add: tick_call_def tick_write_def read_as_def tick_client_read_def de_client_response_def de_output_def de_success_def member_simps)
  qed (auto simp: tick_callers_def tick_write_def tick_call_def tick_server_read_def tick_client_read_def tick_phases_def tick_inbox_def
      tick_inv_def session_new_def tick_outside_def read_as_def de_call_def de_method_call_def member_simps)
qed
end
