(* ===== verification/Http_End_To_End.thy ===== *)
theory Http_End_To_End
  imports Client_Http Client_Wire Http_Handler
begin

text \<open>
  A client and a server over HTTP: the client task of \<open>core-client/transports/src/transports/http.rs\<close> and the
  service of \<open>http/src/handler.rs\<close> together. The network between them is an argument: how a request arrives (its headers,
  the chunks of its body and the pauses between them), and when the server is polled.
\<close>

section \<open>Reading the body of a response\<close>

text \<open>Lossy decoding loses nothing of a valid text.\<close>

definition utf8_step :: "(string \<Rightarrow> bool) \<Rightarrow> char \<Rightarrow> string \<Rightarrow> bool" where
  "utf8_step P a r =
     (if in_range 0 0x7F a then P r
      else (case r of
          [] \<Rightarrow> False
        | b # r1 \<Rightarrow>
            if in_range 0xC2 0xDF a then utf8_tail b \<and> P r1
            else (case r1 of
                [] \<Rightarrow> False
              | c # r2 \<Rightarrow>
                  if in_range 0xE0 0xE0 a then in_range 0xA0 0xBF b \<and> utf8_tail c \<and> P r2
                  else if in_range 0xE1 0xEC a \<or> in_range 0xEE 0xEF a then utf8_tail b \<and> utf8_tail c \<and> P r2
                  else if in_range 0xED 0xED a then in_range 0x80 0x9F b \<and> utf8_tail c \<and> P r2
                  else (case r2 of
                      [] \<Rightarrow> False
                    | d # r3 \<Rightarrow>
                        (in_range 0xF0 0xF0 a \<and> in_range 0x90 0xBF b \<or>
                         in_range 0xF1 0xF3 a \<and> utf8_tail b \<or>
                         in_range 0xF4 0xF4 a \<and> in_range 0x80 0x8F b) \<and>
                        utf8_tail c \<and> utf8_tail d \<and> P r3))))"

lemma utf8_valid_step: "utf8_valid (a # r) = utf8_step utf8_valid a r"
  by (simp only: utf8_step_def utf8_valid.simps)

text \<open>One character: the steps with nothing after it.\<close>

fun utf8_char :: "string \<Rightarrow> bool" where
  "utf8_char [] = False"
| "utf8_char (a # r) = (utf8_step (\<lambda>r. r = []) a r)"

lemma utf8_step_char: "utf8_step P a r \<longleftrightarrow> (\<exists>t r'. a # r = t @ r' \<and> utf8_char t \<and> P r')"
proof
  assume step: "utf8_step P a r"
  show "\<exists>t r'. a # r = t @ r' \<and> utf8_char t \<and> P r'"
  proof (cases "in_range 0 0x7F a")
    case True
    then show ?thesis using step by (intro exI [of _ "[a]"] exI [of _ r]) (simp add: utf8_step_def)
  next
    case one: False
    then obtain b r1 where r: "r = b # r1" using step by (cases r) (simp_all add: utf8_step_def)
    show ?thesis
    proof (cases "in_range 0xC2 0xDF a")
      case True
      then show ?thesis using step one r by (intro exI [of _ "[a, b]"] exI [of _ r1]) (simp add: utf8_step_def)
    next
      case two: False
      then obtain c r2 where r1: "r1 = c # r2" using step one r by (cases r1) (simp_all add: utf8_step_def)
      show ?thesis
      proof (cases "in_range 0xE0 0xE0 a \<or> in_range 0xE1 0xEC a \<or> in_range 0xEE 0xEF a \<or> in_range 0xED 0xED a")
        case True
        then show ?thesis using step one two r r1
          by (intro exI [of _ "[a, b, c]"] exI [of _ r2]) (simp add: utf8_step_def split: if_splits)
      next
        case three: False
        then obtain d r3 where "r2 = d # r3" using step one two r r1 by (cases r2) (simp_all add: utf8_step_def)
        then show ?thesis using step one two three r r1
          by (intro exI [of _ "[a, b, c, d]"] exI [of _ r3]) (simp add: utf8_step_def)
      qed
    qed
  qed
next
  assume "\<exists>t r'. a # r = t @ r' \<and> utf8_char t \<and> P r'"
  then obtain r1 r' where "r = r1 @ r'" "utf8_step (\<lambda>r. r = []) a r1" "P r'" by (auto simp: Cons_eq_append_conv)
  then show "utf8_step P a r" by (auto simp: utf8_step_def split: if_splits list.splits)
qed

lemma utf8_char_unique:
  assumes "t @ x = t' @ y" and "utf8_char t" and "utf8_char t'"
  shows "t = t'"
proof -
  obtain a r r' where t: "t = a # r" "t' = a # r'" using assms by (cases t; cases t') auto
  then have "utf8_step (\<lambda>r. r = []) a r" "utf8_step (\<lambda>r. r = []) a r'" "r @ x = r' @ y" using assms by auto
  then have "length r = length r'" by (auto simp: utf8_step_def split: if_splits list.splits)
  then show ?thesis using \<open>r @ x = r' @ y\<close> t by simp
qed

lemma utf8_valid_char: "utf8_char t \<Longrightarrow> utf8_valid (t @ s) = utf8_valid s"
proof -
  assume t: "utf8_char t"
  then obtain a r where "t @ s = a # (r @ s)" by (cases t) auto
  then have "utf8_valid (t @ s) \<longleftrightarrow> (\<exists>t' r'. t @ s = t' @ r' \<and> utf8_char t' \<and> utf8_valid r')"
    using utf8_step_char [of utf8_valid a "r @ s"] by (simp add: utf8_valid_step del: utf8_valid.simps(2))
  also have "\<dots> \<longleftrightarrow> utf8_valid s" using utf8_char_unique [OF _ t] t by (metis same_append_eq)
  finally show ?thesis .
qed

lemma utf8_first_char: "utf8_valid s \<Longrightarrow> s \<noteq> [] \<Longrightarrow> \<exists>t r. s = t @ r \<and> utf8_char t \<and> utf8_valid r"
  using utf8_step_char [of utf8_valid] by (cases s) (auto simp: utf8_valid_step simp del: utf8_valid.simps(2))

lemma utf8_char_length: "utf8_char t \<Longrightarrow> length t \<in> {1, 2, 3, 4}"
  by (cases t) (auto simp: utf8_step_def split: if_splits list.splits)

lemma utf8_valid_append: "utf8_valid a \<Longrightarrow> utf8_valid (a @ b) = utf8_valid b"
proof (induction a rule: length_induct)
  case (1 a)
  show ?case
  proof (cases "a = []")
    case False
    then obtain t r where a: "a = t @ r" "utf8_char t" "utf8_valid r" using utf8_first_char "1.prems" by blast
    moreover from this(2) have "length r < length a" using utf8_char_length [of t] a(1) by auto
    ultimately show ?thesis using "1.IH" by (simp add: utf8_valid_char)
  qed simp
qed

lemma from_utf8_lossy_valid: "utf8_valid s \<Longrightarrow> from_utf8_lossy s = s"
proof (induction s rule: from_utf8_lossy.induct)
  case (2 c s)
  obtain k where k: "utf8_char_len (c # s) = Some k"
  proof -
    obtain t r where t: "c # s = t @ r" "utf8_char t" using utf8_first_char [OF "2.prems"] by blast
    then have "length t \<le> length (c # s)" "take (length t) (c # s) = t" by simp_all
    moreover have "utf8_valid t" using utf8_valid_char [OF t(2), of "[]"] by simp
    ultimately have "utf8_char_len (c # s) \<noteq> None"
      using utf8_char_length [OF t(2)] unfolding utf8_char_len_def find_None_iff by (auto simp del: take_Cons_numeral)
    then show ?thesis using that by blast
  qed
  then have "utf8_valid (take k (c # s))" by (auto simp: utf8_char_len_def find_Some_iff split: if_splits)
  then have "utf8_valid (drop k (c # s))"
    using "2.prems" utf8_valid_append [of "take k (c # s)" "drop k (c # s)"] by simp
  then show ?case using "2.IH"(2) [OF k] k by simp
qed simp

section \<open>A request on the server\<close>

text \<open>How a request arrives: as it was sent, with headers added by the client library, and its body in chunks.\<close>

definition arrives_as :: "http_post \<Rightarrow> 'e http_request \<Rightarrow> bool" where
  "arrives_as p req \<longleftrightarrow> rq_method req = METHOD_POST \<and> (\<forall>(k, v) \<in> set (hp_headers p). headers_get (rq_headers req) k = Some v) \<and>
     body_text (rq_body req) = hp_body p \<and> no_body_error (rq_body req)"

text \<open>The checks of the server pass.\<close>

definition http_allows :: "('n, 'm, 'w, 'g, 'e, 'x) http_ops \<Rightarrow> ('w, 'g, 'e) server_handler \<Rightarrow> 'e http_request \<Rightarrow> bool" where
  "http_allows ops sh req \<longleftrightarrow> is_host_allowed (op_is_match ops) (op_to_str ops) req (sh_allowed_hosts sh) \<and>
     cors_allow_origin (op_glob_build ops) (op_is_match ops) (op_to_str ops) (op_from_str ops) req (sh_cors_domains sh) \<noteq> CorsInvalid \<and>
     cors_allow_headers (op_to_str ops) (op_from_str ops) req (sh_cors_allowed_headers sh) \<noteq> CorsInvalid"

text \<open>The polls of a request on the server, until there is a response.\<close>

fun http_run ::
    "('n, 'm, 'w, 'g, 'e, 'x) http_ops \<Rightarrow> (bool \<times> ('w \<Rightarrow> 'w)) list \<Rightarrow> ('m, 'w, 'g, 'e) http_handler \<times> 'w
     \<Rightarrow> ((hyper_response, 'e) result \<times> 'w) option" where
  "http_run ops [] s = None"
| "http_run ops ((ready, g) # polls) (h, w) =
     (case handler_poll ops ready h (g w) of
        (Ready res, _, w') \<Rightarrow> Some (res, w')
      | (Pending, h', w') \<Rightarrow> http_run ops polls (h', w'))"

lemma http_run_rpc: "http_run ops polls (HandlerRpc h, w) = rpc_run ops polls (h, w)"
  by (induction polls arbitrary: h w) (auto split: prod.splits poll.splits)

text \<open>The response to an answer.\<close>

definition response_says :: "(string option \<Rightarrow> bool) \<Rightarrow> hyper_response \<Rightarrow> bool" where
  "response_says A r \<longleftrightarrow> (\<exists>t. A t \<and> hr_status r = 200 \<and> hr_body r = (case t of None \<Rightarrow> [] | Some t \<Rightarrow> t @ newline))"

lemma waiting_run:
  assumes "surely f A" and "list_ex fst polls"
  shows "\<exists>r w'. rpc_run ops polls (h\<lparr>rh_state := Waiting f\<rparr>, w) = Some (Ok r, w') \<and> response_says A r"
  using assms(2)
proof (induction polls arbitrary: w)
  case (Cons p polls)
  obtain ready g where p: "p = (ready, g)" by fastforce
  let ?h = "h\<lparr>rh_state := Waiting f\<rparr>"
  show ?case
  proof (cases ready)
    case True
    obtain t w' where t: "f (g w) = Some (t, w')" "A t" using surelyD [OF assms(1)] by blast
    let ?res = "case t of None \<Rightarrow> response_ok [] | Some t \<Rightarrow> response_ok (t @ newline)"
    have "rpc_step ops ready ?h (g w) = (Ok (Writing ?res, True), ?h, w')"
      using True t(1) by (simp add: rpc_step_def poll_fut_def)
    from rpc_poll_write [OF this] have "rpc_run ops (p # polls) (?h, w) = Some (Ok (finish ?h ?res), w')" by (simp add: p)
    moreover have "response_says A (finish ?h ?res)"
      using t(2) by (cases t) (auto simp: response_says_def finish_fields response_ok_def)
    ultimately show ?thesis by blast
  next
    case False
    then have "rpc_run ops (p # polls) (?h, w) = rpc_run ops polls (?h, g w)"
      by (simp add: p rpc_poll.simps rpc_step_def poll_fut_def)
    then show ?thesis using Cons False p by simp
  qed
qed simp

text \<open>A body that was read completely.\<close>

lemma complete_run:
  assumes "\<And>w. op_upgrade ops w = Some rpc" and "s \<noteq> []" and "utf8_valid s" and "list_ex fst polls"
    and "\<And>w. surely (fst (handle_request (op_read_request ops) (op_response_text ops) (op_sched ops) (rpc_handler rpc) s metadata w)) A"
  shows "\<exists>r w'. rpc_run ops polls (h\<lparr>rh_state := ReadingBody [] uri s metadata\<rparr>, w) = Some (Ok r, w') \<and> response_says A r"
proof -
  obtain ready g polls' where p: "polls = (ready, g) # polls'" using assms(4) by (cases polls) auto
  obtain f w1 where f: "handle_request (op_read_request ops) (op_response_text ops) (op_sched ops) (rpc_handler rpc) s metadata (g w) = (f, w1)"
    by fastforce
  let ?h = "h\<lparr>rh_state := ReadingBody [] uri s metadata\<rparr>"
  have "rpc_step ops ready ?h (g w) = (Ok (Waiting f, True), ?h, w1)"
    using assms(1-3) f by (simp add: rpc_step_def body_complete_def)
  from rpc_poll_advance [OF this] have "rpc_run ops polls (?h, w) = rpc_run ops ((ready, \<lambda>_. w1) # polls') (h\<lparr>rh_state := Waiting f\<rparr>, w)"
    by (simp add: p)
  then show ?thesis using waiting_run [of f A "(ready, \<lambda>_. w1) # polls'" ops h w] assms(4) assms(5) [of "g w"] f p by simp
qed

text \<open>A request that passes the checks and whose body fits is answered by the handler, with metadata that was extracted
  from it, once the pauses of its body are over and the future of the handler is ready.\<close>

lemma post_served:
  assumes "\<And>w. op_upgrade ops w = Some rpc" and "sh_middleware sh = noop_request_middleware" and "sh_max_request_body_size sh < 2 ^ 64"
    and "op_to_str ops ''application/json'' = Some ''application/json''"
    and "arrives_as (http_request url s) req" and "http_allows ops sh req" and "list_ex fst (drop (pauses (rq_body req)) polls)"
    and "s \<noteq> []" and "utf8_valid s" and "length s \<le> sh_max_request_body_size sh"
    and "\<And>w0 w. surely (fst (handle_request (op_read_request ops) (op_response_text ops) (op_sched ops) (rpc_handler rpc) s
      (fst (rpc_extractor rpc req w0)) w)) A"
  shows "\<exists>r w'. http_run ops polls (service_call ops sh req w) = Some (Ok r, w') \<and> response_says A r"
proof -
  have req: "rq_method req = METHOD_POST" "is_json (op_to_str ops) (headers_get (rq_headers req) ''content-type'')"
    "body_text (rq_body req) = s" "no_body_error (rq_body req)"
    using assms(4,5) by (auto simp: arrives_as_def http_request_def is_json_def eq_ignore_ascii_case_def)
  obtain h where h: "service_call ops sh req w = (HandlerRpc h, w)" "rh_max_request_body_size h = sh_max_request_body_size sh"
    "rh_state h = ReadingHeaders req (sh_cors_domains sh) (sh_cors_allowed_headers sh) False (sh_keep_alive sh)"
    using assms(2,6) by (auto simp: service_call_def noop_request_middleware_def http_allows_def)
  obtain ready g polls' where p: "polls = (ready, g) # polls'" using assms(7) by (cases polls) auto
  obtain metadata w0 where m: "rpc_extractor rpc req (g w) = (metadata, w0)" by fastforce
  let ?h = "headers_read ops h req (sh_cors_domains sh) (sh_cors_allowed_headers sh) (sh_keep_alive sh)"
  let ?uri = "if rh_rest_api h \<noteq> RestDisabled then Some (rq_path req) else None"
  let ?polls = "(ready, \<lambda>_. w0) # polls'"
  have "read_headers ops ?h req False (g w) = (ReadingBody (rq_body req) ?uri [] metadata, w0)"
    using req(1,2) m assms(1) assms(6) by (simp add: read_headers_def headers_read_def http_allows_def)
  from rpc_poll_advance [OF rpc_step_headers [OF h(3) this]]
  have "rpc_run ops polls (h, w) = rpc_run ops ?polls (?h\<lparr>rh_state := ReadingBody (rq_body req) ?uri [] metadata\<rparr>, w)" by (simp add: p)
  also have "\<dots> = rpc_run ops (drop (pauses (rq_body req)) ?polls)
      (?h\<lparr>rh_state := ReadingBody [] ?uri s metadata\<rparr>, world_after (take (pauses (rq_body req)) ?polls) w)"
  proof -
    have "rh_max_request_body_size ?h = sh_max_request_body_size sh" using h(2) by (simp add: headers_read_def)
    moreover have "pauses (rq_body req) < length polls" using assms(7) by (cases "pauses (rq_body req) < length polls") auto
    ultimately show ?thesis
      using body_run [of ?h "[]" "rq_body req" ?polls ops ?uri metadata w] assms(3,10) req(3,4) p by simp
  qed
  finally have run: "rpc_run ops polls (h, w) = rpc_run ops (drop (pauses (rq_body req)) ?polls)
      (?h\<lparr>rh_state := ReadingBody [] ?uri s metadata\<rparr>, world_after (take (pauses (rq_body req)) ?polls) w)" .
  have "list_ex fst (drop (pauses (rq_body req)) ?polls)" using assms(7) p by (cases "pauses (rq_body req)") auto
  moreover have "metadata = fst (rpc_extractor rpc req (g w))" using m by simp
  ultimately show ?thesis unfolding h(1) http_run_rpc run using complete_run [OF assms(1,8,9)] assms(11) by blast
qed

section \<open>The requests of the client\<close>

text \<open>A subscribe request is not supported over HTTP and is skipped.\<close>

definition http_supported :: "('n, 'c, 's) rpc_message \<Rightarrow> bool" where
  "http_supported m \<longleftrightarrow> (case m of MsgSubscribe _ \<Rightarrow> False | _ \<Rightarrow> True)"

fun item_job :: "('n request \<Rightarrow> string) \<Rightarrow> ('n, 'c, 's) out_item \<Rightarrow> 'c http_job" where
  "item_job to_string (OutCall mc p) =
     (to_string (SingleRequest (MethodCall mc)), case p of PendingCall c \<Rightarrow> Some c | PendingSubscription _ \<Rightarrow> None)"
| "item_job to_string (OutNote n) = (to_string (SingleRequest (Notification n)), None)"

lemma item_job_text [simp]: "fst (item_job to_string z) = to_string (SingleRequest (item_call z))"
  by (cases z) simp_all

lemma http_jobs_items:
  "http_jobs to_string b ms = map (item_job to_string) (request_items (rb_id b) (filter http_supported ms))"
proof (induction ms arbitrary: b)
  case (Cons m ms)
  then show ?case
    by (cases m) (simp_all add: http_supported_def call_request_def single_request_def rb_next_id_def notification_request_def)
qed simp

lemma supported_calls: "(mc, p) \<in> set (open_calls (request_items k (filter http_supported ms))) \<Longrightarrow> \<exists>c. p = PendingCall c"
proof (induction ms arbitrary: k)
  case (Cons m ms)
  then show ?case by (cases m) (auto simp: http_supported_def)
qed simp

text \<open>The answers that are due to the callers, in the order of the calls.\<close>

lemma due_items:
  assumes "\<And>z. z \<in> set zs \<Longrightarrow> respond (to_string (SingleRequest (item_call z))) \<noteq> None"
    and "\<And>mc p. (mc, p) \<in> set (open_calls zs) \<Longrightarrow> \<exists>c. p = PendingCall c"
  shows "\<exists>log. (\<Sum>j\<in>#mset (map (item_job to_string) zs). due answer respond j) = mset log \<and>
    list_all2 (\<lambda>(mc, p) (c, res). p = PendingCall c \<and>
      (\<exists>out. respond (to_string (SingleRequest (MethodCall mc))) = Some out \<and> res = answer out)) (open_calls zs) log"
  using assms
proof (induction zs)
  case (Cons z zs)
  then obtain log where log: "(\<Sum>j\<in>#mset (map (item_job to_string) zs). due answer respond j) = mset log"
    "list_all2 (\<lambda>(mc, p) (c, res). p = PendingCall c \<and>
      (\<exists>out. respond (to_string (SingleRequest (MethodCall mc))) = Some out \<and> res = answer out)) (open_calls zs) log"
    by fastforce
  show ?case
  proof (cases z)
    case (OutCall mc p)
    obtain c where "p = PendingCall c" using Cons.prems(2) [of mc p] OutCall by auto
    moreover obtain out where "respond (to_string (SingleRequest (MethodCall mc))) = Some out" using Cons.prems(1) [of z] OutCall by auto
    ultimately show ?thesis using log OutCall by (intro exI [of _ "(c, answer out) # log"]) (simp add: due_def)
  next
    case (OutNote n)
    then show ?thesis using log by (intro exI [of _ log]) (simp add: due_def)
  qed
qed simp

section \<open>A client and a server over HTTP\<close>

text \<open>What the client gets back for the text of a request: the response of the server to the request as it arrives there,
  when the server is polled as \<open>polls\<close> says; nothing when it has not answered by then. An error of the connection on the server
  is an error of the client's connection.\<close>

definition http_respond ::
    "('n, 'm, 'w, 'g, 'e, 'x) http_ops \<Rightarrow> ('w, 'g, 'e) server_handler \<Rightarrow> (string \<Rightarrow> 'e http_request)
     \<Rightarrow> (string \<Rightarrow> (bool \<times> ('w \<Rightarrow> 'w)) list) \<Rightarrow> (string \<Rightarrow> 'w) \<Rightarrow> ('e \<Rightarrow> 'y) \<Rightarrow> string \<Rightarrow> 'y http_outcome option" where
  "http_respond ops sh arrive polls world fail s =
     (case http_run ops (polls s) (service_call ops sh (arrive s) (world s)) of
        None \<Rightarrow> None
      | Some (Ok r, _) \<Rightarrow> Some (HttpResponse (of_nat (hr_status r)) (Ok (hr_body r)))
      | Some (Err e, _) \<Rightarrow> Some (HttpFailed (fail e)))"

text \<open>A request reaches the server: it arrives as it was sent, the checks pass, and the server is polled often enough.\<close>

definition http_delivered ::
    "('n, 'm, 'w, 'g, 'e, 'x) http_ops \<Rightarrow> ('w, 'g, 'e) server_handler \<Rightarrow> string \<Rightarrow> (string \<Rightarrow> 'e http_request)
     \<Rightarrow> (string \<Rightarrow> (bool \<times> ('w \<Rightarrow> 'w)) list) \<Rightarrow> string \<Rightarrow> bool" where
  "http_delivered ops sh url arrive polls s \<longleftrightarrow> arrives_as (http_request url s) (arrive s) \<and> http_allows ops sh (arrive s) \<and>
     list_ex fst (drop (pauses (rq_body (arrive s))) (polls s))"

text \<open>C18: a client and a server over HTTP. Whatever messages the handle of the client sends, in whatever chunks and with whatever
  pauses the bodies arrive at the server, however the world of the server changes between its polls, and in whatever order the responses come
  back: when every request is delivered and the server is not closing, the client task gets its work done (it is not stuck before,
  and no run of it is endless), and then exactly the
  calls have been answered, each once, with the result that its method gave on the server (or the error for an unknown
  method), for metadata that was extracted from its own request. Subscribe requests are skipped.\<close>

theorem http_client_answered:
  fixes ms :: "('n, 'c, 's) rpc_message list" and ops :: "('n, 'm, 'w, 'g, 'e, 'x) http_ops"
  assumes "\<And>x. as_u64 (from_u64 x) = Some x" and "\<And>x. as_i64 (from_i64 x) = Some x"
    and "\<And>w. op_upgrade ops w = Some rpc" and h: "h = rpc_handler rpc" and "middleware h = Noop" and "procs_resolve h"
    and "sh_middleware sh = noop_request_middleware" and "sh_max_request_body_size sh < 2 ^ 64"
    and "op_to_str ops ''application/json'' = Some ''application/json''"
    and items: "items = request_items 0 (filter http_supported ms)"
    and "\<And>c s. c \<in> item_call ` set items \<Longrightarrow> s = to_string (SingleRequest c) \<Longrightarrow>
      s = write (se_call from_u64 c) \<and> s \<noteq> [] \<and> utf8_valid s \<and> length s \<le> sh_max_request_body_size sh \<and>
      read_as (op_read_request ops) (\<lambda>m. map_option SingleRequest (de_call as_u64 m)) write (se_call from_u64 c)"
    and "\<And>mc meta r out. MethodCall mc \<in> item_call ` set items \<Longrightarrow> call_result any_time h meta mc r \<Longrightarrow>
      out = output_from r (mc_id mc) (mc_jsonrpc mc) \<Longrightarrow>
      wire_stable r \<and> op_response_text ops (SingleResponse out) = write (se_output from_u64 from_i64 out) \<and>
      utf8_valid (write (se_output from_u64 from_i64 out)) \<and>
      read_as (\<lambda>s. client_read (s @ newline)) (de_client_response as_u64 as_i64) write (se_output from_u64 from_i64 out)"
    and "\<And>c. c \<in> item_call ` set items \<Longrightarrow> http_delivered ops sh url arrive polls (to_string (SingleRequest c))"
    and step: "step = http_step to_string (http_answer status_text as_u64 as_i64 client_read) (http_respond ops sh arrive polls world fail)"
  shows "(\<exists>t. reaches step (http_start ms) t \<and> http_finished t) \<and>
    (\<exists>n. \<forall>k t. (step ^^ k) (http_start ms) t \<longrightarrow> k \<le> n) \<and>
    (\<forall>t. reaches step (http_start ms) t \<and> \<not> http_finished t \<longrightarrow> (\<exists>t'. step t t')) \<and>
    (\<forall>t. reaches step (http_start ms) t \<and> http_finished t \<longrightarrow>
       (\<exists>log. mset (ht_answers t) = mset log \<and>
          list_all2 (\<lambda>(mc, p) (c, res). p = PendingCall c \<and> (\<exists>w r. res = map_err JsonRpcError r \<and>
            call_result any_time h (fst (rpc_extractor rpc (arrive (to_string (SingleRequest (MethodCall mc)))) w)) mc r)) (open_calls items) log))"
proof -
  let ?respond = "http_respond ops sh arrive polls world fail"
  let ?answer = "http_answer status_text as_u64 as_i64 client_read"
  let ?meta = "\<lambda>c w. fst (rpc_extractor rpc (arrive (to_string (SingleRequest c))) w)"
  have served: "\<exists>r w'. http_run ops (polls (to_string (SingleRequest c))) (service_call ops sh (arrive (to_string (SingleRequest c))) (world (to_string (SingleRequest c)))) =
      Some (Ok r, w') \<and> response_says (\<lambda>t. \<exists>w. handler_reply any_time (op_response_text ops) h (?meta c w) c t) r"
    if c: "c \<in> item_call ` set items" for c
  proof (rule post_served [OF assms(3,7,8,9)])
    let ?s = "to_string (SingleRequest c)"
    show "arrives_as (http_request url ?s) (arrive ?s)" "http_allows ops sh (arrive ?s)"
      "list_ex fst (drop (pauses (rq_body (arrive ?s))) (polls ?s))" using assms(13) [OF c] by (simp_all add: http_delivered_def)
    show "?s \<noteq> []" "utf8_valid ?s" "length ?s \<le> sh_max_request_body_size sh" using assms(11) [OF c refl] by blast+
    have "op_read_request ops ?s = Ok (SingleRequest c)"
      using assms(11) [OF c refl] by (simp add: read_as_def de_call_se assms(1))
    from handler_reply_future [of h "op_read_request ops" ?s c, OF assms(5) this assms(6)]
    show "surely (fst (handle_request (op_read_request ops) (op_response_text ops) (op_sched ops) (rpc_handler rpc) ?s (?meta c w0) w))
        (\<lambda>t. \<exists>w. handler_reply any_time (op_response_text ops) h (?meta c w) c t)" for w0 w
      unfolding h by (rule surely_mono) blast
  qed
  have responds: "?respond (to_string (SingleRequest c)) \<noteq> None" if "c \<in> item_call ` set items" for c
    using served [OF that] by (auto simp: http_respond_def)
  have result: "\<exists>w r. ?answer out = map_err JsonRpcError r \<and> call_result any_time h (?meta (MethodCall mc) w) mc r"
    if mc: "MethodCall mc \<in> item_call ` set items" and out: "?respond (to_string (SingleRequest (MethodCall mc))) = Some out" for mc out
  proof -
    obtain res w' where run: "http_run ops (polls (to_string (SingleRequest (MethodCall mc)))) (service_call ops sh
        (arrive (to_string (SingleRequest (MethodCall mc)))) (world (to_string (SingleRequest (MethodCall mc))))) = Some (Ok res, w')"
      and says: "response_says (\<lambda>t. \<exists>w. handler_reply any_time (op_response_text ops) h (?meta (MethodCall mc) w) (MethodCall mc) t) res"
      using served [OF mc] by blast
    obtain w r where r: "call_result any_time h (?meta (MethodCall mc) w) mc r"
      and body: "hr_status res = 200" "hr_body res = op_response_text ops (SingleResponse (output_from r (mc_id mc) (mc_jsonrpc mc))) @ newline"
      using says by (auto simp: response_says_def)
    have res: "out = HttpResponse (of_nat (hr_status res)) (Ok (hr_body res))" "hr_status res = 200"
      "hr_body res = op_response_text ops (SingleResponse (output_from r (mc_id mc) (mc_jsonrpc mc))) @ newline"
      using run out body by (simp_all add: http_respond_def)
    let ?out = "output_from r (mc_id mc) (mc_jsonrpc mc)"
    note wire = assms(12) [OF mc r refl]
    then have "utf8_valid (hr_body res)" using res(3) by (simp add: utf8_valid_append newline_def in_range_def)
    moreover have "parse_response as_u64 as_i64 client_read (hr_body res) = Ok (mc_id mc, map_err JsonRpcError r, None, None)"
    proof -
      have "de_client_response as_u64 as_i64 (se_output from_u64 from_i64 ?out) = Some (ClientOutput ?out)"
        by (rule de_response_se) (use assms(1,2) wire in simp_all)
      then have "client_read (hr_body res) = Ok (ClientOutput ?out)" using wire res(3) by (simp add: read_as_def del: output_from.simps)
      then show ?thesis by (cases r) (simp_all add: parse_response_def)
    qed
    ultimately have "?answer out = map_err JsonRpcError r"
      using res(1,2) by (cases r) (simp_all add: http_answer_def status_is_success_def from_utf8_lossy_valid)
    then show ?thesis using r by blast
  qed
  have jobs: "http_jobs to_string request_builder_new ms = map (item_job to_string) items"
    by (simp add: http_jobs_items items request_builder_new_def)
  have all: "\<forall>j \<in> set (http_jobs to_string request_builder_new ms). ?respond (fst j) \<noteq> None"
    using responds by (auto simp: jobs)
  obtain log where log: "(\<Sum>j\<in>#mset (map (item_job to_string) items). due ?answer ?respond j) = mset log"
    "list_all2 (\<lambda>(mc, p) (c, res). p = PendingCall c \<and>
      (\<exists>out. ?respond (to_string (SingleRequest (MethodCall mc))) = Some out \<and> res = ?answer out)) (open_calls items) log"
    using due_items [of items ?respond to_string ?answer] responds supported_calls unfolding items by blast
  have "list_all2 (\<lambda>(mc, p) (c, res). p = PendingCall c \<and> (\<exists>w r. res = map_err JsonRpcError r \<and>
      call_result any_time h (?meta (MethodCall mc) w) mc r)) (open_calls items) log"
    by (rule list.rel_mono_strong [OF log(2)]) (use result open_calls_item in fastforce)
  moreover have "mset (ht_answers t) = mset log" if "reaches step (http_start ms) t" "http_finished t" for t
    using http_jobs_answered(4) [OF all] that log(1) unfolding step jobs by metis
  ultimately show ?thesis using http_jobs_answered(1,2,3) [OF all] unfolding step by blast
qed

text \<open>A concrete client and server: one call, whose body arrives in two chunks with a pause; the extractor counts requests.\<close>

definition web_call :: "u64 method_call" where
  "web_call = \<lparr>mc_jsonrpc = Some V2, mc_method = ''greet'', mc_params = ParamsArray [VBool True], mc_id = IdNum 0\<rparr>"

definition web_rpc :: "(u64, unit, nat, unit) rpc" where
  "web_rpc = \<lparr>rpc_handler = add_method_with_meta ''greet'' (\<lambda>p m w. (fut_ready (Ok (params_into_json p)), w + 1)) default_handler,
     rpc_extractor = (\<lambda>_ w. ((), Suc w))\<rparr>"

definition web_ops :: "(u64, unit, nat, unit, unit, unit) http_ops" where
  "web_ops =
     \<lparr>op_glob_build = (\<lambda>_. None), op_is_match = (\<lambda>_ _. False), op_to_str = Some, op_from_str = Some,
      op_upgrade = (\<lambda>_. Some web_rpc),
      op_read_request = (\<lambda>s. if s = ''call'' then Ok (SingleRequest (MethodCall web_call)) else Err ()),
      op_read_value = (\<lambda>_. Err ()), op_response_text = (\<lambda>_. ''reply''), op_value_text = (\<lambda>_. []),
      op_error_text = (\<lambda>_. []), op_debug = (\<lambda>_. []), op_sched = []\<rparr>"

definition web_server :: "(nat, unit, unit) server_handler" where
  "web_server =
     \<lparr>sh_allowed_hosts = None, sh_cors_domains = None, sh_cors_max_age = None, sh_cors_allowed_headers = HeadersAny,
      sh_middleware = noop_request_middleware, sh_rest_api = RestDisabled, sh_health_api = None,
      sh_max_request_body_size = 4, sh_keep_alive = True\<rparr>"

definition web_arrive :: "string \<Rightarrow> unit http_request" where
  "web_arrive s = \<lparr>rq_method = METHOD_POST, rq_path = ''/'',
     rq_headers = [(''content-type'', ''application/json''), (''accept'', ''application/json'')],
     rq_body = [BodyChunk (take 2 s), BodyPending, BodyChunk (drop 2 s)]\<rparr>"

definition web_write :: "(string, u64 json) fmap \<Rightarrow> string" where
  "web_write m = (if fmlookup m ''method'' = None then ''reply'' else ''call'')"

definition web_client_read :: "string \<Rightarrow> (u64 client_response, string \<times> unit) result" where
  "web_client_read s = (if s = ''reply'' @ newline then Ok (ClientOutput (Success
     \<lparr>su_jsonrpc = Some V2, su_result = VArray [VBool True], su_id = IdNum 0\<rparr>)) else Err (''x'', ()))"

definition web_messages :: "(u64, nat, unit) rpc_message list" where
  "web_messages = [MsgCall \<lparr>cm_method = ''greet'', cm_params = ParamsArray [VBool True], cm_sender = 7\<rparr>]"

lemma web_items: "request_items 0 (filter http_supported web_messages) = [OutCall web_call (PendingCall 7)]"
  by (simp add: web_messages_def http_supported_def web_call_def)

lemma web_handler: "middleware (rpc_handler web_rpc) = Noop" "procs_resolve (rpc_handler web_rpc)"
    "call_result any_time (rpc_handler web_rpc) meta web_call r \<longleftrightarrow> r = Ok (VArray [VBool True])"
proof -
  note defs = web_rpc_def default_handler_def with_compatibility_def default_compatibility_def add_method_with_meta_def methods_insert_def
  show "middleware (rpc_handler web_rpc) = Noop" "procs_resolve (rpc_handler web_rpc)"
    by (auto simp: defs procs_resolve_def split: if_splits)
  show "call_result any_time (rpc_handler web_rpc) meta web_call r \<longleftrightarrow> r = Ok (VArray [VBool True])"
    by (auto simp: defs web_call_def call_result_def resolve_method_def fut_ready_def)
qed

lemma web_delivered: "http_delivered web_ops web_server url web_arrive (\<lambda>_. [(False, \<lambda>w. w), (False, Suc), (True, Suc)]) ''call''"
  by (auto simp: http_delivered_def arrives_as_def http_request_def web_arrive_def headers_get_def http_allows_def web_ops_def web_server_def
      is_host_allowed_def cors_allow_origin_def cors_allow_headers_def read_header_def get_cors_allow_origin_def get_cors_allow_headers_def
      requested_headers_def headers_get_all_def map_filter_simps)

lemma web_request:
  "''call'' = web_write (se_call (\<lambda>x. x) (MethodCall web_call)) \<and> ''call'' \<noteq> [] \<and> utf8_valid ''call'' \<and>
   length ''call'' \<le> sh_max_request_body_size web_server \<and>
   read_as (op_read_request web_ops) (\<lambda>m. map_option SingleRequest (de_call Some m)) web_write (se_call (\<lambda>x. x) (MethodCall web_call))"
proof -
  have w: "web_write (se_call (\<lambda>x. x) (MethodCall web_call)) = ''call''"
    by (simp add: web_write_def web_call_def)
  have d: "de_call Some (se_call (\<lambda>x. x) (MethodCall web_call)) = Some (MethodCall web_call)"
    by (rule de_call_se) simp
  have "read_as (op_read_request web_ops) (\<lambda>m. map_option SingleRequest (de_call Some m)) web_write (se_call (\<lambda>x. x) (MethodCall web_call))"
    unfolding read_as_def d w by (simp add: web_ops_def)
  moreover have "utf8_valid ''call''" by (simp add: in_range_def)
  ultimately show ?thesis using w by (simp add: web_server_def)
qed

theorem http_client_answered_witness:
  "\<exists>t. reaches (http_step (\<lambda>_. ''call'') (http_answer (\<lambda>_. []) Some Some web_client_read)
        (http_respond web_ops web_server web_arrive (\<lambda>_. [(False, \<lambda>w. w), (False, Suc), (True, Suc)]) (\<lambda>_. 3) (\<lambda>_. ())))
      (http_start web_messages) t \<and> http_finished t \<and> mset (ht_answers t) = {#(7, Ok (VArray [VBool True]))#}"
proof -
  let ?step = "http_step (\<lambda>_. ''call'') (http_answer (\<lambda>_. []) Some Some web_client_read)
        (http_respond web_ops web_server web_arrive (\<lambda>_. [(False, \<lambda>w. w), (False, Suc), (True, Suc)]) (\<lambda>_. 3) (\<lambda>_. ()))"
  have "(\<exists>t. reaches ?step (http_start web_messages) t \<and> http_finished t) \<and>
    (\<exists>n. \<forall>k t. (?step ^^ k) (http_start web_messages) t \<longrightarrow> k \<le> n) \<and>
    (\<forall>t. reaches ?step (http_start web_messages) t \<and> \<not> http_finished t \<longrightarrow> (\<exists>t'. ?step t t')) \<and>
    (\<forall>t. reaches ?step (http_start web_messages) t \<and> http_finished t \<longrightarrow>
       (\<exists>log. mset (ht_answers t) = mset log \<and>
          list_all2 (\<lambda>(mc, p) (c, res). p = PendingCall c \<and> (\<exists>w r. res = map_err JsonRpcError r \<and>
            call_result any_time (rpc_handler web_rpc) (fst (rpc_extractor web_rpc (web_arrive ''call'') w)) mc r))
            (open_calls (request_items 0 (filter http_supported web_messages))) log))"
  proof (rule http_client_answered [OF _ _ _ refl web_handler(1,2) _ _ _ refl _ _ _ refl])
    fix c s assume "c \<in> item_call ` set (request_items 0 (filter http_supported web_messages))" "s = ''call''"
    then have "c = MethodCall web_call" "s = ''call''" by (simp_all add: web_items)
    then show "s = web_write (se_call (\<lambda>x. x) c) \<and> s \<noteq> [] \<and> utf8_valid s \<and> length s \<le> sh_max_request_body_size web_server \<and>
        read_as (op_read_request web_ops) (\<lambda>m. map_option SingleRequest (de_call Some m)) web_write (se_call (\<lambda>x. x) c)"
      using web_request by blast
  next
    fix mc meta r out assume "MethodCall mc \<in> item_call ` set (request_items 0 (filter http_supported web_messages))"
      "call_result any_time (rpc_handler web_rpc) meta mc r" "out = output_from r (mc_id mc) (mc_jsonrpc mc)"
    then have "mc = web_call" "r = Ok (VArray [VBool True])" "out = output_from r (mc_id mc) (mc_jsonrpc mc)"
      by (auto simp: web_items web_handler)
    then show "wire_stable r \<and> op_response_text web_ops (SingleResponse out) = web_write (se_output (\<lambda>x. x) (\<lambda>x. x) out) \<and>
        utf8_valid (web_write (se_output (\<lambda>x. x) (\<lambda>x. x) out)) \<and>
        read_as (\<lambda>s. web_client_read (s @ newline)) (de_client_response Some Some) web_write (se_output (\<lambda>x. x) (\<lambda>x. x) out)"
      by (simp add: web_call_def web_ops_def web_write_def web_client_read_def read_as_def in_range_def de_client_response_def de_output_def
          de_success_def member_simps)
  next
    fix c assume "c \<in> item_call ` set (request_items 0 (filter http_supported web_messages))"
    show "http_delivered web_ops web_server [] web_arrive (\<lambda>_. [(False, \<lambda>w. w), (False, Suc), (True, Suc)]) ''call''"
      by (rule web_delivered)
  qed (simp_all add: web_server_def web_ops_def)
  then show ?thesis by (fastforce simp: web_items list_all2_Cons1 web_handler)
qed

end
