(* ===== verification/Derive_Attr.thy ===== *)
theory Derive_Attr
  imports Prelude
begin

text \<open>
  The attributes of the \<open>rpc\<close> procedural macro (\<open>derive/src/params_style.rs\<close>, \<open>options.rs\<close> and
  \<open>rpc_attr.rs\<close>): reading the options of the macro and the \<open>rpc\<close> and \<open>pubsub\<close> attributes of trait
  methods, with their error messages.

  The syntax trees of the \<open>syn\<close> crate that the macro looks at are datatypes here: paths, meta
  items, types, arguments. What the macro does not look at inside a tree is an opaque text.
  Spans of errors are left out.
\<close>

section \<open>Syntax trees\<close>

datatype syn_path = SynPath (leading_colon: bool) (segments: "string list")

datatype syn_lit = LitStr string | LitOther string

datatype syn_meta =
    MetaPath syn_path
  | MetaList syn_path "nested_meta list"
  | MetaNameValue syn_path syn_lit
and nested_meta = NestedMeta syn_meta | NestedLit syn_lit

text \<open>A type path carries what stands before its segments, a qualified self type or leading colons:
  its text and the types inside it, both empty for a plain path. The second field of a tuple type
  tells of a trailing comma. A function type, \<open>fn(..) -> ..\<close> or the arguments of \<open>Fn(..) -> ..\<close>, has the
  types of its arguments and a return type. Where only the types inside a construct matter, its text
  and those types are kept (the bounds of \<open>dyn\<close> and \<open>impl\<close> as paths).\<close>

datatype syn_type =
    TypePath string "syn_type list" "path_segment list"
  | TypeTuple "syn_type list" bool
  | TypeBareFn string "syn_type list" return_type
  | TypeOther string "syn_type list"
and path_segment = Segment string path_arguments
and path_arguments = NoArguments | AngleBracketed "generic_argument list" | Parenthesized "syn_type list" return_type
and generic_argument = GenType syn_type | GenOther string "syn_type list"
and return_type = ReturnDefault | ReturnType syn_type

abbreviation plain_path :: "path_segment list \<Rightarrow> syn_type" where
  "plain_path segs \<equiv> TypePath [] [] segs"

fun seg_ident :: "path_segment \<Rightarrow> string" where
  "seg_ident (Segment i _) = i"

datatype syn_pat = PatIdent string | PatWild | PatOther

datatype fn_arg = Receiver | Typed syn_pat syn_type

text \<open>A method of the trait: its attributes, as the result of reading each as a meta item, and its
  signature.\<close>

record trait_method =
  tm_ident :: string
  tm_attrs :: "(syn_meta, string) result list"
  tm_inputs :: "fn_arg list"
  tm_output :: return_type

fun get_ident :: "syn_path \<Rightarrow> string option" where
  "get_ident (SynPath False [i]) = Some i"
| "get_ident _ = None"

fun meta_path :: "syn_meta \<Rightarrow> syn_path" where
  "meta_path (MetaPath p) = p"
| "meta_path (MetaList p _) = p"
| "meta_path (MetaNameValue p _) = p"

definition path_eq_str :: "syn_path \<Rightarrow> string \<Rightarrow> bool" where
  "path_eq_str p s = (case get_ident p of Some i \<Rightarrow> i = s | None \<Rightarrow> False)"

definition path_to_str :: "syn_path \<Rightarrow> string option" where
  "path_to_str p = get_ident p"

section \<open>Styles of parameters\<close>

datatype param_style = Positional | Named | Raw

definition default_param_style :: param_style where
  "default_param_style = Positional"

definition param_style_from_str :: "string \<Rightarrow> (param_style, string) result" where
  "param_style_from_str s =
     (if s = ''positional'' then Ok Positional
      else if s = ''named'' then Ok Named
      else if s = ''raw'' then Ok Raw
      else Err ''Invalid value for params key. Must be one of [positional, named, raw]'')"

section \<open>Options of the macro\<close>

text \<open>The outcome of a stage of the macro: its product, an error reported to the user of the macro,
  or a panic of the macro.\<close>

datatype 'a expansion = Expanded 'a | ExpandError string | ExpandPanic

fun exp_bind :: "'a expansion \<Rightarrow> ('a \<Rightarrow> 'b expansion) \<Rightarrow> 'b expansion" where
  "exp_bind (Expanded a) f = f a"
| "exp_bind (ExpandError e) f = ExpandError e"
| "exp_bind ExpandPanic f = ExpandPanic"

definition exp_map :: "('a \<Rightarrow> 'b) \<Rightarrow> 'a expansion \<Rightarrow> 'b expansion" where
  "exp_map f x = exp_bind x (\<lambda>a. Expanded (f a))"

fun exp_result :: "('a, string) result \<Rightarrow> 'a expansion" where
  "exp_result (Ok a) = Expanded a"
| "exp_result (Err e) = ExpandError e"

text \<open>The products of a list of stages, or the first error or panic.\<close>

fun exp_collect :: "'a expansion list \<Rightarrow> 'a list expansion" where
  "exp_collect [] = Expanded []"
| "exp_collect (x # xs) = exp_bind x (\<lambda>a. exp_map (\<lambda>as. a # as) (exp_collect xs))"

record derive_options =
  enable_client :: bool
  enable_server :: bool
  options_params_style :: param_style

definition derive_options_new :: "bool \<Rightarrow> bool \<Rightarrow> param_style \<Rightarrow> derive_options" where
  "derive_options_new c s p = \<lparr>enable_client = c, enable_server = s, options_params_style = p\<rparr>"

fun options_arg :: "nested_meta \<Rightarrow> derive_options \<Rightarrow> (derive_options, string) result" where
  "options_arg (NestedMeta (MetaPath p)) opts =
     (case get_ident p of
        None \<Rightarrow> Err ''Expecting identifier `client` or `server`''
      | Some i \<Rightarrow>
          Ok (if i = ''client'' then opts\<lparr>enable_client := True\<rparr>
              else if i = ''server'' then opts\<lparr>enable_server := True\<rparr> else opts))"
| "options_arg (NestedMeta (MetaNameValue p lit)) opts =
     (if path_eq_str p ''params'' then
        (case lit of
           LitStr s \<Rightarrow> map_ok (\<lambda>st. opts\<lparr>options_params_style := st\<rparr>) (param_style_from_str s)
         | LitOther _ \<Rightarrow> Ok opts)
      else Err ''Unexpected RPC attribute key'')"
| "options_arg (NestedMeta (MetaList _ _)) opts = Err ''Unexpected use of RPC attribute macro''"
| "options_arg (NestedLit _) opts = Ok opts"

fun options_args :: "nested_meta list \<Rightarrow> derive_options \<Rightarrow> (derive_options, string) result" where
  "options_args [] opts = Ok opts"
| "options_args (a # as) opts = and_then (options_arg a opts) (options_args as)"

text \<open>Asking for named parameters on the server panics.\<close>

definition options_try_from :: "nested_meta list \<Rightarrow> derive_options expansion" where
  "options_try_from args =
     (case options_args args (derive_options_new False False default_param_style) of
        Err e \<Rightarrow> ExpandError e
      | Ok opts \<Rightarrow>
          (let opts = (if \<not> enable_client opts \<and> \<not> enable_server opts
                       then opts\<lparr>enable_client := True, enable_server := True\<rparr> else opts)
           in if enable_server opts \<and> options_params_style opts = Named then ExpandPanic else Expanded opts))"

section \<open>The attributes of a method\<close>

datatype pubsub_kind = SubscribeKind | UnsubscribeKind

datatype attribute_kind =
    RpcKind bool "string option" bool
  | PubSubKind string pubsub_kind

record rpc_attribute =
  at_attr :: "(syn_meta, string) result"
  at_name :: string
  at_aliases :: "string list"
  at_kind :: attribute_kind
  at_params_style :: "param_style option"

fun get_meta_list :: "syn_meta \<Rightarrow> nested_meta list option" where
  "get_meta_list (MetaList _ ml) = Some ml"
| "get_meta_list _ = None"

text \<open>The first string that a key is set to; a key set to another literal is passed over.\<close>

fun name_value_of :: "string \<Rightarrow> nested_meta \<Rightarrow> string option" where
  "name_value_of key (NestedMeta (MetaNameValue p (LitStr s))) = (if path_eq_str p key then Some s else None)"
| "name_value_of key _ = None"

fun find_map :: "('a \<Rightarrow> 'b option) \<Rightarrow> 'a list \<Rightarrow> 'b option" where
  "find_map f [] = None"
| "find_map f (x # xs) = (case f x of Some y \<Rightarrow> Some y | None \<Rightarrow> find_map f xs)"

definition get_name_value :: "string \<Rightarrow> nested_meta list \<Rightarrow> string option" where
  "get_name_value key ml = find_map (name_value_of key) ml"

fun is_meta_word :: "string \<Rightarrow> nested_meta \<Rightarrow> bool" where
  "is_meta_word word (NestedMeta (MetaPath p)) = path_eq_str p word"
| "is_meta_word word _ = False"

definition has_meta_word :: "string \<Rightarrow> nested_meta list \<Rightarrow> bool" where
  "has_meta_word word ml = list_ex (is_meta_word word) ml"

fun alias_list_of :: "nested_meta \<Rightarrow> nested_meta list option" where
  "alias_list_of (NestedMeta (MetaList p l)) = (if path_eq_str p ''alias'' then Some l else None)"
| "alias_list_of _ = None"

fun lit_str_of :: "nested_meta \<Rightarrow> string option" where
  "lit_str_of (NestedLit (LitStr s)) = Some s"
| "lit_str_of _ = None"

definition get_aliases :: "nested_meta list \<Rightarrow> string list" where
  "get_aliases ml = (case find_map alias_list_of ml of None \<Rightarrow> [] | Some l \<Rightarrow> List.map_filter lit_str_of l)"

definition get_params_style :: "nested_meta list \<Rightarrow> (param_style, string) result" where
  "get_params_style ml =
     (case get_name_value ''params'' ml of None \<Rightarrow> Ok default_param_style | Some s \<Rightarrow> param_style_from_str s)"

text \<open>The names of the direct members of a meta item: words, name-value pairs and lists.\<close>

fun member_word :: "nested_meta \<Rightarrow> string option" where
  "member_word (NestedMeta (MetaPath p)) = path_to_str p"
| "member_word _ = None"

fun member_name_value :: "nested_meta \<Rightarrow> string option" where
  "member_name_value (NestedMeta (MetaNameValue p _)) = path_to_str p"
| "member_name_value _ = None"

fun member_list :: "nested_meta \<Rightarrow> string option" where
  "member_list (NestedMeta (MetaList p _)) = path_to_str p"
| "member_list _ = None"

definition members :: "syn_meta \<Rightarrow> nested_meta list" where
  "members meta = (case get_meta_list meta of Some ml \<Rightarrow> ml | None \<Rightarrow> [])"

definition validate_idents :: "syn_meta \<Rightarrow> string list \<Rightarrow> string list \<Rightarrow> (syn_meta, string) result" where
  "validate_idents meta attr_idents valid =
     (let invalid = filter (\<lambda>w. w \<notin> set valid) attr_idents
      in if invalid = [] then Ok meta
         else Err (''Invalid attribute parameter(s): '' @ [CHR 0x27] @ join_str '', '' invalid @ [CHR 0x27] @ ''. '' @
                   ''Expected '' @ [CHR 0x27] @ join_str '', '' valid @ [CHR 0x27]))"

definition validate_attribute_meta :: "syn_meta \<Rightarrow> (syn_meta, string) result" where
  "validate_attribute_meta meta =
     (let words = List.map_filter member_word (members meta);
          names = List.map_filter member_name_value (members meta);
          lists = List.map_filter member_list (members meta);
          check = (\<lambda>valid_words valid_names.
            and_then (validate_idents meta words valid_words) (\<lambda>_.
            and_then (validate_idents meta names valid_names) (\<lambda>_.
              validate_idents meta lists [''alias''])))
      in case path_to_str (meta_path meta) of
           None \<Rightarrow> Ok meta
         | Some i \<Rightarrow>
             if i = ''rpc'' then check [''meta'', ''raw_params''] [''name'', ''returns'', ''params'']
             else if i = ''pubsub'' then check [''subscribe'', ''unsubscribe'', ''raw_params''] [''subscription'', ''name'']
             else Ok meta)"

text \<open>A tuple type counts as empty when it has no elements or ends in a comma.\<close>

fun is_notification_output :: "return_type \<Rightarrow> bool" where
  "is_notification_output ReturnDefault = True"
| "is_notification_output (ReturnType (TypeTuple elems trailing)) = (elems = [] \<or> trailing)"
| "is_notification_output (ReturnType _) = False"

definition meta_flag :: "string \<Rightarrow> syn_meta \<Rightarrow> bool" where
  "meta_flag word meta = (case get_meta_list meta of Some ml \<Rightarrow> has_meta_word word ml | None \<Rightarrow> False)"

definition parse_rpc :: "syn_meta \<Rightarrow> return_type \<Rightarrow> (attribute_kind, string) result" where
  "parse_rpc meta output =
     (let has_metadata = meta_flag ''meta'' meta;
          returns = Option.bind (get_meta_list meta) (get_name_value ''returns'');
          is_notification = is_notification_output output
      in if is_notification \<and> returns \<noteq> None then Err ''Notifications must return ()''
         else Ok (RpcKind has_metadata returns is_notification))"

definition parse_pubsub :: "syn_meta \<Rightarrow> (attribute_kind, string) result" where
  "parse_pubsub meta =
     (case Option.bind (get_meta_list meta) (\<lambda>ml. map_option (\<lambda>name. (name, ml)) (get_name_value ''subscription'' ml)) of
        None \<Rightarrow> Err ''pubsub attribute should have a subscription name''
      | Some (sub_name, ml) \<Rightarrow>
          (case (has_meta_word ''subscribe'' ml, has_meta_word ''unsubscribe'' ml) of
             (True, False) \<Rightarrow> Ok (PubSubKind sub_name SubscribeKind)
           | (False, True) \<Rightarrow> Ok (PubSubKind sub_name UnsubscribeKind)
           | (True, True) \<Rightarrow> Err ''pubsub attribute annotated with both subscribe and unsubscribe''
           | (False, False) \<Rightarrow> Err ''pubsub attribute not annotated with either subscribe or unsubscribe''))"

text \<open>Completing the attribute: its name, which is required, the aliases and the style.\<close>

definition complete_attribute :: "(syn_meta, string) result \<Rightarrow> syn_meta \<Rightarrow> attribute_kind \<Rightarrow> (rpc_attribute, string) result" where
  "complete_attribute attr meta kind =
     (case Option.bind (get_meta_list meta) (get_name_value ''name'') of
        None \<Rightarrow> Err (''rpc attribute should have a name e.g. `name = '' @ [CHR 0x22] @ ''method_name'' @ [CHR 0x22] @ ''`'')
      | Some name \<Rightarrow>
          (let aliases = (case get_meta_list meta of Some ml \<Rightarrow> get_aliases ml | None \<Rightarrow> []);
               params_style =
                 (if meta_flag ''raw_params'' meta then Ok (Some Raw)
                  else case get_meta_list meta of None \<Rightarrow> Ok None | Some ml \<Rightarrow> map_ok Some (get_params_style ml))
           in map_ok (\<lambda>st. \<lparr>at_attr = attr, at_name = name, at_aliases = aliases, at_kind = kind, at_params_style = st\<rparr>) params_style))"

definition parse_meta :: "(syn_meta, string) result \<Rightarrow> return_type \<Rightarrow> (rpc_attribute, string) result option" where
  "parse_meta attr output =
     (case and_then attr validate_attribute_meta of
        Err e \<Rightarrow> Some (Err e)
      | Ok meta \<Rightarrow>
          map_option (\<lambda>kind. and_then kind (complete_attribute attr meta))
            (case path_to_str (meta_path meta) of
               None \<Rightarrow> None
             | Some i \<Rightarrow>
                 if i = ''rpc'' then Some (parse_rpc meta output)
                 else if i = ''pubsub'' then Some (parse_pubsub meta)
                 else None))"

definition parse_attr :: "trait_method \<Rightarrow> (rpc_attribute option, string) result" where
  "parse_attr m =
     and_then (collect_results (List.map_filter (\<lambda>a. parse_meta a (tm_output m)) (tm_attrs m))) (\<lambda>attrs.
       if length attrs \<le> 1 then Ok (case attrs of [] \<Rightarrow> None | a # _ \<Rightarrow> Some a)
       else Err ''Expected only a single rpc attribute per method'')"

fun is_pubsub_kind :: "attribute_kind \<Rightarrow> bool" where
  "is_pubsub_kind (PubSubKind _ _) = True"
| "is_pubsub_kind (RpcKind _ _ _) = False"

fun is_notification_kind :: "attribute_kind \<Rightarrow> bool" where
  "is_notification_kind (RpcKind _ _ n) = n"
| "is_notification_kind (PubSubKind _ _) = False"

section \<open>Lemmas\<close>

lemma set_map_filter: "y \<in> set (List.map_filter f xs) \<longleftrightarrow> (\<exists>x\<in>set xs. f x = Some y)"
  by (induction xs) (auto simp: List.map_filter_simps split: option.splits)

lemma exp_bind_Expanded: "exp_bind x f = Expanded b \<longleftrightarrow> (\<exists>a. x = Expanded a \<and> f a = Expanded b)"
  by (cases x) auto

lemma exp_bind_Panic: "exp_bind x f = ExpandPanic \<longleftrightarrow> x = ExpandPanic \<or> (\<exists>a. x = Expanded a \<and> f a = ExpandPanic)"
  by (cases x) auto

lemma exp_map_Expanded: "exp_map f x = Expanded b \<longleftrightarrow> (\<exists>a. x = Expanded a \<and> b = f a)"
  by (cases x) (auto simp: exp_map_def)

lemma exp_map_Panic [simp]: "exp_map f x = ExpandPanic \<longleftrightarrow> x = ExpandPanic"
  by (cases x) (auto simp: exp_map_def)

lemma exp_result_not_panic [simp]: "exp_result r \<noteq> ExpandPanic"
  by (cases r) auto

lemma exp_collect_Expanded: "exp_collect xs = Expanded as \<longleftrightarrow> xs = map Expanded as"
  by (induction xs arbitrary: as) (auto simp: exp_bind_Expanded exp_map_Expanded)

lemma exp_collect_not_panic: "\<forall>x\<in>set xs. x \<noteq> ExpandPanic \<Longrightarrow> exp_collect xs \<noteq> ExpandPanic"
  by (induction xs) (auto simp: exp_bind_Panic)

lemma complete_attribute_Ok:
  "complete_attribute attr meta kind = Ok a \<longleftrightarrow>
     (\<exists>ml name st. get_meta_list meta = Some ml \<and> get_name_value ''name'' ml = Some name \<and>
        (if has_meta_word ''raw_params'' ml then st = Raw else get_params_style ml = Ok st) \<and>
        a = \<lparr>at_attr = attr, at_name = name, at_aliases = get_aliases ml, at_kind = kind, at_params_style = Some st\<rparr>)"
  by (auto simp: complete_attribute_def meta_flag_def map_ok_Ok split: option.splits)

end
