(* ===== verification/Derive_Delegate.thy ===== *)
theory Derive_Delegate
  imports Derive_Attr Pubsub
begin

text \<open>
  The server side of the \<open>rpc\<close> macro (\<open>derive/src/to_delegate.rs\<close>): from the annotated methods of a
  trait to the body of the generated \<open>to_delegate\<close>, and what that body does.

  The generated tokens are data: a list of statements on the delegate and, for each, the closure it
  registers. The second half gives these statements their meaning on the delegates of
  \<open>core/src/delegates.rs\<close> and \<open>pubsub/src/delegates.rs\<close>; deserialization of a tuple of types is the
  argument \<open>tuple_of\<close>, the implementation of the trait is the argument \<open>impl\<close>.
\<close>

section \<open>Methods and registrations\<close>

record rpc_method_item =
  rm_attr :: rpc_attribute
  rm_item :: trait_method

definition rpc_method_new :: "rpc_attribute \<Rightarrow> trait_method \<Rightarrow> rpc_method_item" where
  "rpc_method_new a m = \<lparr>rm_attr = a, rm_item = m\<rparr>"

definition rm_name :: "rpc_method_item \<Rightarrow> string" where
  "rm_name m = at_name (rm_attr m)"

definition rm_ident :: "rpc_method_item \<Rightarrow> string" where
  "rm_ident m = tm_ident (rm_item m)"

definition rm_is_pubsub :: "rpc_method_item \<Rightarrow> bool" where
  "rm_is_pubsub m = is_pubsub_kind (at_kind (rm_attr m))"

datatype method_registration =
    RegStandard rpc_method_item bool
  | RegPubSub string "rpc_method_item list" rpc_method_item
  | RegNotification rpc_method_item bool

fun typed_arg_type :: "fn_arg \<Rightarrow> syn_type option" where
  "typed_arg_type (Typed _ ty) = Some ty"
| "typed_arg_type Receiver = None"

fun has_subscriber_segment :: "syn_type \<Rightarrow> bool" where
  "has_subscriber_segment (TypePath _ _ segs) = list_ex (\<lambda>s. seg_ident s = ''Subscriber'') segs"
| "has_subscriber_segment _ = False"

definition typed_arg_types :: "trait_method \<Rightarrow> syn_type list" where
  "typed_arg_types m = List.map_filter typed_arg_type (tm_inputs m)"

definition subscriber_arg :: "rpc_method_item \<Rightarrow> syn_type option" where
  "subscriber_arg m = List.find has_subscriber_segment (typed_arg_types (rm_item m))"

section \<open>The closure of a method\<close>

definition metadata_type :: syn_type where
  "metadata_type = plain_path [Segment ''Self'' NoArguments, Segment ''Metadata'' NoArguments]"

text \<open>Special arguments are not read from the parameters: metadata in the first place and a
  subscriber in the second.\<close>

definition special_args :: "syn_type list \<Rightarrow> (string \<times> syn_type) list" where
  "special_args param_types =
     (case param_types of
        ty # _ \<Rightarrow> (if ty = metadata_type then [(''meta'', ty)] else [])
      | [] \<Rightarrow> []) @
     (case param_types of
        _ # ty # _ \<Rightarrow> (if has_subscriber_segment ty then [(''subscriber'', ty)] else [])
      | _ \<Rightarrow> [])"

definition rpc_param_types :: "syn_type list \<Rightarrow> syn_type list" where
  "rpc_param_types types = filter (\<lambda>ty. \<not> list_ex (\<lambda>(_, sty). sty = ty) (special_args types)) types"

fun is_option_type :: "syn_type \<Rightarrow> bool" where
  "is_option_type (TypePath _ _ (s # _)) = (seg_ident s = ''Option'')"
| "is_option_type _ = False"

definition tuple_field_names :: "string list" where
  "tuple_field_names = map (\<lambda>c. [c]) ''abcdefghijklmnop''"

text \<open>A branch of the generated match: the number of arguments passed, the types they are parsed
  with, and how many are missing.\<close>

record trailing_branch =
  br_passed :: nat
  br_types :: "syn_type list"
  br_missed :: nat

datatype parse_stmt =
    ParseTrailing nat nat "trailing_branch list"
  | ParseExpectNone
  | ParseRaw
  | ParseTuple "syn_type list"

definition params_with_trailing :: "nat \<Rightarrow> syn_type list \<Rightarrow> parse_stmt" where
  "params_with_trailing trailing_args_num param_types =
     (let total_args_num = length param_types;
          required_args_num = total_args_num - trailing_args_num
      in ParseTrailing required_args_num total_args_num
           (map (\<lambda>passed_trailing.
              let passed = required_args_num + passed_trailing
              in \<lparr>br_passed = passed, br_types = take passed param_types, br_missed = total_args_num - passed\<rparr>)
            [0..<Suc trailing_args_num]))"

datatype closure_kind = SubscribeClosure | NotificationClosure | MethodClosure

record delegate_closure =
  dc_ident :: string
  dc_extra_args :: "string list"
  dc_fields :: "string list"
  dc_parse :: parse_stmt
  dc_kind :: closure_kind

definition parse_params_stmt :: "param_style option \<Rightarrow> syn_type list \<Rightarrow> parse_stmt expansion" where
  "parse_params_stmt style param_types =
     (let trailing_args_num = length (takeWhile is_option_type (rev param_types))
      in if trailing_args_num \<noteq> 0 then Expanded (params_with_trailing trailing_args_num param_types)
         else if param_types = [] then Expanded ParseExpectNone
         else if style = Some Raw then Expanded ParseRaw
         else if style = Some Positional then Expanded (ParseTuple param_types)
         else ExpandPanic)"

definition generate_delegate_closure :: "rpc_method_item \<Rightarrow> bool \<Rightarrow> delegate_closure expansion" where
  "generate_delegate_closure m is_subscribe =
     (let types = typed_arg_types (rm_item m);
          param_types = rpc_param_types types
      in if length param_types > length tuple_field_names
         then ExpandError (''Maximum supported number of params is '' @ dec_of_nat (length tuple_field_names))
         else exp_map (\<lambda>parse_params.
                \<lparr>dc_ident = rm_ident m, dc_extra_args = map fst (special_args types),
                 dc_fields = take (length param_types) tuple_field_names, dc_parse = parse_params,
                 dc_kind = (if is_subscribe then SubscribeClosure
                            else if is_notification_kind (at_kind (rm_attr m)) then NotificationClosure
                            else MethodClosure)\<rparr>)
              (parse_params_stmt (at_params_style (rm_attr m)) param_types))"

section \<open>The statements of \<open>to_delegate\<close>\<close>

datatype del_stmt =
    AddMethod bool string delegate_closure
  | AddNotification bool string delegate_closure
  | AddSubscription string "string \<times> delegate_closure" "string \<times> string"
  | AddAlias string string

definition generate_add_aliases :: "rpc_method_item \<Rightarrow> del_stmt list" where
  "generate_add_aliases m = map (\<lambda>als. AddAlias als (rm_name m)) (at_aliases (rm_attr m))"

fun generate_registration :: "method_registration \<Rightarrow> del_stmt list expansion" where
  "generate_registration (RegStandard m has_metadata) =
     exp_map (\<lambda>closure. AddMethod has_metadata (rm_name m) closure # generate_add_aliases m)
       (generate_delegate_closure m False)"
| "generate_registration (RegPubSub name subscribes unsubscribe) =
     exp_map (\<lambda>add_subscriptions. concat add_subscriptions @ generate_add_aliases unsubscribe)
       (exp_collect (map (\<lambda>sub.
          exp_map (\<lambda>closure.
              AddSubscription name (rm_name sub, closure) (rm_name unsubscribe, rm_ident unsubscribe)
                # generate_add_aliases sub)
            (generate_delegate_closure sub True)) subscribes))"
| "generate_registration (RegNotification m has_metadata) =
     exp_map (\<lambda>closure. AddNotification has_metadata (rm_name m) closure # generate_add_aliases m)
       (generate_delegate_closure m False)"

section \<open>Bounds of the type parameters\<close>

text \<open>A trait: its type parameters, the predicates of its where clause on types, its supertraits and
  its items. Bounds are kept as text and default bodies of methods are left out: the return type of
  a function type inside them, which the visitor below would also collect, is not part of the model.\<close>

datatype trait_item = TraitMethod trait_method | TraitType string "string list" | TraitOther string

record item_trait =
  it_ident :: string
  it_type_params :: "string list"
  it_where :: "(syn_type \<times> string list) list"
  it_supertraits :: "string list"
  it_items :: "trait_item list"

record find_ty_params =
  fp_generics :: "string set"
  server_to_client :: "string set"
  client_to_server :: "string set"
  visiting_return_type :: bool
  visiting_fn_arg :: bool
  visiting_subscriber_arg :: bool

definition find_ty_params_default :: find_ty_params where
  "find_ty_params_default =
     \<lparr>fp_generics = {}, server_to_client = {}, client_to_server = {}, visiting_return_type = False,
      visiting_fn_arg = False, visiting_subscriber_arg = False\<rparr>"

definition visit_type_param :: "string \<Rightarrow> find_ty_params \<Rightarrow> find_ty_params" where
  "visit_type_param i v = v\<lparr>fp_generics := insert i (fp_generics v)\<rparr>"

definition visit_ident :: "string \<Rightarrow> find_ty_params \<Rightarrow> find_ty_params" where
  "visit_ident i v =
     (if i \<in> fp_generics v then
        (let v = (if visiting_return_type v \<or> visiting_subscriber_arg v
                  then v\<lparr>server_to_client := insert i (server_to_client v)\<rparr> else v)
         in if visiting_fn_arg v \<and> \<not> visiting_subscriber_arg v
            then v\<lparr>client_to_server := insert i (client_to_server v)\<rparr> else v)
      else v)"

definition enter_segment :: "string \<Rightarrow> find_ty_params \<Rightarrow> find_ty_params" where
  "enter_segment i v =
     v\<lparr>visiting_subscriber_arg := visiting_subscriber_arg v \<or> (visiting_fn_arg v \<and> i = ''Subscriber'')\<rparr>"

definition leave_segment :: "string \<Rightarrow> find_ty_params \<Rightarrow> find_ty_params" where
  "leave_segment i v = v\<lparr>visiting_subscriber_arg := visiting_subscriber_arg v \<and> i \<noteq> ''Subscriber''\<rparr>"

text \<open>The traversal of \<open>syn\<close> calls the methods of the visitor on the parts of a type in their order; it
  calls \<open>visit_return_type\<close>, which sets and clears its flag, also for a function type inside a type.\<close>

fun visit_type :: "syn_type \<Rightarrow> find_ty_params \<Rightarrow> find_ty_params"
and visit_path_segment :: "path_segment \<Rightarrow> find_ty_params \<Rightarrow> find_ty_params"
and visit_path_arguments :: "path_arguments \<Rightarrow> find_ty_params \<Rightarrow> find_ty_params"
and visit_generic_argument :: "generic_argument \<Rightarrow> find_ty_params \<Rightarrow> find_ty_params"
and visit_return_type :: "return_type \<Rightarrow> find_ty_params \<Rightarrow> find_ty_params" where
  "visit_type (TypePath _ inner segs) v = fold visit_path_segment segs (fold visit_type inner v)"
| "visit_type (TypeTuple elems _) v = fold visit_type elems v"
| "visit_type (TypeBareFn _ args ret) v = visit_return_type ret (fold visit_type args v)"
| "visit_type (TypeOther _ inner) v = fold visit_type inner v"
| "visit_path_segment (Segment i args) v =
     leave_segment i (visit_path_arguments args (visit_ident i (enter_segment i v)))"
| "visit_path_arguments NoArguments v = v"
| "visit_path_arguments (AngleBracketed gs) v = fold visit_generic_argument gs v"
| "visit_path_arguments (Parenthesized args ret) v = visit_return_type ret (fold visit_type args v)"
| "visit_generic_argument (GenType ty) v = visit_type ty v"
| "visit_generic_argument (GenOther _ inner) v = fold visit_type inner v"
| "visit_return_type ReturnDefault v = (v\<lparr>visiting_return_type := True\<rparr>)\<lparr>visiting_return_type := False\<rparr>"
| "visit_return_type (ReturnType ty) v =
     (visit_type ty (v\<lparr>visiting_return_type := True\<rparr>))\<lparr>visiting_return_type := False\<rparr>"

fun visit_pat :: "syn_pat \<Rightarrow> find_ty_params \<Rightarrow> find_ty_params" where
  "visit_pat (PatIdent i) v = visit_ident i v"
| "visit_pat _ v = v"

fun visit_fn_arg :: "fn_arg \<Rightarrow> find_ty_params \<Rightarrow> find_ty_params" where
  "visit_fn_arg Receiver v = v\<lparr>visiting_fn_arg := False\<rparr>"
| "visit_fn_arg (Typed p ty) v =
     (visit_type ty (visit_pat p (v\<lparr>visiting_fn_arg := True\<rparr>)))\<lparr>visiting_fn_arg := False\<rparr>"

fun visit_trait_item :: "trait_item \<Rightarrow> find_ty_params \<Rightarrow> find_ty_params" where
  "visit_trait_item (TraitMethod m) v = visit_return_type (tm_output m) (fold visit_fn_arg (tm_inputs m) v)"
| "visit_trait_item _ v = v"

definition visit_item_trait :: "item_trait \<Rightarrow> find_ty_params \<Rightarrow> find_ty_params" where
  "visit_item_trait t v = fold visit_trait_item (it_items t) (fold visit_type_param (it_type_params t) v)"

definition where_predicates :: "item_trait \<Rightarrow> bool \<Rightarrow> (string \<times> string list) list" where
  "where_predicates t client =
     (let visitor = visit_item_trait t find_ty_params_default;
          serialize = ''_jsonrpc_core::serde::Serialize'';
          deserialize = ''_jsonrpc_core::serde::de::DeserializeOwned''
      in map (\<lambda>i. (i,
           [''Send'', ''Sync'', CHR 0x27 # ''static''] @
           (if client then
              (if i \<in> server_to_client visitor then [deserialize] else []) @
              (if i \<in> client_to_server visitor then [serialize] else [])
            else
              (if i \<in> server_to_client visitor then [serialize] else []) @
              (if i \<in> client_to_server visitor then [deserialize] else [])) @
           concat (map (\<lambda>(bounded, bounds). if bounded = plain_path [Segment i NoArguments] then bounds else [])
             (it_where t))))
         (it_type_params t))"

text \<open>The generated \<open>to_delegate\<close>: the kind of delegate, its metadata, the statements and the bounds.\<close>

record to_delegate_fn =
  td_pubsub :: bool
  td_has_metadata :: bool
  td_stmts :: "del_stmt list"
  td_where :: "(string \<times> string list) list"

definition generate_trait_item_method ::
    "method_registration list \<Rightarrow> item_trait \<Rightarrow> bool \<Rightarrow> bool \<Rightarrow> to_delegate_fn expansion" where
  "generate_trait_item_method regs t has_metadata has_pubsub_methods =
     exp_map (\<lambda>add_methods.
         \<lparr>td_pubsub = has_pubsub_methods, td_has_metadata = has_metadata, td_stmts = concat add_methods,
          td_where = where_predicates t False\<rparr>)
       (exp_collect (map generate_registration regs))"

section \<open>What the generated code does\<close>

text \<open>A value passed to a method of the trait: read from the parameters, \<open>None\<close> for an argument that
  was not passed, or the parameters themselves.\<close>

datatype ('n, 'v) arg_value = Given 'v | Missing | RawParams "'n params"

type_synonym ('n, 'v) tuple_reader = "syn_type list \<Rightarrow> 'n json \<Rightarrow> ('v list, string) result"

definition exec_branch ::
    "('n params \<Rightarrow> string) \<Rightarrow> ('n, 'v) tuple_reader \<Rightarrow> trailing_branch \<Rightarrow> 'n params
     \<Rightarrow> (('n, 'v) arg_value list, 'n rpc_error) result" where
  "exec_branch debug tuple_of br params =
     (if br_passed br = 0
      then map_ok (\<lambda>_. replicate (br_missed br) Missing) (expect_no_params debug params)
      else map_ok (\<lambda>vs. map Given vs @ replicate (br_missed br) Missing) (params_parse (tuple_of (br_types br)) params))"

fun passed_args_num :: "'n params \<Rightarrow> (nat, 'n rpc_error) result" where
  "passed_args_num (ParamsArray v) = Ok (length v)"
| "passed_args_num ParamsNone = Ok 0"
| "passed_args_num (ParamsMap _) = Err (invalid_params ''`params` should be an array'')"

fun exec_parse ::
    "('n params \<Rightarrow> string) \<Rightarrow> ('n, 'v) tuple_reader \<Rightarrow> parse_stmt \<Rightarrow> 'n params
     \<Rightarrow> (('n, 'v) arg_value list, 'n rpc_error) result" where
  "exec_parse debug tuple_of (ParseTrailing required total_num branches) params =
     and_then (passed_args_num params) (\<lambda>passed.
       if passed < required
       then Err (invalid_params (''`params` should have at least '' @ dec_of_nat required @ '' argument(s)''))
       else case List.find (\<lambda>br. br_passed br = passed) branches of
              Some br \<Rightarrow> exec_branch debug tuple_of br params
            | None \<Rightarrow>
                Err (invalid_params_with_details
                  (''Expected from '' @ dec_of_nat required @ '' to '' @ dec_of_nat total_num @ '' parameters.'')
                  ([CHR 0x22] @ ''Got: '' @ dec_of_nat passed @ [CHR 0x22])))"
| "exec_parse debug tuple_of ParseExpectNone params = map_ok (\<lambda>_. []) (expect_no_params debug params)"
| "exec_parse debug tuple_of ParseRaw params = Ok [RawParams params]"
| "exec_parse debug tuple_of (ParseTuple types) params = map_ok (map Given) (params_parse (tuple_of types) params)"

text \<open>The implementation of the trait: its methods, by identifier, with how results and errors of the
  methods become values and errors of the protocol.\<close>

record ('x, 'n, 'm, 'v, 'r, 'e, 'w) trait_impl =
  ti_call :: "string \<Rightarrow> 'x \<Rightarrow> 'm option \<Rightarrow> ('n, 'v) arg_value list \<Rightarrow> 'w \<Rightarrow> ('w, ('r, 'e) result) fut \<times> 'w"
  ti_notify :: "string \<Rightarrow> 'x \<Rightarrow> 'm option \<Rightarrow> ('n, 'v) arg_value list \<Rightarrow> 'w \<Rightarrow> 'w"
  ti_to_value :: "'r \<Rightarrow> 'n json"
  ti_into_error :: "'e \<Rightarrow> 'n rpc_error"

definition answer_of :: "('r \<Rightarrow> 'n json) \<Rightarrow> ('e \<Rightarrow> 'n rpc_error) \<Rightarrow> ('r, 'e) result \<Rightarrow> ('n json, 'n rpc_error) result" where
  "answer_of to_value into_error r = map_err into_error (map_ok to_value r)"

definition meta_arg :: "delegate_closure \<Rightarrow> 'm option \<Rightarrow> 'm option" where
  "meta_arg cl meta = (if ''meta'' \<in> set (dc_extra_args cl) then meta else None)"

definition method_closure ::
    "('n params \<Rightarrow> string) \<Rightarrow> ('n, 'v) tuple_reader \<Rightarrow> ('x, 'n, 'm, 'v, 'r, 'e, 'w) trait_impl \<Rightarrow> delegate_closure
     \<Rightarrow> 'x \<Rightarrow> 'n params \<Rightarrow> 'm option \<Rightarrow> 'w \<Rightarrow> ('n, 'w) rpc_result \<times> 'w" where
  "method_closure debug tuple_of ti cl base params meta w =
     (case exec_parse debug tuple_of (dc_parse cl) params of
        Ok args \<Rightarrow>
          apfst (fut_map (answer_of (ti_to_value ti) (ti_into_error ti)))
            (ti_call ti (dc_ident cl) base (meta_arg cl meta) args w)
      | Err e \<Rightarrow> (fut_ready (Err e), w))"

definition notification_closure ::
    "('n params \<Rightarrow> string) \<Rightarrow> ('n, 'v) tuple_reader \<Rightarrow> ('x, 'n, 'm, 'v, 'r, 'e, 'w) trait_impl \<Rightarrow> delegate_closure
     \<Rightarrow> 'x \<Rightarrow> 'n params \<Rightarrow> 'm option \<Rightarrow> 'w \<Rightarrow> 'w" where
  "notification_closure debug tuple_of ti cl base params meta w =
     (case exec_parse debug tuple_of (dc_parse cl) params of
        Ok args \<Rightarrow> ti_notify ti (dc_ident cl) base (meta_arg cl meta) args w
      | Err _ \<Rightarrow> w)"

text \<open>Whether a statement calls an operation that the delegate has: a core delegate has no
  subscriptions, a pub-sub delegate no notifications with metadata. A closure is given metadata
  exactly when it takes it.\<close>

fun stmt_supported :: "bool \<Rightarrow> del_stmt \<Rightarrow> bool" where
  "stmt_supported pubsub (AddMethod has_metadata _ cl) = (dc_extra_args cl = (if has_metadata then [''meta''] else []))"
| "stmt_supported pubsub (AddNotification has_metadata _ cl) =
     (dc_extra_args cl = (if has_metadata then [''meta''] else []) \<and> (pubsub \<longrightarrow> \<not> has_metadata))"
| "stmt_supported pubsub (AddSubscription _ sub _) = (pubsub \<and> dc_extra_args (snd sub) = [''meta'', ''subscriber''])"
| "stmt_supported pubsub (AddAlias _ _) = True"

text \<open>Statements on a core delegate.\<close>

fun exec_stmt ::
    "('n params \<Rightarrow> string) \<Rightarrow> ('n, 'v) tuple_reader \<Rightarrow> ('x, 'n, 'm, 'v, 'r, 'e, 'w) trait_impl \<Rightarrow> del_stmt
     \<Rightarrow> ('x, 'n, 'm, 'w) io_delegate \<Rightarrow> ('x, 'n, 'm, 'w) io_delegate" where
  "exec_stmt debug tuple_of ti (AddMethod has_metadata name cl) del =
     (if has_metadata
      then delegate_add_method_with_meta name
             (\<lambda>base params meta. method_closure debug tuple_of ti cl base params (Some meta)) del
      else delegate_add_method name (\<lambda>base params. method_closure debug tuple_of ti cl base params None) del)"
| "exec_stmt debug tuple_of ti (AddNotification has_metadata name cl) del =
     (if has_metadata
      then delegate_add_notification_with_meta name
             (\<lambda>base params meta. notification_closure debug tuple_of ti cl base params (Some meta)) del
      else delegate_add_notification name (\<lambda>base params. notification_closure debug tuple_of ti cl base params None) del)"
| "exec_stmt debug tuple_of ti (AddAlias als name) del = delegate_add_alias als name del"
| "exec_stmt debug tuple_of ti (AddSubscription _ _ _) del = del"

definition to_delegate ::
    "('n params \<Rightarrow> string) \<Rightarrow> ('n, 'v) tuple_reader \<Rightarrow> ('x, 'n, 'm, 'v, 'r, 'e, 'w) trait_impl \<Rightarrow> to_delegate_fn
     \<Rightarrow> 'x \<Rightarrow> ('x, 'n, 'm, 'w) io_delegate" where
  "to_delegate debug tuple_of ti td self = fold (exec_stmt debug tuple_of ti) (td_stmts td) (delegate_new self)"

text \<open>The subscribe and unsubscribe closures, on the environment of the pub-sub methods.\<close>

record ('x, 'n, 'm, 'v, 'r, 'e, 't, 'c, 'd, 'u) pubsub_impl =
  pi_subscribe :: "string \<Rightarrow> 'x \<Rightarrow> 'm option \<Rightarrow> ('t, 'c, 'd) typed_subscriber \<Rightarrow> ('n, 'v) arg_value list \<Rightarrow> 'u \<Rightarrow> 'u"
  pi_unsubscribe :: "string \<Rightarrow> 'x \<Rightarrow> 'm option \<Rightarrow> subscription_id \<Rightarrow> 'u \<Rightarrow> ('u, ('r, 'e) result) fut \<times> 'u"
  pi_to_value :: "'r \<Rightarrow> 'n json"
  pi_into_error :: "'e \<Rightarrow> 'n rpc_error"

definition subscribe_closure ::
    "('n params \<Rightarrow> string) \<Rightarrow> ('n, 'v) tuple_reader \<Rightarrow> ('u, 'c, 'n sub_answer) oneshot_ops
     \<Rightarrow> ('x, 'n, 'm, 'v, 'r, 'e, 't, 'c, 'd, 'u) pubsub_impl \<Rightarrow> delegate_closure
     \<Rightarrow> 'x \<Rightarrow> ('n, 'm, 't, 'c, 'd, 'u) subscribe_fn" where
  "subscribe_closure debug tuple_of items pi cl base params meta subscriber u =
     (case exec_parse debug tuple_of (dc_parse cl) params of
        Ok args \<Rightarrow> pi_subscribe pi (dc_ident cl) base (meta_arg cl (Some meta)) (typed_new subscriber) args u
      | Err e \<Rightarrow> snd (reject items subscriber e u))"

definition unsubscribe_closure ::
    "('x, 'n, 'm, 'v, 'r, 'e, 't, 'c, 'd, 'u) pubsub_impl \<Rightarrow> string \<Rightarrow> 'x \<Rightarrow> ('n, 'm, 'u) unsubscribe_fn" where
  "unsubscribe_closure pi method_ident base i meta u =
     apfst (fut_map (answer_of (pi_to_value pi) (pi_into_error pi))) (pi_unsubscribe pi method_ident base meta i u)"

fun pubsub_exec_stmt where
  "pubsub_exec_stmt debug tuple_of ti pi as_u64 from_u64 items receipts spawn_ok session_of
       (AddMethod has_metadata name cl) pd =
     (if has_metadata
      then pubsub_delegate_add_method_with_meta name
             (\<lambda>base params meta. method_closure debug tuple_of ti cl base params (Some meta)) pd
      else pubsub_delegate_add_method name (\<lambda>base params. method_closure debug tuple_of ti cl base params None) pd)"
| "pubsub_exec_stmt debug tuple_of ti pi as_u64 from_u64 items receipts spawn_ok session_of
       (AddNotification has_metadata name cl) pd =
     (if has_metadata then pd
      else pubsub_delegate_add_notification name
             (\<lambda>base params. notification_closure debug tuple_of ti cl base params None) pd)"
| "pubsub_exec_stmt debug tuple_of ti pi as_u64 from_u64 items receipts spawn_ok session_of (AddAlias als name) pd =
     pubsub_delegate_add_alias als name pd"
| "pubsub_exec_stmt debug tuple_of ti pi as_u64 from_u64 items receipts spawn_ok session_of
       (AddSubscription name sub_entry unsub_entry) pd =
     pubsub_delegate_add_subscription as_u64 from_u64 items receipts spawn_ok session_of name
       (fst sub_entry, subscribe_closure debug tuple_of items pi (snd sub_entry))
       (fst unsub_entry, unsubscribe_closure pi (snd unsub_entry)) pd"

definition pubsub_to_delegate where
  "pubsub_to_delegate debug tuple_of ti pi as_u64 from_u64 items receipts spawn_ok session_of td self =
     fold (pubsub_exec_stmt debug tuple_of ti pi as_u64 from_u64 items receipts spawn_ok session_of)
       (td_stmts td) (pubsub_delegate_new self)"

section \<open>Optional trailing arguments\<close>

text \<open>What a method with optional trailing arguments is documented to accept: an array of as many
  arguments as are required up to all of them; what is not passed is \<open>None\<close>.\<close>

definition trailing_spec ::
    "('n, 'v) tuple_reader \<Rightarrow> syn_type list \<Rightarrow> nat \<Rightarrow> 'n json list \<Rightarrow> (('n, 'v) arg_value list, 'n rpc_error) result" where
  "trailing_spec tuple_of types required vs =
     (let n = length vs
      in if n < required
         then Err (invalid_params (''`params` should have at least '' @ dec_of_nat required @ '' argument(s)''))
         else if n > length types
         then Err (invalid_params_with_details
                (''Expected from '' @ dec_of_nat required @ '' to '' @ dec_of_nat (length types) @ '' parameters.'')
                ([CHR 0x22] @ ''Got: '' @ dec_of_nat n @ [CHR 0x22]))
         else if n = 0 then Ok (replicate (length types) Missing)
         else map_ok (\<lambda>args. map Given args @ replicate (length types - n) Missing)
                (params_parse (tuple_of (take n types)) (ParamsArray vs)))"

lemma find_branch:
  assumes "t \<le> length types"
  shows "List.find (\<lambda>br. br_passed br = n)
      (map (\<lambda>k. \<lparr>br_passed = length types - t + k, br_types = take (length types - t + k) types,
                  br_missed = length types - (length types - t + k)\<rparr>) [0..<Suc t]) =
    (if length types - t \<le> n \<and> n \<le> length types
     then Some \<lparr>br_passed = n, br_types = take n types, br_missed = length types - n\<rparr> else None)"
  (is "List.find _ (map ?f _) = _")
proof (cases "length types - t \<le> n \<and> n \<le> length types")
  case True
  then obtain k where k: "n = length types - t + k" "k < Suc t"
    using assms by (metis le_add_diff_inverse le_diff_conv less_Suc_eq_le add.commute add_le_cancel_left le_add_diff_inverse2)
  then have "List.find (\<lambda>br. br_passed br = n) (map ?f [0..<Suc t]) = Some (?f k)"
    unfolding find_Some_iff by (intro exI [of _ k]) (auto simp del: upt_Suc)
  then show ?thesis using True k by simp
next
  case False
  then show ?thesis using assms by (auto simp: find_None_iff)
qed

lemma trailing_params_branch:
  assumes "t \<le> length types"
  shows "exec_parse debug tuple_of (params_with_trailing t types) (ParamsArray vs) =
    trailing_spec tuple_of types (length types - t) vs"
  using find_branch [OF assms, of "length vs"]
  by (cases vs) (auto simp: params_with_trailing_def trailing_spec_def Let_def exec_branch_def simp del: upt_Suc)

lemma trailing_le: "length (takeWhile P (rev xs)) \<le> length xs"
  using length_takeWhile_le [of P "rev xs"] by simp

lemma closure_parse:
  "generate_delegate_closure m sub = Expanded cl \<Longrightarrow>
     parse_params_stmt (at_params_style (rm_attr m)) (rpc_param_types (typed_arg_types (rm_item m))) = Expanded (dc_parse cl)"
  by (auto simp: generate_delegate_closure_def Let_def exp_map_Expanded split: if_splits)

text \<open>C28: arguments of option type at the end of a method are optional. With \<open>k\<close> such arguments, the
  generated closure takes an array of any length from the number of required arguments up to the
  number of all arguments, reads the arguments that were passed and sets the others to \<open>None\<close>; a
  shorter or longer array and named parameters are answered with an invalid-params error, and absent
  parameters count as an empty array.\<close>

theorem trailing_params_optional:
  assumes "generate_delegate_closure m sub = Expanded cl"
    and "types = rpc_param_types (typed_arg_types (rm_item m))"
    and "k = length (takeWhile is_option_type (rev types))" and "0 < k"
  shows "exec_parse debug tuple_of (dc_parse cl) params =
    (case params of
       ParamsArray vs \<Rightarrow> trailing_spec tuple_of types (length types - k) vs
     | ParamsNone \<Rightarrow> trailing_spec tuple_of types (length types - k) []
     | ParamsMap _ \<Rightarrow> Err (invalid_params ''`params` should be an array''))"
proof -
  have le: "k \<le> length types" using assms(3) trailing_le [of is_option_type types] by simp
  have cl: "dc_parse cl = params_with_trailing k types"
    using closure_parse [OF assms(1)] assms by (simp add: parse_params_stmt_def Let_def)
  show ?thesis
  proof (cases params)
    case ParamsNone
    then show ?thesis
      using find_branch [OF le, of 0] cl
      by (auto simp: params_with_trailing_def trailing_spec_def Let_def exec_branch_def simp del: upt_Suc)
  next
    case (ParamsArray vs)
    then show ?thesis using cl trailing_params_branch [OF le] by simp
  next
    case (ParamsMap f)
    then show ?thesis using cl by (simp add: params_with_trailing_def Let_def)
  qed
qed

section \<open>Generated delegates answer calls\<close>

text \<open>On a core delegate every supported statement inserts one entry of the method table.\<close>

fun stmt_name :: "del_stmt \<Rightarrow> string" where
  "stmt_name (AddMethod _ name _) = name"
| "stmt_name (AddNotification _ name _) = name"
| "stmt_name (AddSubscription _ sub _) = fst sub"
| "stmt_name (AddAlias als _) = als"

fun stmt_proc ::
    "('n params \<Rightarrow> string) \<Rightarrow> ('n, 'v) tuple_reader \<Rightarrow> ('x, 'n, 'm, 'v, 'r, 'e, 'w) trait_impl \<Rightarrow> 'x \<Rightarrow> del_stmt
     \<Rightarrow> ('n, 'm, 'w) remote_procedure" where
  "stmt_proc debug tuple_of ti self (AddMethod has_metadata _ cl) =
     Method (\<lambda>params meta. method_closure debug tuple_of ti cl self params (if has_metadata then Some meta else None))"
| "stmt_proc debug tuple_of ti self (AddNotification has_metadata _ cl) =
     NotificationProc (\<lambda>params meta.
       notification_closure debug tuple_of ti cl self params (if has_metadata then Some meta else None))"
| "stmt_proc debug tuple_of ti self (AddAlias _ name) = Alias name"
| "stmt_proc debug tuple_of ti self (AddSubscription _ _ _) = Alias []"

lemma exec_stmt_insert:
  "stmt_supported False s \<Longrightarrow>
     exec_stmt debug tuple_of ti s del = io_insert del (stmt_name s) (stmt_proc debug tuple_of ti (io_delegate_of del) s)"
  by (cases s) (auto simp: delegate_add_method_def delegate_add_method_with_meta_def delegate_add_notification_def
      delegate_add_notification_with_meta_def delegate_add_alias_def delegate_async_method_def
      delegate_method_with_meta_def delegate_notification_def delegate_notification_with_meta_def)

lemma exec_stmts_methods:
  "list_all (stmt_supported False) ss \<Longrightarrow>
     io_methods (fold (exec_stmt debug tuple_of ti) ss del) =
       io_methods del ++ map_of (rev (map (\<lambda>s. (stmt_name s, stmt_proc debug tuple_of ti (io_delegate_of del) s)) ss))"
proof (induction ss arbitrary: del)
  case (Cons s ss)
  then show ?case by (simp add: exec_stmt_insert io_insert_def)
qed simp

lemma to_delegate_lookup:
  assumes "list_all (stmt_supported False) (td_stmts td)" and "distinct (map stmt_name (td_stmts td))"
    and "s \<in> set (td_stmts td)"
  shows "io_methods (to_delegate debug tuple_of ti td self) (stmt_name s) = Some (stmt_proc debug tuple_of ti self s)"
proof -
  let ?kvs = "rev (map (\<lambda>s. (stmt_name s, stmt_proc debug tuple_of ti self s)) (td_stmts td))"
  have "distinct (map fst ?kvs)" using assms(2) by (simp add: rev_map [symmetric] comp_def)
  then have "map_of ?kvs (stmt_name s) = Some (stmt_proc debug tuple_of ti self s)"
    using assms(3) by (intro map_of_is_SomeI) auto
  then show ?thesis
    using assms(1) by (simp add: to_delegate_def exec_stmts_methods delegate_new_def map_add_def)
qed

lemma generated_stmts:
  assumes "generate_trait_item_method regs t hm ps = Expanded td" and "r \<in> set regs"
  shows "\<exists>ss. generate_registration r = Expanded ss \<and> set ss \<subseteq> set (td_stmts td)"
proof -
  obtain sss where sss: "map generate_registration regs = map Expanded sss" "td_stmts td = concat sss"
    using assms(1) by (auto simp: generate_trait_item_method_def exp_map_Expanded exp_collect_Expanded)
  then obtain ss where "ss \<in> set sss" "generate_registration r = Expanded ss"
    using assms(2) by (metis (no_types, lifting) imageE image_eqI list.set_map)
  then show ?thesis using sss(2) by auto
qed

lemma run_call_resolved:
  assumes "middleware h = Noop" and "is_version_valid (compatibility h) (mc_jsonrpc mc)"
    and "resolve_method (methods h) (mc_method mc) = Some g"
    and "g (mc_params mc) meta w = (fr, w1)" and "fr w1 = Some (r, w2)"
  shows "run_call h (MethodCall mc) meta w = Some (Some (output_from r (mc_id mc) (mc_jsonrpc mc)), w2)"
  using assms by (simp add: run_call_noop)

lemma generated_call:
  assumes "generate_trait_item_method regs t has_metadata False = Expanded td" and "RegStandard m b \<in> set regs"
    and "generate_delegate_closure m False = Expanded cl"
    and "list_all (stmt_supported False) (td_stmts td)" and "distinct (map stmt_name (td_stmts td))"
    and "middleware h = Noop" and "is_version_valid (compatibility h) (mc_jsonrpc mc)"
    and "mc_method mc \<in> set (rm_name m # at_aliases (rm_attr m))"
    and "exec_parse debug tuple_of (dc_parse cl) (mc_params mc) = Ok args"
    and "ti_call ti (rm_ident m) self (if b then Some meta else None) args w = (f, w1)" and "f w1 = Some (r, w2)"
  shows "run_call (delegate_augment (to_delegate debug tuple_of ti td self) h) (MethodCall mc) meta w =
    Some (Some (output_from (answer_of (ti_to_value ti) (ti_into_error ti) r) (mc_id mc) (mc_jsonrpc mc)), w2)"
proof -
  let ?io = "to_delegate debug tuple_of ti td self"
  let ?add = "AddMethod b (rm_name m) cl"
  let ?g = "\<lambda>params meta. method_closure debug tuple_of ti cl self params (if b then Some meta else None)"
  have sub: "insert ?add (set (generate_add_aliases m)) \<subseteq> set (td_stmts td)"
    using generated_stmts [OF assms(1,2)] assms(3) by (auto simp: exp_map_def)
  then have look: "io_methods ?io (rm_name m) = Some (Method ?g)"
    using to_delegate_lookup [OF assms(4,5), of ?add debug tuple_of ti self] by simp
  have alias_look: "io_methods ?io als = Some (Alias (rm_name m))" if "als \<in> set (at_aliases (rm_attr m))" for als
    using to_delegate_lookup [OF assms(4,5), of "AddAlias als (rm_name m)" debug tuple_of ti self] that sub
    by (auto simp: generate_add_aliases_def)
  have resolved: "resolve_method (methods (delegate_augment ?io h)) (mc_method mc) = Some ?g"
    using assms(8) look alias_look by (auto simp: delegate_augment_methods resolve_method_def)
  have extra: "dc_extra_args cl = (if b then [''meta''] else [])"
    using sub assms(4) by (force simp: list_all_iff)
  have ident: "dc_ident cl = rm_ident m"
    using assms(3) by (auto simp: generate_delegate_closure_def Let_def exp_map_Expanded split: if_splits)
  have ran: "?g (mc_params mc) meta w = (fut_map (answer_of (ti_to_value ti) (ti_into_error ti)) f, w1)"
    using assms(9,10) extra ident by (cases b) (simp_all add: method_closure_def meta_arg_def)
  show ?thesis
    by (rule run_call_resolved [OF _ _ resolved ran])
      (use assms in \<open>simp_all add: delegate_augment_def fut_map_apply\<close>)
qed

text \<open>A method annotated with \<open>rpc\<close> answers under its name and under each of its aliases, on the
  handler that the generated delegate is installed in: when the parameters of the call parse, the
  method of the trait is run on the arguments they stand for, with the metadata of the connection
  if the method takes metadata, and its result or error is the answer.\<close>

theorem generated_method_answers:
  assumes "generate_trait_item_method regs t has_metadata False = Expanded td" and "RegStandard m b \<in> set regs"
    and "generate_delegate_closure m False = Expanded cl"
    and "list_all (stmt_supported False) (td_stmts td)" and "distinct (map stmt_name (td_stmts td))"
    and "middleware h = Noop" and "is_version_valid (compatibility h) (mc_jsonrpc mc)"
    and "mc_method mc \<in> set (rm_name m # at_aliases (rm_attr m))"
    and "exec_parse debug tuple_of (dc_parse cl) (mc_params mc) = Ok args"
    and "ti_call ti (rm_ident m) self (if b then Some meta else None) args w = (f, w1)" and "f w1 = Some (r, w2)"
  shows "run_call (delegate_augment (to_delegate debug tuple_of ti td self) h) (MethodCall mc) meta w =
    Some (Some (output_from (answer_of (ti_to_value ti) (ti_into_error ti) r) (mc_id mc) (mc_jsonrpc mc)), w2)"
  by (rule generated_call [OF assms])

text \<open>A trait with one method, \<open>add(&self, a: u64, b: Option<u64>)\<close>, called through its alias.\<close>

definition opt_u64 :: syn_type where
  "opt_u64 = plain_path [Segment ''Option'' (AngleBracketed [GenType (plain_path [Segment ''u64'' NoArguments])])]"

definition add_item :: rpc_method_item where
  "add_item =
     \<lparr>rm_attr = \<lparr>at_attr = Err [], at_name = ''add'', at_aliases = [''plus''], at_kind = RpcKind False None False,
                 at_params_style = Some Positional\<rparr>,
      rm_item = \<lparr>tm_ident = ''add'', tm_attrs = [],
                 tm_inputs = [Receiver, Typed (PatIdent ''a'') (plain_path [Segment ''u64'' NoArguments]),
                              Typed (PatIdent ''b'') opt_u64],
                 tm_output = ReturnType (plain_path [Segment ''Result'' (AngleBracketed [GenType (plain_path [Segment ''u64'' NoArguments])])])\<rparr>\<rparr>"

definition add_trait :: item_trait where
  "add_trait = \<lparr>it_ident = ''Math'', it_type_params = [], it_where = [], it_supertraits = [], it_items = []\<rparr>"

text \<open>A reader of tuples of numbers, for these examples.\<close>

fun read_nats :: "(nat, nat) tuple_reader" where
  "read_nats types (VArray vs) =
     (if length vs = length types \<and> list_all (\<lambda>v. case v of VNumber _ \<Rightarrow> True | _ \<Rightarrow> False) vs
      then Ok (map (\<lambda>v. case v of VNumber n \<Rightarrow> n | _ \<Rightarrow> 0) vs) else Err ''invalid tuple'')"
| "read_nats types _ = Err ''invalid type''"

definition add_impl :: "(nat, nat, unit, nat, nat, string, nat) trait_impl" where
  "add_impl =
     \<lparr>ti_call = (\<lambda>i base meta args w. (fut_ready (Ok (base + sum_list (map (\<lambda>a. case a of Given n \<Rightarrow> n | _ \<Rightarrow> 0) args))), w)),
      ti_notify = (\<lambda>i base meta args w. w), ti_to_value = VNumber, ti_into_error = invalid_params\<rparr>"

lemmas add_example = add_item_def add_trait_def add_impl_def opt_u64_def metadata_type_def rm_name_def rm_ident_def
  generate_trait_item_method_def generate_delegate_closure_def typed_arg_types_def List.map_filter_def
  rpc_param_types_def special_args_def tuple_field_names_def exp_map_def parse_params_stmt_def
  params_with_trailing_def generate_add_aliases_def exec_branch_def params_parse_def trailing_spec_def

definition add_closure :: delegate_closure where
  "add_closure = \<lparr>dc_ident = ''add'', dc_extra_args = [], dc_fields = [''a'', ''b''],
     dc_parse = ParseTrailing 1 2 [\<lparr>br_passed = 1, br_types = [plain_path [Segment ''u64'' NoArguments]], br_missed = 1\<rparr>,
       \<lparr>br_passed = 2, br_types = [plain_path [Segment ''u64'' NoArguments], opt_u64], br_missed = 0\<rparr>],
     dc_kind = MethodClosure\<rparr>"

lemma add_closure_generated: "generate_delegate_closure add_item False = Expanded add_closure"
  by (simp add: add_example add_closure_def upt_rec)

theorem trailing_params_optional_witness:
  "exec_parse (\<lambda>_. []) read_nats (dc_parse add_closure) (ParamsArray [VNumber 5]) = Ok [Given 5, Missing]"
  using trailing_params_optional [OF add_closure_generated refl refl, of "\<lambda>_. []" read_nats "ParamsArray [VNumber 5]"]
  by (simp add: add_example)

definition add_delegate :: to_delegate_fn where
  "add_delegate = \<lparr>td_pubsub = False, td_has_metadata = False,
     td_stmts = [AddMethod False ''add'' add_closure, AddAlias ''plus'' ''add''], td_where = []\<rparr>"

lemma add_delegate_generated:
  "generate_trait_item_method [RegStandard add_item False] add_trait False False = Expanded add_delegate"
  using add_closure_generated
  by (simp add: add_delegate_def generate_trait_item_method_def exp_map_def generate_add_aliases_def where_predicates_def
      add_item_def add_trait_def rm_name_def Let_def)

theorem generated_method_answers_witness:
  "run_call (delegate_augment (to_delegate (\<lambda>_. []) read_nats add_impl add_delegate 30) default_handler)
     (MethodCall \<lparr>mc_jsonrpc = Some V2, mc_method = ''plus'', mc_params = ParamsArray [VNumber 5, VNumber 7], mc_id = IdNum 1\<rparr>)
     () 0 =
   Some (Some (Success \<lparr>su_jsonrpc = Some V2, su_result = VNumber 42, su_id = IdNum 1\<rparr>), 0)"
proof -
  let ?mc = "\<lparr>mc_jsonrpc = Some V2, mc_method = ''plus'', mc_params = ParamsArray [VNumber 5, VNumber 7], mc_id = IdNum 1\<rparr>"
  have "exec_parse (\<lambda>_. []) read_nats (dc_parse add_closure) (mc_params ?mc) = Ok [Given 5, Given 7]"
    by (simp add: add_closure_def exec_branch_def params_parse_def)
  then show ?thesis
    using generated_method_answers [OF add_delegate_generated _ add_closure_generated, of False default_handler ?mc
        "\<lambda>_. []" read_nats "[Given 5, Given 7]" add_impl 30 "()" 0 "fut_ready (Ok 42)" 0 "Ok 42" 0]
    by (simp add: add_delegate_def add_closure_def default_handler_def with_compatibility_def default_compatibility_def
        add_impl_def add_item_def answer_of_def)
qed

end
