(* ===== verification/Derive_Client.thy ===== *)
theory Derive_Client
  imports Derive_Delegate Client
begin

text \<open>
  The client side of the \<open>rpc\<close> macro (\<open>derive/src/to_client.rs\<close>): the methods of the generated
  client, with the arguments they take, the way these are serialized and the call they make on the
  typed client.

  Parsing a type from a string and the text of a type are those of the \<open>syn\<close> and \<open>quote\<close> crates, the
  arguments \<open>parse_str\<close> and \<open>type_text\<close>; \<open>crate_name\<close> looks up the name of a crate.
\<close>

section \<open>Arguments and results\<close>

text \<open>A path has at least one segment.\<close>

fun client_arg :: "fn_arg \<Rightarrow> bool" where
  "client_arg (Typed _ (TypePath _ _ (s # _))) = (seg_ident s \<noteq> ''Self'')"
| "client_arg _ = False"

definition compute_args :: "trait_method \<Rightarrow> fn_arg list" where
  "compute_args m = filter client_arg (tm_inputs m)"

fun compute_arg_identifiers :: "fn_arg list \<Rightarrow> (string list, string) result" where
  "compute_arg_identifiers [] = Ok []"
| "compute_arg_identifiers (Typed (PatIdent i) _ # args) = map_ok (\<lambda>is. i # is) (compute_arg_identifiers args)"
| "compute_arg_identifiers (Typed PatWild _ # args) = Err ''No wildcard patterns allowed in rpc trait.''"
| "compute_arg_identifiers (_ # args) = compute_arg_identifiers args"

fun get_first_type_argument :: "path_arguments \<Rightarrow> syn_type option" where
  "get_first_type_argument (AngleBracketed (GenType ty # _)) = Some ty"
| "get_first_type_argument _ = None"

fun path_segments :: "syn_type \<Rightarrow> path_segment list option" where
  "path_segments (TypePath _ _ segs) = Some segs"
| "path_segments _ = None"

text \<open>The first type argument of a segment, as \<open>Ok\<close> when the segment is a result type.\<close>

fun check_segment :: "path_segment \<Rightarrow> (syn_type option, syn_type option) result" where
  "check_segment (Segment i args) =
     (let inner = get_first_type_argument args in if ends_with i ''Result'' then Ok inner else Err inner)"

fun try_infer_returns :: "return_type \<Rightarrow> syn_type option" where
  "try_infer_returns ReturnDefault = None"
| "try_infer_returns (ReturnType ty) =
     (case path_segments ty of
        Some (seg # _) \<Rightarrow>
          (case check_segment seg of
             Ok returns \<Rightarrow> returns
           | Err inner \<Rightarrow>
               (case Option.bind inner path_segments of
                  Some (seg' # _) \<Rightarrow> (case check_segment seg' of Ok returns \<Rightarrow> returns | Err _ \<Rightarrow> None)
                | _ \<Rightarrow> None))
      | _ \<Rightarrow> None)"

text \<open>The error is reported at the first attribute of the method; the macro panics without one.\<close>

definition compute_returns ::
    "(string \<Rightarrow> (syn_type, string) result) \<Rightarrow> trait_method \<Rightarrow> string option \<Rightarrow> syn_type expansion" where
  "compute_returns parse_str m returns =
     exp_bind (case returns of
                 Some s \<Rightarrow> exp_map Some (exp_result (parse_str s))
               | None \<Rightarrow> Expanded None) (\<lambda>returns.
       case (case returns of None \<Rightarrow> try_infer_returns (tm_output m) | Some _ \<Rightarrow> returns) of
         Some ty \<Rightarrow> Expanded ty
       | None \<Rightarrow> if tm_attrs m = [] then ExpandPanic else ExpandError ''Missing returns attribute.'')"

fun last_segment_argument :: "fn_arg \<Rightarrow> syn_type option" where
  "last_segment_argument (Typed _ (TypePath _ _ segs)) =
     (case last segs of Segment _ args \<Rightarrow> if segs = [] then None else get_first_type_argument args)"
| "last_segment_argument _ = None"

definition compute_subscription_type :: "fn_arg \<Rightarrow> syn_type expansion" where
  "compute_subscription_type arg =
     (case last_segment_argument arg of Some ty \<Rightarrow> Expanded ty | None \<Rightarrow> ExpandPanic)"

fun is_doc_comment :: "(syn_meta, string) result \<Rightarrow> bool" where
  "is_doc_comment (Ok meta) = (case meta_path meta of SynPath _ (s # _) \<Rightarrow> s = ''doc'' | SynPath _ [] \<Rightarrow> False)"
| "is_doc_comment (Err _) = False"

definition get_doc_comments :: "(syn_meta, string) result list \<Rightarrow> (syn_meta, string) result list" where
  "get_doc_comments attrs = filter is_doc_comment attrs"

section \<open>Generated methods\<close>

text \<open>How a generated method serializes its arguments: as an object, as a tuple, as its first argument
  alone, or as null.\<close>

datatype args_expr = ArgsNamed "string list" | ArgsTuple "string list" | ArgsFirst string | ArgsNull

text \<open>The body of a generated method is a call on the typed client.\<close>

datatype client_body =
    CallMethod string string args_expr
  | Subscribe string args_expr string string string
  | Notify string args_expr

record client_fn =
  cf_docs :: "(syn_meta, string) result list"
  cf_ident :: string
  cf_args :: "fn_arg list"
  cf_returns :: "syn_type option"
  cf_body :: client_body

definition args_serialized :: "param_style \<Rightarrow> string list \<Rightarrow> args_expr" where
  "args_serialized style arg_names =
     (case style of
        Named \<Rightarrow> ArgsNamed arg_names
      | Positional \<Rightarrow> ArgsTuple arg_names
      | Raw \<Rightarrow> (case arg_names of i # _ \<Rightarrow> ArgsFirst i | [] \<Rightarrow> ArgsNull))"

definition client_params_style :: "rpc_attribute \<Rightarrow> derive_options \<Rightarrow> param_style" where
  "client_params_style a opts = (case at_params_style a of Some st \<Rightarrow> st | None \<Rightarrow> options_params_style opts)"

fun generate_client_methods_of ::
    "(string \<Rightarrow> (syn_type, string) result) \<Rightarrow> (syn_type \<Rightarrow> string) \<Rightarrow> derive_options \<Rightarrow> method_registration
     \<Rightarrow> client_fn list expansion" where
  "generate_client_methods_of parse_str type_text opts (RegStandard m _) =
     (let item = rm_item m; args = compute_args item
      in exp_bind (exp_result (compute_arg_identifiers args)) (\<lambda>arg_names.
         case at_kind (rm_attr m) of
           PubSubKind _ _ \<Rightarrow> Expanded []
         | RpcKind _ returns _ \<Rightarrow>
             exp_map (\<lambda>returns.
               [\<lparr>cf_docs = get_doc_comments (tm_attrs item), cf_ident = tm_ident item, cf_args = args,
                 cf_returns = Some returns,
                 cf_body = CallMethod (rm_name m) (type_text returns)
                   (args_serialized (client_params_style (rm_attr m) opts) arg_names)\<rparr>])
             (compute_returns parse_str item returns)))"
| "generate_client_methods_of parse_str type_text opts (RegPubSub subscription subscribes unsubscribe) =
     exp_collect (map (\<lambda>sub.
       let item = rm_item sub
       in case compute_args item of
            [] \<Rightarrow> ExpandPanic
          | arg # args \<Rightarrow>
              exp_bind (compute_subscription_type arg) (\<lambda>returns.
              exp_map (\<lambda>arg_names.
                \<lparr>cf_docs = get_doc_comments (tm_attrs item), cf_ident = tm_ident item, cf_args = args,
                 cf_returns = Some returns,
                 cf_body = Subscribe (rm_name sub) (ArgsTuple arg_names) subscription (rm_name unsubscribe)
                   (type_text returns)\<rparr>)
              (exp_result (compute_arg_identifiers args)))) subscribes)"
| "generate_client_methods_of parse_str type_text opts (RegNotification m _) =
     (let item = rm_item m; args = compute_args item
      in exp_map (\<lambda>arg_names.
           [\<lparr>cf_docs = get_doc_comments (tm_attrs item), cf_ident = tm_ident item, cf_args = args,
             cf_returns = None, cf_body = Notify (rm_name m) (ArgsTuple arg_names)\<rparr>])
         (exp_result (compute_arg_identifiers args)))"

definition generate_client_methods ::
    "(string \<Rightarrow> (syn_type, string) result) \<Rightarrow> (syn_type \<Rightarrow> string) \<Rightarrow> method_registration list \<Rightarrow> derive_options
     \<Rightarrow> client_fn list expansion" where
  "generate_client_methods parse_str type_text regs opts =
     exp_map concat (exp_collect (map (generate_client_methods_of parse_str type_text opts) regs))"

text \<open>The generated module: the marker fields of the type parameters, the bounds and the methods.\<close>

record client_module =
  cmod_crate :: string
  cmod_markers :: "(string \<times> string) list"
  cmod_where :: "(string \<times> string list) list"
  cmod_methods :: "client_fn list"

definition generate_client_module ::
    "(string \<Rightarrow> (syn_type, string) result) \<Rightarrow> (syn_type \<Rightarrow> string) \<Rightarrow> (string \<Rightarrow> (string, string) result)
     \<Rightarrow> method_registration list \<Rightarrow> item_trait \<Rightarrow> derive_options \<Rightarrow> client_module expansion" where
  "generate_client_module parse_str type_text crate_name regs t opts =
     exp_bind (generate_client_methods parse_str type_text regs opts) (\<lambda>client_methods.
     exp_map (\<lambda>client_name.
         \<lparr>cmod_crate = client_name,
          cmod_markers = map (\<lambda>(i, ty). (CHR ''_'' # dec_of_nat i, ty)) (enumerate 0 (it_type_params t)),
          cmod_where = where_predicates t True, cmod_methods = client_methods\<rparr>)
       (exp_result (crate_name ''jsonrpc-core-client'')))"

section \<open>What a generated method sends\<close>

text \<open>The value of the serialized arguments; the empty tuple serializes to null.\<close>

fun eval_args :: "(string \<Rightarrow> 'n json) \<Rightarrow> args_expr \<Rightarrow> 'n json" where
  "eval_args env (ArgsNamed names) = VObject (fmap_of_list (rev (map (\<lambda>i. (i, env i)) names)))"
| "eval_args env (ArgsTuple names) = (if names = [] then VNull else VArray (map env names))"
| "eval_args env (ArgsFirst i) = env i"
| "eval_args env ArgsNull = VNull"

fun client_fn_call ::
    "('n, 'c, 's, 'u, 'x) client_ops \<Rightarrow> ('n json \<Rightarrow> ('r, 'x) result) \<Rightarrow> client_fn \<Rightarrow> (string \<Rightarrow> 'n json) \<Rightarrow> 'u
     \<Rightarrow> (('u, ('r, 'n, 'x) client_result) fut + (('s typed_subscription_stream, 'n, 'x) client_result
          + (unit, 'n, 'x) client_result)) \<times> 'u" where
  "client_fn_call ops from_value cf env u =
     (case cf_body cf of
        CallMethod name returns args \<Rightarrow> apfst Inl (typed_call_method ops from_value name returns (eval_args env args) u)
      | Subscribe sub args subscription unsub returns \<Rightarrow>
          apfst (Inr \<circ> Inl) (typed_subscribe ops sub (eval_args env args) subscription unsub returns u)
      | Notify name args \<Rightarrow> apfst (Inr \<circ> Inr) (client_typed_notify ops name (eval_args env args) u))"

section \<open>Client and server agree\<close>

text \<open>Methods whose client takes all the arguments that the server reads: every argument is bound to an
  identifier and has a path for its type, and the only type of the trait among them is the
  metadata, in the first place.\<close>

fun plain_arg :: "fn_arg \<Rightarrow> bool" where
  "plain_arg Receiver = True"
| "plain_arg (Typed (PatIdent _) ty) =
     (ty = metadata_type \<or> client_arg (Typed PatWild ty) \<and> \<not> has_subscriber_segment ty)"
| "plain_arg _ = False"

definition client_ready :: "trait_method \<Rightarrow> bool" where
  "client_ready m \<longleftrightarrow>
     list_all plain_arg (tm_inputs m) \<and>
     (metadata_type \<in> set (typed_arg_types m) \<longrightarrow> hd (typed_arg_types m) = metadata_type)"

lemma client_arg_pat: "client_arg (Typed (PatIdent i) ty) = client_arg (Typed PatWild ty)"
proof (cases ty)
  case (TypePath q inner segs)
  then show ?thesis by (cases segs) auto
qed auto

lemma client_arg_metadata [simp]: "\<not> client_arg (Typed p metadata_type)"
  by (simp add: metadata_type_def)

lemma client_arg_types:
  "list_all plain_arg args \<Longrightarrow>
     List.map_filter typed_arg_type (filter client_arg args) =
     filter (\<lambda>ty. ty \<noteq> metadata_type) (List.map_filter typed_arg_type args)"
proof (induction args)
  case (Cons a args)
  then show ?case
    by (cases a rule: plain_arg.cases) (auto simp: List.map_filter_simps client_arg_pat)
qed simp

lemma client_arg_names:
  "list_all plain_arg args \<Longrightarrow>
     \<exists>names. compute_arg_identifiers (filter client_arg args) = Ok names \<and>
       length names = length (List.map_filter typed_arg_type (filter client_arg args))"
proof (induction args)
  case (Cons a args)
  then show ?case
    by (cases a rule: plain_arg.cases) (auto simp: List.map_filter_simps)
qed (simp add: List.map_filter_simps)

lemma rpc_param_types_ready:
  assumes "client_ready m"
  shows "rpc_param_types (typed_arg_types m) = List.map_filter typed_arg_type (compute_args m)"
proof -
  let ?ts = "typed_arg_types m"
  have plain: "list_all plain_arg (tm_inputs m)" using assms by (simp add: client_ready_def)
  then have nosub: "\<not> has_subscriber_segment ty" if "ty \<in> set ?ts" for ty
    using that
    by (force simp: typed_arg_types_def set_map_filter list_all_iff metadata_type_def
        elim!: plain_arg.elims typed_arg_type.elims)
  have special: "special_args ?ts = (case ?ts of ty # _ \<Rightarrow> if ty = metadata_type then [(''meta'', ty)] else [] | [] \<Rightarrow> [])"
    using nosub by (auto simp: special_args_def split: list.splits)
  have "rpc_param_types ?ts = filter (\<lambda>ty. ty \<noteq> metadata_type) ?ts"
    using assms unfolding rpc_param_types_def special client_ready_def
    by (cases ?ts) (auto intro!: filter_cong filter_True [symmetric])
  then show ?thesis
    using client_arg_types [OF plain] by (simp add: compute_args_def typed_arg_types_def)
qed

lemma tuple_params: "call_params (if js = [] then VNull else VArray js) = Ok (if js = [] then ParamsNone else ParamsArray js)"
  by simp

text \<open>A tuple sent in full is read in full, also by a method with optional trailing arguments.\<close>

lemma exec_parse_full:
  assumes "parse_params_stmt (Some Positional) types = Expanded p" and "length js = length types"
    and "js \<noteq> [] \<longrightarrow> tuple_of types (VArray js) = Ok vs" and "js = [] \<longrightarrow> vs = []"
  shows "exec_parse debug tuple_of p (if js = [] then ParamsNone else ParamsArray js) = Ok (map Given vs)"
proof (cases "js = []")
  case True
  then show ?thesis using assms by (auto simp: parse_params_stmt_def)
next
  case False
  let ?k = "length (takeWhile is_option_type (rev types))"
  show ?thesis
  proof (cases "?k = 0")
    case True
    then show ?thesis using assms False by (cases types) (auto simp: parse_params_stmt_def Let_def params_parse_def)
  next
    case k: False
    then have "p = params_with_trailing ?k types" using assms(1) by (simp add: parse_params_stmt_def Let_def)
    moreover have "types \<noteq> []" using False assms(2) by auto
    ultimately show ?thesis
      using trailing_params_branch [OF trailing_le, of debug tuple_of is_option_type types js] False assms
      by (auto simp: trailing_spec_def Let_def params_parse_def)
  qed
qed

lemma client_call_generated:
  assumes "client_ready (rm_item m)" and "at_params_style (rm_attr m) = Some Positional"
    and "generate_client_methods_of parse_str type_text opts (RegStandard m b) = Expanded [cf]"
  shows "\<exists>ret names. cf_body cf = CallMethod (rm_name m) ret (ArgsTuple names) \<and>
    compute_arg_identifiers (compute_args (rm_item m)) = Ok names \<and>
    length names = length (rpc_param_types (typed_arg_types (rm_item m)))"
proof -
  obtain names where names: "compute_arg_identifiers (compute_args (rm_item m)) = Ok names"
    "length names = length (rpc_param_types (typed_arg_types (rm_item m)))"
    using client_arg_names [of "tm_inputs (rm_item m)"] rpc_param_types_ready [OF assms(1)] assms(1)
    by (auto simp: client_ready_def compute_args_def)
  then show ?thesis
    using assms by (auto simp: Let_def exp_map_Expanded client_params_style_def args_serialized_def split: attribute_kind.splits)
qed

text \<open>C9: the generated client and the generated server agree. A call made through a method of the
  generated client carries the name of the method and parameters from which the generated delegate
  recovers the arguments; on the handler that the delegate is installed in, the method of the trait
  is run on these arguments and its result or error is the answer to the call. The method takes
  its parameters by position, and deserialization reads back the tuple of arguments that was
  serialized.\<close>

theorem generated_client_calls_server:
  assumes "client_ready (rm_item m)" and "at_params_style (rm_attr m) = Some Positional"
    and "generate_client_methods_of parse_str type_text opts (RegStandard m b) = Expanded [cf]"
    and "generate_trait_item_method regs t has_metadata False = Expanded td" and "RegStandard m b \<in> set regs"
    and "list_all (stmt_supported False) (td_stmts td)" and "distinct (map stmt_name (td_stmts td))"
    and "middleware h = Noop" and "is_version_valid (compatibility h) (Some V2)"
    and "length js = length (rpc_param_types (typed_arg_types (rm_item m)))"
    and "map_ok (map env) (compute_arg_identifiers (compute_args (rm_item m))) = Ok js"
    and "js \<noteq> [] \<longrightarrow> tuple_of (rpc_param_types (typed_arg_types (rm_item m))) (VArray js) = Ok vs"
    and "js = [] \<longrightarrow> vs = []"
    and "ti_call ti (rm_ident m) self (if b then Some meta else None) (map Given vs) w = (f, w1)" and "f w1 = Some (r, w2)"
  shows "\<exists>ret args params.
    cf_body cf = CallMethod (rm_name m) ret args \<and>
    call_params (eval_args env args) = (Ok params :: ('n params, 'n, 'x) client_result) \<and>
    run_call (delegate_augment (to_delegate debug tuple_of ti td self) h)
      (MethodCall \<lparr>mc_jsonrpc = Some V2, mc_method = rm_name m, mc_params = params, mc_id = i\<rparr>) meta w =
      Some (Some (output_from (answer_of (ti_to_value ti) (ti_into_error ti) r) i (Some V2)), w2)"
proof -
  let ?params = "if js = [] then ParamsNone else ParamsArray js"
  let ?mc = "\<lparr>mc_jsonrpc = Some V2, mc_method = rm_name m, mc_params = ?params, mc_id = i\<rparr>"
  obtain ret names where body: "cf_body cf = CallMethod (rm_name m) ret (ArgsTuple names)"
    and names: "compute_arg_identifiers (compute_args (rm_item m)) = Ok names"
    using client_call_generated [OF assms(1-3)] by blast
  have js: "map env names = js" using assms(11) names by simp
  then have args: "eval_args env (ArgsTuple names) = (if js = [] then VNull else VArray js)" by auto
  obtain ss where ss: "generate_registration (RegStandard m b) = Expanded ss"
    using generated_stmts [OF assms(4,5)] by blast
  then obtain cl where cl: "generate_delegate_closure m False = Expanded cl" by (auto simp: exp_map_Expanded)
  have "exec_parse debug tuple_of (dc_parse cl) ?params = Ok (map Given vs)"
    using exec_parse_full [of "rpc_param_types (typed_arg_types (rm_item m))" "dc_parse cl" js tuple_of vs debug]
      closure_parse [OF cl] assms by simp
  then have "run_call (delegate_augment (to_delegate debug tuple_of ti td self) h) (MethodCall ?mc) meta w =
      Some (Some (output_from (answer_of (ti_to_value ti) (ti_into_error ti) r) i (Some V2)), w2)"
    using generated_call [OF assms(4,5) cl assms(6,7,8), of ?mc debug tuple_of "map Given vs" ti self meta w f w1 r w2] assms
    by simp
  then show ?thesis
    using body args tuple_params [of js] by (intro exI [of _ ret] exI [of _ "ArgsTuple names"] exI [of _ ?params]) simp
qed

definition add_client_fn :: client_fn where
  "add_client_fn =
     \<lparr>cf_docs = [], cf_ident = ''add'', cf_args = tl (tm_inputs (rm_item add_item)),
      cf_returns = Some (plain_path [Segment ''u64'' NoArguments]),
      cf_body = CallMethod ''add'' ''u64'' (ArgsTuple [''a'', ''b''])\<rparr>"

lemma add_client_generated:
  "generate_client_methods_of (\<lambda>_. Err []) (\<lambda>_. ''u64'') (derive_options_new True True Positional)
     (RegStandard add_item False) = Expanded [add_client_fn]"
  by (simp add: add_client_fn_def add_item_def compute_args_def opt_u64_def get_doc_comments_def compute_returns_def
      ends_with_def is_prefix_def exp_map_def client_params_style_def args_serialized_def rm_name_def)

theorem generated_client_calls_server_witness:
  "\<exists>ret args params.
    cf_body add_client_fn = CallMethod (rm_name add_item) ret args \<and>
    call_params (eval_args (\<lambda>i. VNumber (if i = ''a'' then 5 else 7)) args) =
      (Ok params :: (nat params, nat, unit) client_result) \<and>
    run_call (delegate_augment (to_delegate (\<lambda>_. []) read_nats add_impl add_delegate 30) default_handler)
      (MethodCall \<lparr>mc_jsonrpc = Some V2, mc_method = rm_name add_item, mc_params = params, mc_id = IdNum 1\<rparr>) () 0 =
      Some (Some (output_from (answer_of (ti_to_value add_impl) (ti_into_error add_impl) (Ok 42)) (IdNum 1) (Some V2)), 0)"
  by (rule generated_client_calls_server [OF _ _ add_client_generated add_delegate_generated, where
        js = "[VNumber 5, VNumber 7]" and vs = "[5, 7]" and f = "fut_ready (Ok 42)" and ?w1.0 = 0])
    (simp_all add: add_delegate_def add_closure_def default_handler_def with_compatibility_def default_compatibility_def
      client_ready_def compute_args_def opt_u64_def typed_arg_types_def List.map_filter_def rpc_param_types_def
      special_args_def metadata_type_def add_impl_def add_item_def)

section \<open>Arguments that the client does not take\<close>

lemma special_arg_path: "(x, sty) \<in> set (special_args types) \<Longrightarrow> path_segments sty \<noteq> None"
  by (auto simp: special_args_def metadata_type_def split: list.splits if_splits elim!: has_subscriber_segment.elims)

text \<open>An argument whose type is not a path, such as a tuple, an array or a reference, is left out of
  the method of the generated client, while the generated server reads it from the parameters; the
  two sides disagree on the parameters of such a method.\<close>

theorem non_path_argument_dropped:
  assumes "Typed p ty \<in> set (tm_inputs m)" and "path_segments ty = None"
  shows "Typed p ty \<notin> set (compute_args m) \<and> ty \<in> set (rpc_param_types (typed_arg_types m))"
proof
  have "\<not> client_arg (Typed p ty)" using assms(2) by (cases ty) auto
  then show "Typed p ty \<notin> set (compute_args m)" by (simp add: compute_args_def)
  have "ty \<in> set (typed_arg_types m)"
    using assms(1) by (force simp: typed_arg_types_def set_map_filter)
  moreover have "\<not> list_ex (\<lambda>(_, sty). sty = ty) (special_args (typed_arg_types m))"
    using special_arg_path [of _ _ "typed_arg_types m"] assms(2) by (fastforce simp: list_ex_iff)
  ultimately show "ty \<in> set (rpc_param_types (typed_arg_types m))" by (simp add: rpc_param_types_def)
qed

text \<open>For \<open>fn area(&self, size: (u64, u64))\<close> the client sends no parameters and the server refuses them.\<close>

definition area_item :: rpc_method_item where
  "area_item = add_item\<lparr>rm_item := (rm_item add_item)\<lparr>tm_inputs :=
     [Receiver, Typed (PatIdent ''size'') (TypeTuple [plain_path [Segment ''u64'' NoArguments], plain_path [Segment ''u64'' NoArguments]] False)]\<rparr>\<rparr>"

theorem non_path_argument_dropped_witness:
  "Typed (PatIdent ''size'') (TypeTuple [plain_path [Segment ''u64'' NoArguments], plain_path [Segment ''u64'' NoArguments]] False)
     \<notin> set (compute_args (rm_item area_item)) \<and>
   TypeTuple [plain_path [Segment ''u64'' NoArguments], plain_path [Segment ''u64'' NoArguments]] False
     \<in> set (rpc_param_types (typed_arg_types (rm_item area_item)))"
  by (rule non_path_argument_dropped) (simp_all add: area_item_def)

end
