(* ===== verification/Derive_Trait.thy ===== *)
theory Derive_Trait
  imports Derive_Client
begin

text \<open>
  The \<open>rpc\<close> macro on a trait (\<open>derive/src/rpc_trait.rs\<close>): collecting the annotated methods, pairing the
  subscribe and unsubscribe methods of each subscription, and assembling the generated modules.

  The order in which a hash map is iterated is open: it is the argument \<open>iter\<close>, a rearrangement of
  the map.
\<close>

section \<open>Registrations\<close>

fun annotated_item :: "trait_item \<Rightarrow> (rpc_method_item, string) result option" where
  "annotated_item (TraitMethod m) =
     (case parse_attr m of
        Ok (Some attr) \<Rightarrow> Some (Ok (rpc_method_new attr m))
      | Ok None \<Rightarrow> None
      | Err e \<Rightarrow> Some (Err e))"
| "annotated_item _ = None"

definition annotated_methods :: "item_trait \<Rightarrow> (rpc_method_item list, string) result" where
  "annotated_methods t = collect_results (List.map_filter annotated_item (it_items t))"

type_synonym pubsub_pair = "rpc_method_item list \<times> rpc_method_item option"

fun register_methods ::
    "rpc_method_item list \<Rightarrow> (string, pubsub_pair) hash_map \<Rightarrow> method_registration list
     \<Rightarrow> ((string, pubsub_pair) hash_map \<times> method_registration list, string) result" where
  "register_methods [] pairs regs = Ok (pairs, regs)"
| "register_methods (m # ms) pairs regs =
     (case at_kind (rm_attr m) of
        RpcKind has_metadata _ is_notification \<Rightarrow>
          register_methods ms pairs
            (regs @ [if is_notification then RegNotification m has_metadata else RegStandard m has_metadata])
      | PubSubKind subscription_name kind \<Rightarrow>
          (let (sub, unsub) = (case map_of pairs subscription_name of Some p \<Rightarrow> p | None \<Rightarrow> ([], None))
           in case kind of
                SubscribeKind \<Rightarrow>
                  register_methods ms (snd (hm_insert subscription_name (sub @ [m], unsub) pairs)) regs
              | UnsubscribeKind \<Rightarrow>
                  (case unsub of
                     None \<Rightarrow> register_methods ms (snd (hm_insert subscription_name (sub, Some m) pairs)) regs
                   | Some _ \<Rightarrow>
                       Err (''Subscription '' @ [CHR 0x27] @ subscription_name @ [CHR 0x27] @
                            '' unsubscribe method is already defined''))))"

definition missing_subscribe_method_err :: string where
  "missing_subscribe_method_err =
     ''Can'' @ [CHR 0x27] @ ''t find subscribe method, expected a method annotated with `subscribe` '' @
     ''e.g. `#[pubsub(subscription = '' @ [CHR 0x22] @ ''hello'' @ [CHR 0x22] @ '', subscribe, name = '' @
     [CHR 0x22] @ ''hello_subscribe'' @ [CHR 0x22] @ '')]`''"

definition missing_unsubscribe_method_err :: string where
  "missing_unsubscribe_method_err =
     ''Can'' @ [CHR 0x27] @ ''t find unsubscribe method, expected a method annotated with `unsubscribe` '' @
     ''e.g. `#[pubsub(subscription = '' @ [CHR 0x22] @ ''hello'' @ [CHR 0x22] @ '', unsubscribe, name = '' @
     [CHR 0x22] @ ''hello_unsubscribe'' @ [CHR 0x22] @ '')]`''"

definition subscription_err :: "string \<Rightarrow> string \<Rightarrow> string" where
  "subscription_err name msg = ''subscription '' @ [CHR 0x27] @ name @ [CHR 0x27] @ ''. '' @ msg"

text \<open>The first subscriber argument that differs from the one of the first subscribe method with one.\<close>

definition inconsistent_subscriber :: "rpc_method_item list \<Rightarrow> (syn_type \<times> syn_type) option" where
  "inconsistent_subscriber subs =
     (case List.map_filter subscriber_arg subs of
        [] \<Rightarrow> None
      | a # rest \<Rightarrow> map_option (\<lambda>b. (b, a)) (List.find (\<lambda>b. b \<noteq> a) rest))"

fun register_pairs ::
    "(syn_type \<Rightarrow> string) \<Rightarrow> (string, pubsub_pair) hash_map \<Rightarrow> method_registration list
     \<Rightarrow> (method_registration list, string) result" where
  "register_pairs type_text [] regs = Ok regs"
| "register_pairs type_text ((name, subs, Some unsub) # ps) regs =
     (if subs = [] then Err (subscription_err name missing_subscribe_method_err)
      else case inconsistent_subscriber subs of
             Some (b, a) \<Rightarrow>
               Err (''Inconsistent signature for '' @ [CHR 0x27] @ ''Subscriber'' @ [CHR 0x27] @ '' argument: '' @
                    type_text b @ '', previously defined: '' @ type_text a)
           | None \<Rightarrow> register_pairs type_text ps (regs @ [RegPubSub name subs unsub]))"
| "register_pairs type_text ((name, subs, None) # ps) regs =
     Err (subscription_err name missing_unsubscribe_method_err)"

definition compute_method_registrations ::
    "((string, pubsub_pair) hash_map \<Rightarrow> (string, pubsub_pair) hash_map) \<Rightarrow> (syn_type \<Rightarrow> string) \<Rightarrow> item_trait
     \<Rightarrow> (method_registration list \<times> rpc_method_item list, string) result" where
  "compute_method_registrations iter type_text t =
     and_then (annotated_methods t) (\<lambda>ms.
     and_then (register_methods ms [] []) (\<lambda>(pairs, regs).
       map_ok (\<lambda>regs. (regs, ms)) (register_pairs type_text (iter pairs) regs)))"

section \<open>The generated modules\<close>

text \<open>Folding the trait for the server: the attributes that were read are stripped from the methods, and
  the metadata type gets its bound.\<close>

record rpc_trait =
  rt_has_pubsub :: bool
  rt_methods :: "rpc_method_item list"
  rt_has_metadata :: bool

definition fold_trait_item_method :: "rpc_trait \<Rightarrow> trait_method \<Rightarrow> trait_method" where
  "fold_trait_item_method rt m =
     m\<lparr>tm_attrs := filter (\<lambda>a.
         case List.find (\<lambda>r. rm_item r = m) (rt_methods rt) of None \<Rightarrow> True | Some r \<Rightarrow> at_attr (rm_attr r) \<noteq> a)
       (tm_attrs m)\<rparr>"

definition fold_trait_item_type :: "rpc_trait \<Rightarrow> string \<Rightarrow> string list \<Rightarrow> string list \<times> rpc_trait" where
  "fold_trait_item_type rt i bounds =
     (if i = ''Metadata''
      then (bounds @ [if rt_has_pubsub rt then ''_jsonrpc_pubsub::PubSubMetadata'' else ''_jsonrpc_core::Metadata''],
            rt\<lparr>rt_has_metadata := True\<rparr>)
      else (bounds, rt))"

fun fold_trait_items :: "rpc_trait \<Rightarrow> trait_item list \<Rightarrow> trait_item list \<times> rpc_trait" where
  "fold_trait_items rt [] = ([], rt)"
| "fold_trait_items rt (TraitMethod m # items) = apfst (\<lambda>is. TraitMethod (fold_trait_item_method rt m) # is) (fold_trait_items rt items)"
| "fold_trait_items rt (TraitType i bounds # items) =
     (case fold_trait_item_type rt i bounds of
        (bounds', rt') \<Rightarrow> apfst (\<lambda>is. TraitType i bounds' # is) (fold_trait_items rt' items))"
| "fold_trait_items rt (TraitOther s # items) = apfst (\<lambda>is. TraitOther s # is) (fold_trait_items rt items)"

record server_module =
  smod_pubsub_import :: "string option"
  smod_trait :: item_trait
  smod_to_delegate :: to_delegate_fn

definition generate_server_module ::
    "(string \<Rightarrow> (string, string) result) \<Rightarrow> method_registration list \<Rightarrow> item_trait \<Rightarrow> rpc_method_item list
     \<Rightarrow> server_module expansion" where
  "generate_server_module crate_name regs t ms =
     (let has_pubsub_methods = list_ex rm_is_pubsub ms;
          (items, rt) = fold_trait_items
            \<lparr>rt_has_pubsub = has_pubsub_methods, rt_methods = ms, rt_has_metadata = False\<rparr> (it_items t);
          server_trait = t\<lparr>it_items := items\<rparr>
      in exp_bind (generate_trait_item_method regs server_trait (rt_has_metadata rt) has_pubsub_methods) (\<lambda>td.
         exp_map (\<lambda>imp.
             \<lparr>smod_pubsub_import = imp,
              smod_trait = server_trait\<lparr>it_supertraits :=
                it_supertraits t @ [''Sized'', ''Send'', ''Sync'', CHR 0x27 # ''static'']\<rparr>,
              smod_to_delegate = td\<rparr>)
           (if has_pubsub_methods then exp_map Some (exp_result (crate_name ''jsonrpc-pubsub'')) else Expanded None)))"

definition rpc_wrapper_mod_name :: "item_trait \<Rightarrow> string" where
  "rpc_wrapper_mod_name t = ''rpc_impl_'' @ it_ident t"

definition has_named_params :: "rpc_method_item list \<Rightarrow> bool" where
  "has_named_params ms = list_ex (\<lambda>m. at_params_style (rm_attr m) = Some Named) ms"

definition named_params_with_server_err :: string where
  "named_params_with_server_err =
     ''`params = '' @ [CHR 0x22] @ ''named'' @ [CHR 0x22] @
     ''` can only be used to generate a client (on a trait annotated with #[rpc(client)]). '' @
     ''At this time the server does not support named parameters.''"

datatype syn_item = ItemTrait item_trait | ItemOther string

record generated_code =
  gc_mod_name :: string
  gc_core_name :: string
  gc_client :: "(string \<times> client_module) option"
  gc_server :: "(string \<times> server_module) option"

definition rpc_impl ::
    "((string, pubsub_pair) hash_map \<Rightarrow> (string, pubsub_pair) hash_map) \<Rightarrow> (string \<Rightarrow> (syn_type, string) result)
     \<Rightarrow> (syn_type \<Rightarrow> string) \<Rightarrow> (string \<Rightarrow> (string, string) result) \<Rightarrow> syn_item \<Rightarrow> derive_options
     \<Rightarrow> generated_code expansion" where
  "rpc_impl iter parse_str type_text crate_name item opts =
     (case item of
        ItemOther _ \<Rightarrow> ExpandError ''The #[rpc] custom attribute only works with trait declarations''
      | ItemTrait t \<Rightarrow>
          exp_bind (exp_result (compute_method_registrations iter type_text t)) (\<lambda>(regs, ms).
          exp_bind (exp_result (crate_name ''jsonrpc-core'')) (\<lambda>core_name.
          exp_bind
            (if enable_client opts
             then exp_map (\<lambda>c. Some (it_ident t @ ''Client'', c)) (generate_client_module parse_str type_text crate_name regs t opts)
             else Expanded None) (\<lambda>client.
          exp_bind
            (if enable_server opts then
               if has_named_params ms then ExpandError named_params_with_server_err
               else exp_map (\<lambda>s. Some (it_ident t, s)) (generate_server_module crate_name regs t ms)
             else Expanded None) (\<lambda>server.
          Expanded \<lparr>gc_mod_name = rpc_wrapper_mod_name t, gc_core_name = core_name, gc_client = client, gc_server = server\<rparr>)))))"


section \<open>Every annotated method is registered\<close>

fun reg_methods :: "method_registration \<Rightarrow> rpc_method_item list" where
  "reg_methods (RegStandard m _) = [m]"
| "reg_methods (RegNotification m _) = [m]"
| "reg_methods (RegPubSub _ subs unsub) = subs @ [unsub]"

text \<open>A well-formed registration: the kinds of its methods fit, and a subscription has a subscribe method
  and subscriber arguments of one type.\<close>

fun reg_wf :: "method_registration \<Rightarrow> bool" where
  "reg_wf (RegStandard m b) = (case at_kind (rm_attr m) of RpcKind hm _ n \<Rightarrow> hm = b \<and> \<not> n | PubSubKind _ _ \<Rightarrow> False)"
| "reg_wf (RegNotification m b) = (case at_kind (rm_attr m) of RpcKind hm _ n \<Rightarrow> hm = b \<and> n | PubSubKind _ _ \<Rightarrow> False)"
| "reg_wf (RegPubSub name subs unsub) =
     (subs \<noteq> [] \<and> list_all (\<lambda>m. at_kind (rm_attr m) = PubSubKind name SubscribeKind) subs \<and>
      at_kind (rm_attr unsub) = PubSubKind name UnsubscribeKind \<and>
      list_all (\<lambda>a. list_all (\<lambda>b. a = b) (List.map_filter subscriber_arg subs)) (List.map_filter subscriber_arg subs))"

fun pair_methods :: "pubsub_pair \<Rightarrow> rpc_method_item list" where
  "pair_methods (subs, unsub) = subs @ (case unsub of None \<Rightarrow> [] | Some u \<Rightarrow> [u])"

definition pairs_methods :: "(string, pubsub_pair) hash_map \<Rightarrow> rpc_method_item multiset" where
  "pairs_methods pairs = mset (concat (map (pair_methods \<circ> snd) pairs))"

definition regs_methods :: "method_registration list \<Rightarrow> rpc_method_item multiset" where
  "regs_methods regs = mset (concat (map reg_methods regs))"

fun pair_wf :: "string \<Rightarrow> pubsub_pair \<Rightarrow> bool" where
  "pair_wf name (subs, unsub) =
     (list_all (\<lambda>m. at_kind (rm_attr m) = PubSubKind name SubscribeKind) subs \<and>
      (case unsub of None \<Rightarrow> True | Some u \<Rightarrow> at_kind (rm_attr u) = PubSubKind name UnsubscribeKind))"

definition pairs_wf :: "(string, pubsub_pair) hash_map \<Rightarrow> bool" where
  "pairs_wf pairs \<longleftrightarrow> hm_wf pairs \<and> list_all (\<lambda>(name, p). pair_wf name p) pairs"

lemma pairs_methods_update:
  "pairs_methods (AList.update k p pairs) +
     mset (case map_of pairs k of Some q \<Rightarrow> pair_methods q | None \<Rightarrow> []) = pairs_methods pairs + mset (pair_methods p)"
  by (induction pairs) (auto simp: pairs_methods_def)

lemma list_all_update:
  "list_all (\<lambda>(k, v). P k v) kvs \<Longrightarrow> P k v \<Longrightarrow> list_all (\<lambda>(k, v). P k v) (AList.update k v kvs)"
  by (induction kvs) auto

lemma pairs_wf_insert: "pairs_wf pairs \<Longrightarrow> pair_wf k p \<Longrightarrow> pairs_wf (snd (hm_insert k p pairs))"
  by (simp add: pairs_wf_def hm_insert_def list_all_update hm_wf_def distinct_update)

lemma pairs_wf_lookup: "pairs_wf pairs \<Longrightarrow> map_of pairs k = Some p \<Longrightarrow> pair_wf k p"
  by (auto simp: pairs_wf_def list_all_iff dest!: map_of_SomeD)

definition pair_of :: "(string, pubsub_pair) hash_map \<Rightarrow> string \<Rightarrow> pubsub_pair" where
  "pair_of pairs name = (case map_of pairs name of Some p \<Rightarrow> p | None \<Rightarrow> ([], None))"

lemma pair_of_wf: "pairs_wf pairs \<Longrightarrow> pair_wf name (pair_of pairs name)"
  using pairs_wf_lookup [of pairs name] by (cases "map_of pairs name") (simp_all add: pair_of_def)

lemma pairs_methods_insert:
  assumes "mset (pair_methods p) = add_mset m (mset (pair_methods (pair_of pairs name)))"
  shows "pairs_methods (snd (hm_insert name p pairs)) = add_mset m (pairs_methods pairs)"
proof -
  have "mset (case map_of pairs name of Some q \<Rightarrow> pair_methods q | None \<Rightarrow> []) = mset (pair_methods (pair_of pairs name))"
    by (simp add: pair_of_def split: option.splits)
  then show ?thesis using pairs_methods_update [of name p pairs] assms by (simp add: hm_insert_def)
qed

lemma register_methods_pubsub:
  assumes "at_kind (rm_attr m) = PubSubKind name kind" and "register_methods (m # ms) pairs regs = Ok x" and "pairs_wf pairs"
  shows "\<exists>pairs1. register_methods ms pairs1 regs = Ok x \<and> pairs_wf pairs1 \<and>
    pairs_methods pairs1 = add_mset m (pairs_methods pairs)"
proof -
  obtain sub unsub where old: "pair_of pairs name = (sub, unsub)" by fastforce
  note wf = pair_of_wf [OF assms(3), of name, unfolded old]
  show ?thesis
  proof (cases kind)
    case SubscribeKind
    then show ?thesis
      using assms old wf
      by (intro exI [of _ "snd (hm_insert name (sub @ [m], unsub) pairs)"])
        (auto intro!: pairs_wf_insert pairs_methods_insert simp: pair_of_def)
  next
    case UnsubscribeKind
    then have "unsub = None" "register_methods ms (snd (hm_insert name (sub, Some m) pairs)) regs = Ok x"
      using assms old by (auto simp: pair_of_def split: option.splits)
    then show ?thesis
      using assms old wf UnsubscribeKind
      by (intro exI [of _ "snd (hm_insert name (sub, Some m) pairs)"])
        (auto intro!: pairs_wf_insert pairs_methods_insert)
  qed
qed

text \<open>What the first loop keeps: no method is lost or doubled, and pairs and registrations are well-formed.\<close>

fun is_pubsub_reg :: "method_registration \<Rightarrow> bool" where
  "is_pubsub_reg (RegPubSub _ _ _) = True"
| "is_pubsub_reg _ = False"

lemma register_methods_keeps:
  assumes "register_methods ms pairs regs = Ok (pairs', regs')" and "pairs_wf pairs"
    and "list_all (\<lambda>r. reg_wf r \<and> \<not> is_pubsub_reg r) regs"
  shows "regs_methods regs' + pairs_methods pairs' = mset ms + regs_methods regs + pairs_methods pairs \<and>
    pairs_wf pairs' \<and> list_all (\<lambda>r. reg_wf r \<and> \<not> is_pubsub_reg r) regs'"
  using assms
proof (induction ms arbitrary: pairs regs)
  case (Cons m ms)
  show ?case
  proof (cases "at_kind (rm_attr m)")
    case (RpcKind hm ret n)
    let ?r = "if n then RegNotification m hm else RegStandard m hm"
    have "register_methods ms pairs (regs @ [?r]) = Ok (pairs', regs')" using Cons.prems(1) RpcKind by simp
    from Cons.IH [OF this Cons.prems(2)] show ?thesis
      using Cons.prems(3) RpcKind by (auto simp: regs_methods_def split: if_splits)
  next
    case (PubSubKind name kind)
    then obtain pairs1 where "register_methods ms pairs1 regs = Ok (pairs', regs')" "pairs_wf pairs1"
      "pairs_methods pairs1 = add_mset m (pairs_methods pairs)"
      using register_methods_pubsub Cons.prems by blast
    then show ?thesis using Cons.IH [of pairs1 regs] Cons.prems(3) by simp
  qed
qed simp

lemma inconsistent_None:
  "inconsistent_subscriber subs = None \<Longrightarrow>
     list_all (\<lambda>a. list_all (\<lambda>b. a = b) (List.map_filter subscriber_arg subs)) (List.map_filter subscriber_arg subs)"
  by (auto simp: inconsistent_subscriber_def find_None_iff list_all_iff split: list.splits)

lemma register_pairs_keeps:
  assumes "register_pairs type_text ps regs = Ok regs'" and "list_all (\<lambda>(name, p). pair_wf name p) ps"
    and "list_all reg_wf regs"
  shows "regs_methods regs' = regs_methods regs + pairs_methods ps \<and> list_all reg_wf regs' \<and>
    [n. RegPubSub n _ _ \<leftarrow> regs'] = [n. RegPubSub n _ _ \<leftarrow> regs] @ map fst ps"
  using assms
proof (induction type_text ps regs rule: register_pairs.induct)
  case (2 type_text name subs unsub ps regs)
  from 2(2) have none: "subs \<noteq> []" "inconsistent_subscriber subs = None"
    by (auto split: if_splits option.splits)
  with 2 have "register_pairs type_text ps (regs @ [RegPubSub name subs unsub]) = Ok regs'" by simp
  from 2(1) [OF none this] show ?case
    using 2(3,4) none inconsistent_None [OF none(2)] by (simp add: regs_methods_def pairs_methods_def)
qed (auto simp: pairs_methods_def)

lemma no_pubsub_names: "list_all (\<lambda>r. reg_wf r \<and> \<not> is_pubsub_reg r) regs \<Longrightarrow> [n. RegPubSub n _ _ \<leftarrow> regs] = []"
  by (induction regs) (auto split: method_registration.splits)

lemma pairs_methods_mset: "pairs_methods pairs = (\<Sum>p\<in>#mset pairs. mset (pair_methods (snd p)))"
  by (induction pairs) (auto simp: pairs_methods_def)

lemma iter_same:
  assumes "mset ps = mset pairs" and "pairs_wf pairs"
  shows "list_all (\<lambda>(name, p). pair_wf name p) ps" and "distinct (map fst ps)" and "pairs_methods ps = pairs_methods pairs"
proof -
  have "mset (map fst ps) = mset (map fst pairs)" using assms(1) by simp
  then show "distinct (map fst ps)" using assms(2) mset_eq_imp_distinct_iff [of "map fst ps" "map fst pairs"] by (auto simp: pairs_wf_def hm_wf_def)
  show "list_all (\<lambda>(name, p). pair_wf name p) ps"
    using assms mset_eq_setD [OF assms(1)] by (auto simp: pairs_wf_def list_all_iff)
  show "pairs_methods ps = pairs_methods pairs" using assms(1) by (simp add: pairs_methods_mset)
qed

lemma registrations_keep:
  assumes "compute_method_registrations iter type_text t = Ok (regs, ms)" and "\<forall>pairs. mset (iter pairs) = mset pairs"
  shows "annotated_methods t = Ok ms \<and> mset (concat (map reg_methods regs)) = mset ms \<and> list_all reg_wf regs \<and>
    distinct [n. RegPubSub n _ _ \<leftarrow> regs]"
proof -
  obtain pairs regs1 where ms: "annotated_methods t = Ok ms" and r1: "register_methods ms [] [] = Ok (pairs, regs1)"
    and r2: "register_pairs type_text (iter pairs) regs1 = Ok regs"
    using assms(1) by (auto simp: compute_method_registrations_def and_then_Ok map_ok_Ok)
  have k1: "regs_methods regs1 + pairs_methods pairs = mset ms" "pairs_wf pairs"
    "list_all (\<lambda>r. reg_wf r \<and> \<not> is_pubsub_reg r) regs1"
    using register_methods_keeps [OF r1] by (simp_all add: pairs_wf_def regs_methods_def pairs_methods_def)
  have same: "mset (iter pairs) = mset pairs" using assms(2) by simp
  have wf1: "list_all reg_wf regs1" using k1(3) by (simp add: list_all_iff)
  from register_pairs_keeps [OF r2 iter_same(1) [OF same k1(2)] wf1]
  show ?thesis
    using iter_same [OF same k1(2)] k1 ms no_pubsub_names [OF k1(3)] by (simp add: regs_methods_def)
qed

text \<open>C27: when the methods of a trait are accepted, every annotated method is registered exactly once, and
  every registration is well-formed: methods and notifications are registered as what they are, a
  subscription has at least one subscribe method, one unsubscribe method and one type of
  subscriber, and there is one registration per name of a subscription. The hash map of
  subscriptions may be iterated in any order.\<close>

theorem registrations_well_formed:
  assumes "compute_method_registrations iter type_text t = Ok (regs, ms)" and "\<forall>pairs. mset (iter pairs) = mset pairs"
  shows "annotated_methods t = Ok ms \<and> mset (concat (map reg_methods regs)) = mset ms \<and> list_all reg_wf regs \<and>
    distinct [n. RegPubSub n _ _ \<leftarrow> regs]"
  by (rule registrations_keep [OF assms])

text \<open>The arguments of a function, all annotated with a subscription: \<open>subscribe(&self, meta: Self::Metadata,
  subscriber: Subscriber<u64>)\<close> and \<open>unsubscribe\<close>.\<close>

definition meta_str :: "string \<Rightarrow> string \<Rightarrow> nested_meta" where
  "meta_str key s = NestedMeta (MetaNameValue (SynPath False [key]) (LitStr s))"

definition meta_word :: "string \<Rightarrow> nested_meta" where
  "meta_word w = NestedMeta (MetaPath (SynPath False [w]))"

definition news_trait :: item_trait where
  "news_trait = add_trait\<lparr>it_items :=
     [TraitType ''Metadata'' [],
      TraitMethod \<lparr>tm_ident = ''subscribe'',
        tm_attrs = [Ok (MetaList (SynPath False [''pubsub''])
          [meta_str ''subscription'' ''news'', meta_word ''subscribe'', meta_str ''name'' ''news_sub''])],
        tm_inputs = [Receiver, Typed (PatIdent ''meta'') metadata_type,
          Typed (PatIdent ''subscriber'') (plain_path [Segment ''Subscriber''
            (AngleBracketed [GenType (plain_path [Segment ''u64'' NoArguments])])])],
        tm_output = ReturnDefault\<rparr>,
      TraitMethod \<lparr>tm_ident = ''unsubscribe'',
        tm_attrs = [Ok (MetaList (SynPath False [''pubsub''])
          [meta_str ''subscription'' ''news'', meta_word ''unsubscribe'', meta_str ''name'' ''news_unsub''])],
        tm_inputs = [Receiver], tm_output = ReturnType (plain_path [Segment ''Result'' NoArguments])\<rparr>]\<rparr>"

lemma news_registered:
  "\<exists>regs ms. compute_method_registrations id (\<lambda>_. []) news_trait = Ok (regs, ms) \<and> length ms = 2"
  by (simp add: compute_method_registrations_def annotated_methods_def news_trait_def add_trait_def meta_str_def meta_word_def
      List.map_filter_def parse_attr_def parse_meta_def validate_attribute_meta_def validate_idents_def members_def
      path_to_str_def path_eq_str_def parse_pubsub_def get_name_value_def has_meta_word_def complete_attribute_def
      meta_flag_def get_params_style_def get_aliases_def rpc_method_new_def hm_insert_def inconsistent_subscriber_def
      subscriber_arg_def typed_arg_types_def metadata_type_def default_param_style_def Let_def)

theorem registrations_well_formed_witness:
  "\<exists>regs ms. compute_method_registrations id (\<lambda>_. []) news_trait = Ok (regs, ms) \<and> length ms = 2 \<and>
     mset (concat (map reg_methods regs)) = mset ms \<and> list_all reg_wf regs \<and> distinct [n. RegPubSub n _ _ \<leftarrow> regs]"
proof -
  obtain regs ms where regs: "compute_method_registrations id (\<lambda>_. []) news_trait = Ok (regs, ms)" "length ms = 2"
    using news_registered by blast
  then show ?thesis using registrations_well_formed [OF regs(1)] by auto
qed

section \<open>The style of parameters\<close>

lemma parse_attr_style:
  assumes "parse_attr m = Ok (Some a)"
  shows "at_params_style a \<noteq> None"
proof -
  obtain attrs where attrs: "collect_results (List.map_filter (\<lambda>a. parse_meta a (tm_output m)) (tm_attrs m)) = Ok attrs"
    and first: "(if length attrs \<le> 1 then Ok (case attrs of [] \<Rightarrow> None | a # _ \<Rightarrow> Some a)
       else Err ''Expected only a single rpc attribute per method'') = Ok (Some a)"
    using assms unfolding parse_attr_def and_then_Ok by blast
  have "a \<in> set attrs" using first by (cases attrs) (simp_all split: if_splits)
  then have "Ok a \<in> set (List.map_filter (\<lambda>a. parse_meta a (tm_output m)) (tm_attrs m))"
    using attrs by (simp add: collect_results_Ok)
  then obtain attr where "parse_meta attr (tm_output m) = Some (Ok a)" by (auto simp: set_map_filter)
  then show ?thesis
    by (auto simp: parse_meta_def and_then_Ok complete_attribute_Ok split: result.splits option.splits if_splits)
qed

lemma annotated_style:
  assumes "annotated_methods t = Ok ms" and "m \<in> set ms"
  shows "at_params_style (rm_attr m) \<noteq> None"
proof -
  have "Ok m \<in> set (List.map_filter annotated_item (it_items t))"
    using assms by (auto simp: annotated_methods_def collect_results_Ok)
  then obtain i where "annotated_item i = Some (Ok m)" by (auto simp: set_map_filter)
  then obtain tm a where "parse_attr tm = Ok (Some a)" "m = rpc_method_new a tm"
    by (cases i) (auto split: result.splits option.splits)
  then show ?thesis using parse_attr_style by (simp add: rpc_method_new_def)
qed

lemma registered_style:
  assumes "compute_method_registrations iter type_text t = Ok (regs, ms)" and "\<forall>pairs. mset (iter pairs) = mset pairs"
    and "r \<in> set regs" and "m \<in> set (reg_methods r)"
  shows "m \<in> set ms" and "at_params_style (rm_attr m) \<noteq> None"
proof -
  note wf = registrations_keep [OF assms(1,2)]
  then have "set (concat (map reg_methods regs)) = set ms" by (meson mset_eq_setD)
  then show "m \<in> set ms" using assms(3,4) by auto
  then show "at_params_style (rm_attr m) \<noteq> None" using wf annotated_style by blast
qed

lemma client_methods_style:
  assumes "\<forall>m\<in>set (reg_methods r). at_params_style (rm_attr m) \<noteq> None"
  shows "generate_client_methods_of parse_str type_text (opts\<lparr>options_params_style := st\<rparr>) r =
    generate_client_methods_of parse_str type_text opts r"
proof (cases r)
  case (RegStandard m b)
  then have same: "client_params_style (rm_attr m) (opts\<lparr>options_params_style := st\<rparr>) = client_params_style (rm_attr m) opts"
    using assms by (auto simp: client_params_style_def)
  show ?thesis unfolding RegStandard generate_client_methods_of.simps same ..
qed auto

text \<open>The style of parameters given to the macro on the trait has no effect. An attribute on a method
  must have a name, so it is a list, and then its style is set, to the default if the attribute does
  not give one; the style of the trait is only asked for when it is not set.\<close>

theorem trait_params_style_unused:
  assumes "\<forall>pairs. mset (iter pairs) = mset pairs"
  shows "rpc_impl iter parse_str type_text crate_name item (opts\<lparr>options_params_style := st\<rparr>) =
    rpc_impl iter parse_str type_text crate_name item opts"
proof (cases item)
  case (ItemTrait t)
  show ?thesis
  proof (cases "compute_method_registrations iter type_text t")
    case (Ok x)
    obtain regs ms where x: "x = (regs, ms)" by fastforce
    have "map (generate_client_methods_of parse_str type_text (opts\<lparr>options_params_style := st\<rparr>)) regs =
        map (generate_client_methods_of parse_str type_text opts) regs"
      using registered_style(2) [OF Ok [unfolded x] assms] by (auto intro!: client_methods_style)
    then have "generate_client_module parse_str type_text crate_name regs t (opts\<lparr>options_params_style := st\<rparr>) =
        generate_client_module parse_str type_text crate_name regs t opts"
      by (simp only: generate_client_module_def generate_client_methods_def)
    then show ?thesis using ItemTrait Ok x by (simp add: rpc_impl_def)
  qed (simp add: rpc_impl_def ItemTrait)
qed (simp add: rpc_impl_def)

theorem trait_params_style_unused_witness:
  "rpc_impl id (\<lambda>_. Err []) (\<lambda>_. []) Ok (ItemTrait news_trait) (derive_options_new True False Named) =
   rpc_impl id (\<lambda>_. Err []) (\<lambda>_. []) Ok (ItemTrait news_trait) (derive_options_new True False Positional)"
  using trait_params_style_unused [where iter = id and parse_str = "\<lambda>_. Err []" and type_text = "\<lambda>_. []"
      and crate_name = Ok and item = "ItemTrait news_trait" and opts = "derive_options_new True False Positional" and st = Named]
  by (simp add: derive_options_new_def)

section \<open>The server side never panics\<close>





definition asks_for :: "string \<Rightarrow> nested_meta list \<Rightarrow> bool" where
  "asks_for w args \<longleftrightarrow> (\<exists>a\<in>set args. case a of NestedMeta (MetaPath p) \<Rightarrow> get_ident p = Some w | _ \<Rightarrow> False)"

definition asked_styles :: "nested_meta list \<Rightarrow> string list" where
  "asked_styles args = [s. NestedMeta (MetaNameValue _ (LitStr s)) \<leftarrow> args]"

lemma asks_simps [simp]:
  "\<not> asks_for w []"
  "asks_for w (a # as) \<longleftrightarrow> (case a of NestedMeta (MetaPath p) \<Rightarrow> get_ident p = Some w | _ \<Rightarrow> False) \<or> asks_for w as"
  "asked_styles [] = []"
  "asked_styles (a # as) = (case a of NestedMeta (MetaNameValue _ (LitStr s)) \<Rightarrow> [s] | _ \<Rightarrow> []) @ asked_styles as"
  by (auto simp: asks_for_def asked_styles_def split: nested_meta.splits syn_meta.splits syn_lit.splits)






end
