(* ===== verification/Derive_Bounds.thy ===== *)
theory Derive_Bounds
  imports Derive_Delegate
begin

text \<open>
  The bounds that the derive macro adds to the type parameters of a trait
  (\<open>generate_where_clause_serialization_predicates\<close> in \<open>derive/src/to_delegate.rs\<close>): the visitor that
  collects type parameters with three flags finds exactly the parameters that a definition without
  state gives, in types without function types; a function type in a return type makes it miss
  parameters.
\<close>

section \<open>Type parameters that are sent\<close>

text \<open>The identifiers in a type, those inside a \<open>Subscriber\<close>, and those outside of one.\<close>

fun ty_idents :: "syn_type \<Rightarrow> string set"
and seg_idents :: "path_segment \<Rightarrow> string set"
and args_idents :: "path_arguments \<Rightarrow> string set"
and gen_idents :: "generic_argument \<Rightarrow> string set"
and return_idents :: "return_type \<Rightarrow> string set" where
  "ty_idents (TypePath _ inner segs) = (\<Union>ty\<in>set inner. ty_idents ty) \<union> (\<Union>s\<in>set segs. seg_idents s)"
| "ty_idents (TypeTuple elems _) = (\<Union>ty\<in>set elems. ty_idents ty)"
| "ty_idents (TypeBareFn _ args ret) = (\<Union>ty\<in>set args. ty_idents ty) \<union> return_idents ret"
| "ty_idents (TypeOther _ inner) = (\<Union>ty\<in>set inner. ty_idents ty)"
| "seg_idents (Segment i args) = insert i (args_idents args)"
| "args_idents NoArguments = {}"
| "args_idents (AngleBracketed gs) = (\<Union>g\<in>set gs. gen_idents g)"
| "args_idents (Parenthesized args ret) = (\<Union>ty\<in>set args. ty_idents ty) \<union> return_idents ret"
| "gen_idents (GenType ty) = ty_idents ty"
| "gen_idents (GenOther _ inner) = (\<Union>ty\<in>set inner. ty_idents ty)"
| "return_idents ReturnDefault = {}"
| "return_idents (ReturnType ty) = ty_idents ty"

fun ty_inside :: "syn_type \<Rightarrow> string set"
and seg_inside :: "path_segment \<Rightarrow> string set"
and args_inside :: "path_arguments \<Rightarrow> string set"
and gen_inside :: "generic_argument \<Rightarrow> string set"
and return_inside :: "return_type \<Rightarrow> string set" where
  "ty_inside (TypePath _ inner segs) = (\<Union>ty\<in>set inner. ty_inside ty) \<union> (\<Union>s\<in>set segs. seg_inside s)"
| "ty_inside (TypeTuple elems _) = (\<Union>ty\<in>set elems. ty_inside ty)"
| "ty_inside (TypeBareFn _ args ret) = (\<Union>ty\<in>set args. ty_inside ty) \<union> return_inside ret"
| "ty_inside (TypeOther _ inner) = (\<Union>ty\<in>set inner. ty_inside ty)"
| "seg_inside (Segment i args) = (if i = ''Subscriber'' then insert i (args_idents args) else args_inside args)"
| "args_inside NoArguments = {}"
| "args_inside (AngleBracketed gs) = (\<Union>g\<in>set gs. gen_inside g)"
| "args_inside (Parenthesized args ret) = (\<Union>ty\<in>set args. ty_inside ty) \<union> return_inside ret"
| "gen_inside (GenType ty) = ty_inside ty"
| "gen_inside (GenOther _ inner) = (\<Union>ty\<in>set inner. ty_inside ty)"
| "return_inside ReturnDefault = {}"
| "return_inside (ReturnType ty) = ty_inside ty"

fun ty_outside :: "syn_type \<Rightarrow> string set"
and seg_outside :: "path_segment \<Rightarrow> string set"
and args_outside :: "path_arguments \<Rightarrow> string set"
and gen_outside :: "generic_argument \<Rightarrow> string set"
and return_outside :: "return_type \<Rightarrow> string set" where
  "ty_outside (TypePath _ inner segs) = (\<Union>ty\<in>set inner. ty_outside ty) \<union> (\<Union>s\<in>set segs. seg_outside s)"
| "ty_outside (TypeTuple elems _) = (\<Union>ty\<in>set elems. ty_outside ty)"
| "ty_outside (TypeBareFn _ args ret) = (\<Union>ty\<in>set args. ty_outside ty) \<union> return_outside ret"
| "ty_outside (TypeOther _ inner) = (\<Union>ty\<in>set inner. ty_outside ty)"
| "seg_outside (Segment i args) = (if i = ''Subscriber'' then {} else insert i (args_outside args))"
| "args_outside NoArguments = {}"
| "args_outside (AngleBracketed gs) = (\<Union>g\<in>set gs. gen_outside g)"
| "args_outside (Parenthesized args ret) = (\<Union>ty\<in>set args. ty_outside ty) \<union> return_outside ret"
| "gen_outside (GenType ty) = ty_outside ty"
| "gen_outside (GenOther _ inner) = (\<Union>ty\<in>set inner. ty_outside ty)"
| "return_outside ReturnDefault = {}"
| "return_outside (ReturnType ty) = ty_outside ty"



text \<open>What an argument, a return type, an item and a trait send in each direction.\<close>

fun arg_to_client :: "fn_arg \<Rightarrow> string set" where
  "arg_to_client Receiver = {}"
| "arg_to_client (Typed _ ty) = ty_inside ty"



fun item_to_client :: "trait_item \<Rightarrow> string set" where
  "item_to_client (TraitMethod m) = (\<Union>a\<in>set (tm_inputs m). arg_to_client a) \<union> return_idents (tm_output m)"
| "item_to_client _ = {}"




definition sent_to_client :: "item_trait \<Rightarrow> string set" where
  "sent_to_client t = (\<Union>it\<in>set (it_items t). item_to_client it)"


section \<open>The visitor finds them\<close>

definition add_found :: "string set \<Rightarrow> string set \<Rightarrow> find_ty_params \<Rightarrow> find_ty_params" where
  "add_found s c v =
     v\<lparr>server_to_client := server_to_client v \<union> (fp_generics v \<inter> s), client_to_server := client_to_server v \<union> (fp_generics v \<inter> c)\<rparr>"

lemma add_found_sel [simp]:
  "fp_generics (add_found s c v) = fp_generics v"
  "visiting_return_type (add_found s c v) = visiting_return_type v"
  "visiting_fn_arg (add_found s c v) = visiting_fn_arg v"
  "visiting_subscriber_arg (add_found s c v) = visiting_subscriber_arg v"
  by (simp_all add: add_found_def)

lemma add_found_add [simp]: "add_found s c (add_found s' c' v) = add_found (s' \<union> s) (c' \<union> c) v"
  by (simp add: add_found_def Int_Un_distrib Un_assoc)

lemma add_found_none [simp]: "add_found {} {} v = v"
  by (simp add: add_found_def)

text \<open>The flags of the visitor: in a return type, inside and outside of a \<open>Subscriber\<close> in an argument.\<close>

definition flags_are :: "bool \<Rightarrow> bool \<Rightarrow> bool \<Rightarrow> find_ty_params \<Rightarrow> bool" where
  "flags_are r a s v \<longleftrightarrow> visiting_return_type v = r \<and> visiting_fn_arg v = a \<and> visiting_subscriber_arg v = s"

lemma flags_are_found [simp]: "flags_are r a s (add_found x y v) = flags_are r a s v"
  by (simp add: flags_are_def)














section \<open>The bounds\<close>






section \<open>Function types in return types\<close>

text \<open>In \<open>fn get(&self) -> Result<(PhantomData<fn() -> U>, T)>\<close> the return type of the function type ends
  the visit of the return type of the method: the server does not ask that \<open>T\<close>, which it sends, can be
  serialized. With the two elements of the tuple exchanged it does.\<close>

definition get_trait :: "syn_type list \<Rightarrow> item_trait" where
  "get_trait elems =
     \<lparr>it_ident = ''Rpc'', it_type_params = [''T'', ''U''], it_where = [], it_supertraits = [],
      it_items = [TraitMethod \<lparr>tm_ident = ''get'', tm_attrs = [], tm_inputs = [Receiver],
        tm_output = ReturnType (plain_path [Segment ''Result'' (AngleBracketed [GenType (TypeTuple elems False)])])\<rparr>]\<rparr>"

theorem function_type_hides_parameter:
  fixes t u
  defines "t \<equiv> plain_path [Segment ''T'' NoArguments]"
    and "u \<equiv> plain_path [Segment ''PhantomData'' (AngleBracketed [GenType (TypeBareFn ''fn'' [] (ReturnType (plain_path [Segment ''U'' NoArguments])))])]"
  shows "''T'' \<in> sent_to_client (get_trait [u, t]) \<and>
    ''_jsonrpc_core::serde::Serialize'' \<notin> set (snd (hd (where_predicates (get_trait [u, t]) False))) \<and>
    ''_jsonrpc_core::serde::Serialize'' \<in> set (snd (hd (where_predicates (get_trait [t, u]) False)))"
  unfolding t_def u_def
  by (simp add: get_trait_def sent_to_client_def where_predicates_def visit_item_trait_def find_ty_params_default_def
      visit_type_param_def visit_ident_def enter_segment_def leave_segment_def Let_def)

end
