(* ===== verification/Spec2Isabelle.thy ===== *)
theory Spec2Isabelle
  imports
    Core_Wire Core_Delegates
    Cors Stream_Codec Suspendable
    Pubsub_Manager
    Http_Handler Http_Server Ws Ws_Server Tcp Tcp_Server Ipc Ipc_Server Ipc_Session Stdio Test_Rpc
    Duplex Client_Http Client_Ws Client_Local Client_Session Client_Pubsub Client_Ipc Client_Connect Client_Wire Pubsub_End_To_End Http_End_To_End
    Derive_Trait Derive_Bounds
begin

text \<open>
  Verification of the JSON-RPC library in \<open>src/\<close>: a server that registers methods and answers JSON-RPC
  requests (\<open>core\<close>), the transports it is served on (\<open>http\<close>, \<open>ws\<close>, \<open>tcp\<close>, \<open>ipc\<close>, \<open>stdio\<close>), publish-subscribe
  (\<open>pubsub\<close>), the clients (\<open>core-client\<close>), the macro that generates both sides from a trait (\<open>derive\<close>) and
  the utilities they share (\<open>server-utils\<close>, \<open>test\<close>).

  \<^bold>\<open>How the parts work together.\<close> A transport reads the bytes of a request, checks what its protocol asks for
  (hosts, origins, content type, body size) and gives the text to \<open>MetaIoHandler::handle_request\<close>, which
  parses it, runs the registered method through the middlewares and writes the response. A
  pub-sub method gets a sink to the session of its connection; what is sent to it is merged into the
  connection's responses. A client handle sends messages to a client task; the task numbers them,
  writes their text to its transport, and completes the callers with the responses, or passes
  notifications to the streams of subscriptions. The theories follow this division, and the properties
  at the end of this one compose them.

  \<^bold>\<open>Modelling.\<close> Every definition that stands for code has the name of what it models where Isabelle allows
  it. A struct is a record, an enum a datatype; \<open>u64\<close> and \<open>u16\<close> are words, with wrap-around; strings are byte
  strings; a hash map is a partial function, or an association list where the code iterates over it; errors are values of
  \<open>result\<close>. A future is what awaiting it does to the world (\<open>fut\<close>, where \<open>None\<close> never resolves); where the code
  polls, \<open>poll\<close> is modelled with its state. Third-party code is an argument: the text of JSON
  (\<open>serde_json\<close>), numbers of JSON, glob patterns, sockets and endpoints, the channels of the \<open>futures\<close> crate, the
  runtime and its threads. What a theorem needs of it is one of its hypotheses.

  \<^bold>\<open>Shared vocabulary\<close> (\<open>Prelude\<close>): results, polls, futures and \<open>join_all\<close> with the order of completion as an
  argument; the locales \<open>keyed_store\<close> (method tables), \<open>id_source\<close> (counters of 64 bits),
  \<open>invariant_system\<close> (what every step of a machine keeps holds in all states it reaches) and
  \<open>progress_system\<close> (a machine whose steps use up a weight gets its work done). They are interpreted by the
  components that follow.

  \<^bold>\<open>Core.\<close>
  \<^item> \<open>Core_Types\<close> (\<open>core/src/types\<close>): ids, versions, parameters, errors, calls and outputs.
  \<^item> \<open>Core_Wire\<close>: the derived serializers and deserializers, with untagged enums, optional and unknown
    members and the array forms; what is written is read back (\<open>request_roundtrip\<close>, \<open>response_roundtrip\<close>).
  \<^item> \<open>Core_Middleware\<close> (\<open>middleware.rs\<close>): hooks, and tuples of middlewares.
  \<^item> \<open>Core_Handler\<close> (\<open>calls.rs\<close>, \<open>io.rs\<close>): the registry, compatibility modes, single and batch requests. A batch
    is answered in order whatever the order of completion; methods answer under their name and aliases; a
    call with a wrong version runs nothing. \<open>handle_request_future\<close> and \<open>handler_reply_future\<close> say what the text of
    a request is answered with; the transports build on them.
  \<^item> \<open>Core_Delegates\<close> (\<open>delegates.rs\<close>): delegates and their registration.

  \<^bold>\<open>Server utilities.\<close>
  \<^item> \<open>Hosts\<close> (\<open>hosts.rs\<close>, \<open>matcher.rs\<close>), \<open>Cors\<close> (\<open>cors.rs\<close>): the decision on hosts, origins and headers.
  \<^item> \<open>Stream_Codec\<close> (\<open>stream_codec.rs\<close>): decoder and encoder, by separator and by brackets. The locale \<open>framing\<close>
    says what a pair of encoder and decoder promises and gives that a stream is read back however it
    is cut; it is interpreted for both modes. The length of the buffer is fuel enough for a
    reader, since every message has a byte.
  \<^item> \<open>Suspendable\<close> (\<open>suspendable_stream.rs\<close>): the back-off of the accept loop.
  \<^item> \<open>Stream_Merge\<close>: the locale \<open>merged_stream\<close> for streams that merge two sources.
  \<^item> \<open>Reactor\<close> (\<open>reactor.rs\<close>): executors; the locale \<open>closable\<close> for servers that may be closed more than once.

  \<^bold>\<open>Publish-subscribe.\<close> \<open>Pubsub\<close> (\<open>pubsub/src\<close>): sessions, subscribers, sinks, the methods of a subscription. A session
  unsubscribes exactly once what is still active. \<open>Pubsub_Manager\<close> (\<open>manager.rs\<close>): id providers and the
  table of subscriptions; \<open>2 ^ 64\<close> ids in a row are distinct.

  \<^bold>\<open>Servers.\<close>
  \<^item> \<open>Http_Utils\<close>, \<open>Http_Handler\<close>, \<open>Http_Server\<close> (\<open>http/src\<close>): the service, the states of \<open>RpcHandler\<close>, bodies, REST and
    health requests; the builder, workers, closing. The user's metadata extractor acts on the world of the server.
    Forbidden hosts and origins and other content types run no method; a POST with JSON is answered; the body limit is
    exact however the body is cut and delayed; a server closes once.
  \<^item> \<open>Ws\<close>, \<open>Ws_Server\<close> (\<open>ws/src\<close>): the handshake, sessions and senders; builder and closing.
  \<^item> \<open>Tcp\<close>, \<open>Tcp_Server\<close> (\<open>tcp/src\<close>): the queue of a peer, the dispatcher, and a connection from the bytes
    received to the bytes written: one answer per request, in order.
  \<^item> \<open>Ipc\<close>, \<open>Ipc_Server\<close>, \<open>Ipc_Session\<close> (\<open>ipc/src\<close>): the merged stream of a connection, builder, closing, and the
    requests of a connection as a step relation with a bounded number of calls in flight; the number of steps is
    at most two per request.
  \<^item> \<open>Stdio\<close> (\<open>stdio/src\<close>): one line of output per line of input.
  \<^item> \<open>Test_Rpc\<close> (\<open>test/src\<close>): the test environment.

  \<^bold>\<open>Clients\<close> (\<open>core-client/transports/src\<close>).
  \<^item> \<open>Client\<close> (\<open>lib.rs\<close>, \<open>transports/mod.rs\<close>): handles, messages, the request builder, reading responses.
  \<^item> \<open>Duplex\<close> (\<open>duplex.rs\<close>): a poll of the client task in its phases. It does not panic, and a response
    reaches its caller as long as fewer than \<open>2 ^ 64\<close> requests were made.
  \<^item> \<open>Client_Calls\<close>: the open calls and subscribe requests of a client task, from messages to completed one-shots and
    active subscriptions.
  \<^item> \<open>Client_Local\<close>, \<open>Client_Session\<close> (\<open>local.rs\<close>): the transport to a handler in the same process, and the client as a
    whole. Reading the stream until it is pending is a partial function; it is shown to return. That polling often
    enough answers every call is shown by a lexicographic measure: requests to send, polls of the future in
    the buffer, answers to read.
  \<^item> \<open>Client_Pubsub\<close> (\<open>local.rs\<close>, \<open>connect_with_pubsub\<close>): the client whose session is merged into its stream. What the merged
    stream gives is an interleaving of answers and notifications; both kinds are taken completely and in order.
  \<^item> \<open>Client_Wire\<close>: the text of replies and of notifications as the client reads them.
  \<^item> \<open>Client_Http\<close>, \<open>Client_Ws\<close>, \<open>Client_Ipc\<close>, \<open>Client_Connect\<close> (\<open>http.rs\<close>, \<open>ws.rs\<close>, \<open>ipc.rs\<close>): the other transports and how
    they are connected; \<open>Client_Ipc\<close> also puts a client and the server of \<open>Ipc_Session\<close> together.
    In \<open>Client_Ws\<close> the socket is a sink that keeps the contract of \<open>futures::Sink\<close> and no more: requests keep their order in
    the runs in which that contract is kept, and a run in which it is not loses a reply.
  \<^item> \<open>Http_End_To_End\<close>: \<open>http_client_answered\<close>, the client task of \<open>Client_Http\<close> and the service of \<open>Http_Handler\<close> together, with the
    polls of the server and the chunks of the bodies as arguments. Every poll takes the body as far as it has arrived; the
    number of polls that is enough is the number of pauses in the body and one that finds the response ready.
  \<^item> \<open>Pubsub_End_To_End\<close>: \<open>pubsub_client_served\<close>, from the handler and its sinks to the callers and streams of the client, with
    the world changing between the polls.

  \<^bold>\<open>The macro\<close> (\<open>derive/src\<close>): \<open>Derive_Attr\<close> (attributes and options), \<open>Derive_Delegate\<close> and \<open>Derive_Client\<close> (the two sides that
  are generated), \<open>Derive_Trait\<close> (the assembly, and when it panics), \<open>Derive_Bounds\<close> (the bounds on type parameters, against a
  definition without state, for types without function types; these hide parameters from the macro). What is generated is a datatype of statements and closures with a meaning, so that the generated
  client can be run against the generated server.

  \<^bold>\<open>This theory\<close> composes client, text, server and back: a single call (\<open>client_server_call\<close>), a client in the
  process of its handler (\<open>local_client_answered\<close>), a client and a server over IPC (\<open>ipc_client_answered\<close>; both with subscribe
  requests among the calls), and a
  notification from a sink of the server to the stream of a subscriber.

  \<^bold>\<open>Bounds.\<close> Ids are 64-bit counters, so statements on distinct ids are for fewer than \<open>2 ^ 64\<close> requests. The order in
  which the executor completes the futures of a batch is a list of indices; that it completes all of
  them is \<open>sched_covers\<close>. Weights bound the runs of the step relations, so no fuel is chosen there.

  \<^bold>\<open>Not modelled.\<close> Logging and \<open>Debug\<close> output; the runtimes, threads and sockets below the arguments named above; wakers (a
  task is polled when the environment says so); the expansion of token streams by \<open>syn\<close> and \<open>quote\<close>, which
  is third-party code; the re-exporting modules; tests, examples and build files.
\<close>

section \<open>A call from client to server and back\<close>

text \<open>C3: a call makes the round trip. The client's request text, handled by a server that knows the
  method (by its name or an alias) and speaks version 2, runs the method once on the parameters the
  client gave, and the client reads from the reply its own request id and what the method's
  future gave: the result, or the error as a JSON-RPC error.\<close>

theorem client_server_call:
  assumes "\<And>x. as_u64 (from_u64 x) = Some x" and "\<And>x. as_i64 (from_i64 x) = Some x"
    and "call_request (\<lambda>q. case q of SingleRequest c \<Rightarrow> write (se_call from_u64 c) | BatchRequest cs \<Rightarrow> write_batch cs) msg b
         = ((i, s), b')"
    and "read_as server_read (\<lambda>m. map_option SingleRequest (de_call as_u64 m)) write
         (se_call from_u64 (MethodCall \<lparr>mc_jsonrpc = Some V2, mc_method = cm_method msg, mc_params = cm_params msg, mc_id = i\<rparr>))"
    and "middleware h = Noop" and "is_version_valid (compatibility h) (Some V2)"
    and "resolve_method (methods h) (cm_method msg) = Some f"
    and "f (cm_params msg) meta w = (fr, w1)" and "fr w1 = Some (r, w2)" and "wire_stable r"
    and "reply (SingleResponse (output_from r i (Some V2))) = write (se_output from_u64 from_i64 (output_from r i (Some V2)))"
    and "read_as client_read (de_client_response as_u64 as_i64) write (se_output from_u64 from_i64 (output_from r i (Some V2)))"
  shows "\<exists>t. handle_request_sync server_read reply sched h s meta w = Some (Some t, w2) \<and>
    parse_response as_u64 as_i64 client_read t = Ok (i, map_err JsonRpcError r, None, None)"
proof -
  let ?mc = "\<lparr>mc_jsonrpc = Some V2, mc_method = cm_method msg, mc_params = cm_params msg, mc_id = i\<rparr>"
  let ?out = "output_from r i (Some V2)"
  have s: "s = write (se_call from_u64 (MethodCall ?mc))"
    using assms(3) by (auto simp: call_request_def single_request_def Let_def case_prod_beta)
  have "de_call as_u64 (se_call from_u64 (MethodCall ?mc)) = Some (MethodCall ?mc)"
    by (rule de_call_se) (rule assms(1))
  then have "server_read s = Ok (SingleRequest (MethodCall ?mc))"
    using assms(4) s by (simp only: read_as_def option.simps)
  then have "handle_request_sync server_read reply sched h s meta w = Some (Some (reply (SingleResponse ?out)), w2)"
    using handle_single_call [of h ?mc server_read s f meta w fr w1 r w2 reply sched] assms by simp
  moreover have "parse_response as_u64 as_i64 client_read (reply (SingleResponse ?out)) = Ok (i, map_err JsonRpcError r, None, None)"
    by (rule reply_parsed [where ws = "[]"]) (use assms in \<open>simp_all del: output_from.simps\<close>)
  ultimately show ?thesis by blast
qed

definition demo_write :: "(string, u64 json) fmap \<Rightarrow> string" where
  "demo_write m = (if fmlookup m ''method'' = None then ''reply'' else ''call'')"

definition demo_server :: "(u64, unit, nat) meta_io_handler" where
  "demo_server = add_method_with_meta ''greet'' (\<lambda>p m w. (fut_ready (Ok (params_into_json p)), w + 1)) default_handler"

theorem client_server_call_witness:
  "\<exists>t. handle_request_sync
       (\<lambda>s. if s = ''call'' then Ok (SingleRequest (MethodCall
          \<lparr>mc_jsonrpc = Some V2, mc_method = ''greet'', mc_params = ParamsArray [VBool True], mc_id = IdNum 0\<rparr>)) else Err ())
       (\<lambda>_. ''reply'') [] demo_server ''call'' () 4 = Some (Some t, 5) \<and>
     parse_response Some Some
       (\<lambda>s. if s = ''reply'' then Ok (ClientOutput (Success
          \<lparr>su_jsonrpc = Some V2, su_result = VArray [VBool True], su_id = IdNum 0\<rparr>)) else Err (''x'', ())) t =
     Ok (IdNum 0, Ok (VArray [VBool True]), None, None)"
  using client_server_call [of Some "\<lambda>x. x" Some "\<lambda>x. x" demo_write "\<lambda>_. ''batch''"
      "\<lparr>cm_method = ''greet'', cm_params = ParamsArray [VBool True], cm_sender = ()\<rparr>" request_builder_new "IdNum 0" "''call''"
      "\<lparr>rb_id = 1\<rparr>"
      "\<lambda>s. if s = ''call'' then Ok (SingleRequest (MethodCall
          \<lparr>mc_jsonrpc = Some V2, mc_method = ''greet'', mc_params = ParamsArray [VBool True], mc_id = IdNum 0\<rparr>)) else Err ()"
      demo_server "\<lambda>p m w. (fut_ready (Ok (params_into_json p)), w + 1)" "()" 4 "fut_ready (Ok (VArray [VBool True]))" 5
      "Ok (VArray [VBool True])" 5 "\<lambda>_. ''reply''"
      "\<lambda>s. if s = ''reply'' then Ok (ClientOutput (Success
          \<lparr>su_jsonrpc = Some V2, su_result = VArray [VBool True], su_id = IdNum 0\<rparr>)) else Err (''x'', ())" "[]"]
  by (simp add: read_as_def demo_write_def demo_server_def default_handler_def with_compatibility_def
      default_compatibility_def add_method_with_meta_def methods_insert_def resolve_method_def
      call_request_def single_request_def rb_next_id_def request_builder_new_def fut_ready_def
      de_call_def de_method_call_def de_client_response_def de_output_def de_success_def member_simps)

section \<open>A client connected to a handler in its own process\<close>

text \<open>C4: a client connected to a handler in its own process is answered. Whatever calls, subscribe requests and
  notifications its handle sends, in however many portions, the client task, when it is polled
  often enough, resolves every call and every subscribe request, in their order, with the result of the call: what the
  registered method gives for the parameters, or the error for an unknown method. The one-shot of
  a call is completed with it; a subscribe request whose result is a subscription id becomes an active subscription, and
  another result goes to the stream of the subscription. Then no request is pending.\<close>

theorem local_client_answered:
  fixes co :: "('n, 'c, 's, 'v, 'x) caller_ops" and mss :: "('n, 'c, 's) rpc_message list list"
  defines "items \<equiv> request_items 0 (concat mss)"
  assumes "\<And>x. as_u64 (from_u64 x) = Some x" and "\<And>x. as_i64 (from_i64 x) = Some x"
    and "live_channel ch held" and "held q = []" and "middleware h = Noop"
    and "procs_answer (=) h"
    and "\<And>c. c \<in> item_call ` set items \<Longrightarrow> co_to_string co (SingleRequest c) = write (se_call from_u64 c) \<and>
      read_as server_read (\<lambda>m. map_option SingleRequest (de_call as_u64 m)) write (se_call from_u64 c)"
    and "\<And>mc r. MethodCall mc \<in> item_call ` set items \<Longrightarrow> call_result (=) h meta mc r \<Longrightarrow> wire_stable r \<and>
      reply (SingleResponse (output_from r (mc_id mc) (mc_jsonrpc mc))) =
        write (se_output from_u64 from_i64 (output_from r (mc_id mc) (mc_jsonrpc mc))) \<and>
      read_as client_read (de_client_response as_u64 as_i64) write
        (se_output from_u64 from_i64 (output_from r (mc_id mc) (mc_jsonrpc mc)))"
    and "co_parse co = parse_response as_u64 as_i64 client_read"
    and "\<And>c res v. fst (co_oneshot_send co c res v)"
    and "length (concat mss) < 2 ^ 64"
    and "connect_with_metadata_and_middleware q meta = (d0, l0)"
  shows "\<exists>n d l w' v' log. local_session co ch (handler_futures server_read reply sched h) (mss @ replicate n []) (d0, l0, w, v) =
      Some (d, l, w', v') \<and> completes co log ([], v) = (dx_subscriptions d, v') \<and> dx_pending_requests d = [] \<and>
    list_all2 (\<lambda>(mc, c) (c', res). c' = c \<and> (\<exists>r. call_result (=) h meta mc r \<and> res = map_err JsonRpcError r)) (open_calls items) log"
proof -
  let ?C = "item_call ` set items"
  let ?R = "\<lambda>c t. c \<in> ?C \<and> handler_reply (=) reply h meta c t"
  have "server_read (co_to_string co (SingleRequest c)) = Ok (SingleRequest c)" if "c \<in> ?C" for c
    using assms(8) [OF that] by (simp add: read_as_def de_call_se assms(2))
  note serves = handler_serves [OF assms(6) this assms(7) procs_keep_True refl TrueI, where reply = reply and sched = sched]
  have read: "readable (co_parse co) ?R" by (rule replies_read(1) [OF assms(2,3) _ assms(10)]) (rule assms(9))
  have start: "d0 = duplex_new" "l0 = local_with_metadata q meta"
    using assms(13) by (simp_all add: connect_with_metadata_and_middleware_def duplex_task_def)
  have first: "next_request d0 = 0" "dx_subscriptions d0 = []"
    by (simp_all add: start next_request_def duplex_new_def request_builder_new_def)
  have start_inv: "between_polls (co_to_string co) held ?C (reply_future (=) (\<lambda>_ _. True) reply h meta ?C) ?R meta [] d0 l0 w"
    unfolding start by (rule between_polls_start) (rule assms(5))
  have bound: "unat (next_request d0) + length (concat mss) < 2 ^ 64" using assms(12) by (simp add: first)
  have "item_call ` set (request_items (next_request d0) (concat mss)) \<subseteq> ?C" by (simp add: first items_def)
  from session_answers [OF assms(4) serves read assms(11) bound start_inv this, of v]
  obtain n d l w' v' log where
    "local_session co ch (handler_futures server_read reply sched h) (mss @ replicate n []) (d0, l0, w, v) = Some (d, l, w', v')"
    "completes co log ([], v) = (dx_subscriptions d, v')"
    "list_all2 (answered (co_parse co) ?R) (open_calls items) log" "dx_pending_requests d = []"
    unfolding first append_Nil items_def [symmetric] by blast
  moreover have "list_all2 (\<lambda>(mc, c) (c', res). c' = c \<and> (\<exists>r. call_result (=) h meta mc r \<and> res = map_err JsonRpcError r)) (open_calls items) log"
    by (rule replies_read(2) [OF assms(2,3) _ assms(10) calculation(3)]) (rule assms(9))
  ultimately show ?thesis by blast
qed

definition demo_greeting :: "(u64, nat, nat) rpc_message" where
  "demo_greeting = MsgCall \<lparr>cm_method = ''greet'', cm_params = ParamsArray [VBool True], cm_sender = 7\<rparr>"

definition demo_server_read :: "string \<Rightarrow> (u64 request, unit) result" where
  "demo_server_read s = (if s = ''call'' then Ok (SingleRequest (MethodCall
     \<lparr>mc_jsonrpc = Some V2, mc_method = ''greet'', mc_params = ParamsArray [VBool True], mc_id = IdNum 0\<rparr>)) else Err ())"

definition demo_client_read :: "string \<Rightarrow> (u64 client_response, string \<times> unit) result" where
  "demo_client_read s = (if s = ''reply'' then Ok (ClientOutput (Success
     \<lparr>su_jsonrpc = Some V2, su_result = VArray [VBool True], su_id = IdNum 0\<rparr>)) else Err (''x'', ()))"

definition demo_callers :: "(u64, nat, nat, (nat \<times> (u64 json, u64, unit) client_result) list, unit) caller_ops" where
  "demo_callers =
     \<lparr>co_to_string = (\<lambda>_. ''call''), co_parse = parse_response Some Some demo_client_read, co_as_u64 = Some, co_from_u64 = (\<lambda>x. x),
      co_oneshot_send = (\<lambda>c r v. (True, v @ [(c, r)])), co_stream_send = (\<lambda>s r v. (True, v @ [(s, r)]))\<rparr>"

lemma demo_server_result:
  "(\<And>w. E w w) \<Longrightarrow> call_result E demo_server () \<lparr>mc_jsonrpc = Some V2, mc_method = ''greet'', mc_params = ParamsArray [VBool True], mc_id = IdNum 0\<rparr> r
   \<longleftrightarrow> r = Ok (VArray [VBool True])"
  by (auto simp: call_result_def demo_server_def default_handler_def with_compatibility_def default_compatibility_def
      add_method_with_meta_def methods_insert_def resolve_method_def fut_ready_def)

lemma demo_server_simps:
  "middleware demo_server = Noop" "procs_resolve demo_server"
  by (auto simp: demo_server_def default_handler_def with_compatibility_def default_compatibility_def add_method_with_meta_def
      methods_insert_def procs_resolve_def split: if_splits)

theorem local_client_answered_witness:
  "\<exists>n d l w'. local_session demo_callers list_channel (handler_futures demo_server_read (\<lambda>_. ''reply'') [] demo_server)
      ([[demo_greeting]] @ replicate n []) (duplex_new, local_with_metadata [] (), 4, []) =
      Some (d, l, w', [(7, Ok (VArray [VBool True]))]) \<and> dx_pending_requests d = []"
proof -
  have "\<exists>n d l w' v' log. local_session demo_callers list_channel (handler_futures demo_server_read (\<lambda>_. ''reply'') [] demo_server)
      ([[demo_greeting]] @ replicate n []) (duplex_new, local_with_metadata [] (), 4, []) =
      Some (d, l, w', v') \<and> completes demo_callers log ([], []) = (dx_subscriptions d, v') \<and> dx_pending_requests d = [] \<and>
    list_all2 (\<lambda>(mc, c) (c', res). c' = c \<and> (\<exists>r. call_result (=) demo_server () mc r \<and> res = map_err JsonRpcError r))
      (open_calls (request_items 0 (concat [[demo_greeting]]))) log"
    by (rule local_client_answered [of Some "\<lambda>x. x" Some "\<lambda>x. x" list_channel "\<lambda>q. q" "[]" demo_server "[[demo_greeting]]" demo_callers demo_write
          demo_server_read "()" "\<lambda>_. ''reply''" demo_client_read])
      (auto simp: list_channel_live demo_greeting_def demo_server_result demo_server_simps procs_resolve_answer demo_callers_def read_as_def demo_write_def
        demo_server_read_def demo_client_read_def connect_with_metadata_and_middleware_def duplex_task_def
        de_call_def de_method_call_def de_client_response_def de_output_def de_success_def member_simps)
  then show ?thesis
    by (fastforce simp: demo_greeting_def list_all2_Cons1 demo_server_result demo_callers_def)
qed

section \<open>A client and a server over IPC\<close>

text \<open>C5: a client and a server that are connected over IPC with their default separators. Whatever calls,
  subscribe requests and notifications the handle of the client sends, however the bytes are cut
  into chunks in either direction, and in whatever order the server completes the calls: the server
  gets done, and when the client has read what the server wrote, in however many polls, every call and every subscribe request
  has been resolved with the result of that call (the one-shot completed, the subscription
  made active under the id it was given) and nothing is pending.\<close>

theorem ipc_client_answered:
  fixes ops :: "('n, 'c, 's, 'u, 'x) duplex_ops"
  assumes "\<And>x. as_u64 (from_u64 x) = Some x" and "\<And>x. as_i64 (from_i64 x) = Some x"
    and "ib_incoming_separator b = SepEmpty" and "ib_outgoing_separator b = default_separator" and "0 < ib_client_buffer_size b"
    and h: "h = ib_handler b" and "middleware h = Noop" and "procs_resolve h"
    and "\<And>req r. server_read req = Ok r \<Longrightarrow> sched_covers (sched req) r"
    and "length msgs < 2 ^ 64" and items: "items = request_items 0 msgs"
    and "\<And>c ws. c \<in> item_call ` set items \<Longrightarrow> padding default_separator ws \<Longrightarrow>
      do_to_string ops (SingleRequest c) = write (se_call from_u64 c) \<and>
      json_group (write (se_call from_u64 c)) \<and> utf8_valid (write (se_call from_u64 c)) \<and>
      read_as (\<lambda>s. server_read (ws @ s)) (\<lambda>m. map_option SingleRequest (de_call as_u64 m)) write (se_call from_u64 c)"
    and "\<And>mc r ws out. MethodCall mc \<in> item_call ` set items \<Longrightarrow> call_result any_time h meta mc r \<Longrightarrow> padding default_separator ws \<Longrightarrow>
      out = output_from r (mc_id mc) (mc_jsonrpc mc) \<Longrightarrow>
      wire_stable r \<and> reply (SingleResponse out) = write (se_output from_u64 from_i64 out) \<and>
      json_group (write (se_output from_u64 from_i64 out)) \<and> utf8_valid (write (se_output from_u64 from_i64 out)) \<and>
      read_as (\<lambda>s. client_read (ws @ s)) (de_client_response as_u64 as_i64) write (se_output from_u64 from_i64 out)"
    and "do_parse ops = parse_response as_u64 as_i64 client_read"
    and "\<And>c res u. fst (do_oneshot_send ops c res u)"
    and "concat received = ipc_client_write (dx_outgoing (fold (handle_message ops) msgs duplex_new))"
    and step: "step = ipc_step (ipc_serve server_read reply sched b meta) (ib_client_buffer_size b)"
    and start: "start = ipc_pipe_start (read_chunks (next_message (ib_incoming_separator b)) [] received) w"
  shows "(\<exists>p. reaches step start p \<and> pipe_finished p) \<and>
    (\<forall>p returned lss. reaches step start p \<and> pipe_finished p \<and>
       concat returned = concat (map (\<lambda>m. encode (codec_new (ib_incoming_separator b) (ib_outgoing_separator b)) m []) (pp_responses p)) \<and>
       concat lss = ipc_client_read returned \<longrightarrow>
       (\<exists>d u' log calls. client_reads ops lss (fold (handle_message ops) msgs duplex_new) u = (DuplexContinue, d, u') \<and>
          dx_completes ops log ([], u) = (dx_subscriptions d, u') \<and> dx_pending_requests d = [] \<and> mset calls = mset (open_calls items) \<and>
          list_all2 (\<lambda>(mc, c) (c', res). c' = c \<and> (\<exists>r. call_result any_time h meta mc r \<and> res = map_err JsonRpcError r)) calls log))"
proof -
  let ?C = "item_call ` set items" and ?serve = "ipc_serve server_read reply sched b meta"
  let ?R = "padded_reply default_separator reply h meta ?C"
  have serves: "serves ?serve (single_reply server_read reply h meta)"
    unfolding h by (rule ipc_serve_replies) (use assms(7-9) h in simp_all)
  have texts: "list_all (\<lambda>m. json_group m \<and> utf8_valid m) (map (\<lambda>z. do_to_string ops (SingleRequest (item_call z))) items)"
    using assms(12) [OF imageI, of _ "[]"] by (simp add: list_all_iff padding_def)
  have read: "server_read (ws @ do_to_string ops (SingleRequest (item_call z))) = Ok (SingleRequest (item_call z))"
    if "z \<in> set items" "padding default_separator ws" for z ws
    using assms(12) [of "item_call z" ws] that by (simp add: read_as_def de_call_se assms(1))
  have parse: "do_parse ops (ws @ reply (SingleResponse (output_from r (mc_id mc) (mc_jsonrpc mc)))) =
      Ok (mc_id mc, map_err JsonRpcError r, None, None)"
    if "MethodCall mc \<in> ?C" "call_result any_time h meta mc r" "padding default_separator ws" for mc r ws
    unfolding assms(14) by (rule reply_parsed [where ws = ws]) (use assms(1,2) assms(13) [OF that refl] in \<open>simp_all del: output_from.simps\<close>)
  then have readable: "readable (do_parse ops) ?R" by (fastforce simp: readable_def padded_reply_def)
  have groups: "json_group s \<and> utf8_valid s" if "MethodCall mc \<in> ?C" "handler_reply any_time reply h meta (MethodCall mc) (Some s)" for mc s
    using assms(13) [OF that(1) _ _ refl, of _ "[]"] that(2) by (auto simp: padding_def)
  have result: "c' = c \<and> (\<exists>r. call_result any_time h meta mc r \<and> res = map_err JsonRpcError r)"
    if "answered (do_parse ops) ?R (mc, c) (c', res)" for mc c c' res
    using that parse by (fastforce simp: answered_def padded_reply_def)
  have "pipe_ok ?serve (single_reply server_read reply h meta) (ib_client_buffer_size b)
      (read_chunks (next_message (ib_incoming_separator b)) [] received) start"
    unfolding start by (rule start_ok [OF assms(5) serves])
  then have "\<exists>p. reaches step start p \<and> pipe_finished p" unfolding step by (rule ipc_run.gets_finished)
  moreover have "\<exists>d u' log calls. client_reads ops lss (fold (handle_message ops) msgs duplex_new) u = (DuplexContinue, d, u') \<and>
        dx_completes ops log ([], u) = (dx_subscriptions d, u') \<and>
      dx_pending_requests d = [] \<and> mset calls = mset (open_calls items) \<and>
      list_all2 (\<lambda>(mc, c) (c', res). c' = c \<and> (\<exists>r. call_result any_time h meta mc r \<and> res = map_err JsonRpcError r)) calls log"
    if run: "reaches step start p" "pipe_finished p"
      "concat returned = concat (map (\<lambda>m. encode (codec_new (ib_incoming_separator b) (ib_outgoing_separator b)) m []) (pp_responses p))"
      "concat lss = ipc_client_read returned" for p returned lss
  proof -
    have "\<exists>d u' log calls. client_reads ops lss (fold (handle_message ops) msgs duplex_new) u = (DuplexContinue, d, u') \<and>
        dx_completes ops log ([], u) = (dx_subscriptions d, u') \<and>
        dx_pending_requests d = [] \<and> mset calls = mset (open_calls items) \<and> list_all2 (answered (do_parse ops) ?R) calls log"
    proof (rule ipc_round_trip [OF serves assms(5,10) items refl texts blank_separator_default _ _ readable assms(15,16)])
      show "reaches (ipc_step ?serve (ib_client_buffer_size b)) (ipc_pipe_start (read_chunks (next_message SepEmpty) [] received) w) p"
        using run(1) assms(3) unfolding step start by simp
      show "concat returned = concat (map (\<lambda>m. encode (codec_new SepEmpty default_separator) m []) (pp_responses p))"
        using run(3) assms(3,4) by simp
    qed (fact read groups run)+
    then obtain d u' log calls where "client_reads ops lss (fold (handle_message ops) msgs duplex_new) u = (DuplexContinue, d, u')"
      "dx_completes ops log ([], u) = (dx_subscriptions d, u')"
      "dx_pending_requests d = []" "mset calls = mset (open_calls items)" "list_all2 (answered (do_parse ops) ?R) calls log" by blast
    moreover from this(5) have "list_all2 (\<lambda>(mc, c) (c', res). c' = c \<and> (\<exists>r. call_result any_time h meta mc r \<and> res = map_err JsonRpcError r)) calls log"
      by (rule list_all2_mono) (auto dest: result)
    ultimately show ?thesis by blast
  qed
  ultimately show ?thesis by blast
qed

text \<open>A server and a client whose JSON text is an object for a call and an array for its reply.\<close>

definition demo_json :: "(string, u64 json) fmap \<Rightarrow> string" where
  "demo_json m = (if fmlookup m ''method'' = None then ''[]'' else ''{}'')"

definition demo_json_server :: "string \<Rightarrow> (u64 request, unit) result" where
  "demo_json_server s = (if s = ''{}'' \<or> s = CHR 0x0A # ''{}'' then demo_server_read ''call'' else Err ())"

definition demo_json_client :: "string \<Rightarrow> (u64 client_response, string \<times> unit) result" where
  "demo_json_client s = (if s = ''[]'' \<or> s = CHR 0x0A # ''[]'' then demo_client_read ''reply'' else Err (''x'', ()))"

definition demo_ipc_ops :: "(u64, nat, nat, (nat \<times> (u64 json, u64, unit) client_result) list, unit) duplex_ops" where
  "demo_ipc_ops = demo_duplex_ops\<lparr>do_to_string := (\<lambda>_. ''{}''), do_parse := parse_response Some Some demo_json_client\<rparr>"

definition demo_ipc_server :: "(u64, u64, unit, nat, unit, unit) ipc_builder" where
  "demo_ipc_server = ipc_builder_new () () demo_server"

theorem ipc_client_answered_witness:
  "\<exists>p d. reaches (ipc_step (ipc_serve demo_json_server (\<lambda>_. ''[]'') (\<lambda>_. []) demo_ipc_server ()) 5)
       (ipc_pipe_start (read_chunks (next_message SepEmpty) [] [''{'', CHR ''}'' # [CHR 0x0A]]) 4) p \<and> pipe_finished p \<and>
     client_reads demo_ipc_ops [ipc_client_read [concat (map (\<lambda>m. m @ [CHR 0x0A]) (pp_responses p))]]
       (handle_message demo_ipc_ops demo_greeting duplex_new) [] = (DuplexContinue, d, [(7, Ok (VArray [VBool True]))]) \<and>
     dx_pending_requests d = []"
proof -
  have b: "ib_incoming_separator demo_ipc_server = SepEmpty" "ib_client_buffer_size demo_ipc_server = 5"
    "ib_handler demo_ipc_server = demo_server" "ib_outgoing_separator demo_ipc_server = default_separator"
    by (simp_all add: demo_ipc_server_def ipc_builder_new_def ipc_with_meta_extractor_def)
  have cover: "\<And>req r. demo_json_server req = Ok r \<Longrightarrow> sched_covers [] r"
    by (auto simp: demo_json_server_def demo_server_read_def split: if_splits)
  have groups: "json_group ''{}'' \<and> utf8_valid ''{}''" "json_group ''[]'' \<and> utf8_valid ''[]''"
    using demo_groups(2) by (auto simp: json_group_def balanced_Nil is_open_def is_close_def in_range_def intro!: exI [of _ "CHR ''{''"] exI [of _ "[]"])
  have pad: "padding (SepByte (CHR 0x0A)) ws \<longleftrightarrow> ws = [] \<or> ws = [CHR 0x0A]" for ws
    by (auto simp: padding_def)
  let ?step = "ipc_step (ipc_serve demo_json_server (\<lambda>_. ''[]'') (\<lambda>_. []) demo_ipc_server ()) 5"
  let ?start = "ipc_pipe_start (read_chunks (next_message SepEmpty) [] [''{'', CHR ''}'' # [CHR 0x0A]]) 4"
  have "(\<exists>p. reaches ?step ?start p \<and> pipe_finished p) \<and>
    (\<forall>p returned lss. reaches ?step ?start p \<and> pipe_finished p \<and>
       concat returned = concat (map (\<lambda>m. encode (codec_new (ib_incoming_separator demo_ipc_server) (ib_outgoing_separator demo_ipc_server)) m []) (pp_responses p)) \<and>
       concat lss = ipc_client_read returned \<longrightarrow>
       (\<exists>d u' log calls. client_reads demo_ipc_ops lss (fold (handle_message demo_ipc_ops) [demo_greeting] duplex_new) [] =
            (DuplexContinue, d, u') \<and> dx_completes demo_ipc_ops log ([], []) = (dx_subscriptions d, u') \<and>
          dx_pending_requests d = [] \<and> mset calls = mset (open_calls (request_items 0 [demo_greeting])) \<and>
          list_all2 (\<lambda>(mc, c) (c', res). c' = c \<and> (\<exists>r. call_result any_time demo_server () mc r \<and> res = map_err JsonRpcError r)) calls log))"
    by (rule ipc_client_answered [of Some "\<lambda>x. x" Some "\<lambda>x. x" demo_ipc_server demo_server demo_json_server "\<lambda>_. []" "[demo_greeting]"
          "request_items 0 [demo_greeting]" demo_ipc_ops demo_json "()" "\<lambda>_. ''[]''" demo_json_client "[''{'', CHR ''}'' # [CHR 0x0A]]"])
      (auto simp: b cover groups pad in_range_def demo_greeting_def demo_server_result demo_server_simps demo_ipc_ops_def demo_duplex_ops_def read_as_def demo_json_def
        demo_json_server_def demo_json_client_def demo_server_read_def demo_client_read_def
        call_request_def single_request_def rb_next_id_def request_builder_new_def duplex_new_def
        ipc_client_write_def ipc_client_codec_def stream_incoming_def encode_def codec_new_def default_separator_def
        de_call_def de_method_call_def de_client_response_def de_output_def de_success_def member_simps)
  then obtain p where p: "reaches ?step ?start p" "pipe_finished p"
    and answers: "\<And>returned lss. concat returned = concat (map (\<lambda>m. m @ [CHR 0x0A]) (pp_responses p)) \<Longrightarrow> concat lss = ipc_client_read returned \<Longrightarrow>
      \<exists>d u' log calls. client_reads demo_ipc_ops lss (fold (handle_message demo_ipc_ops) [demo_greeting] duplex_new) [] =
            (DuplexContinue, d, u') \<and> dx_completes demo_ipc_ops log ([], []) = (dx_subscriptions d, u') \<and>
          dx_pending_requests d = [] \<and> mset calls = mset (open_calls (request_items 0 [demo_greeting])) \<and>
          list_all2 (\<lambda>(mc, c) (c', res). c' = c \<and> (\<exists>r. call_result any_time demo_server () mc r \<and> res = map_err JsonRpcError r)) calls log"
    by (auto simp: b encode_def codec_new_def default_separator_def simp del: fold_simps)
  from answers [of "[concat (map (\<lambda>m. m @ [CHR 0x0A]) (pp_responses p))]" "[ipc_client_read [concat (map (\<lambda>m. m @ [CHR 0x0A]) (pp_responses p))]]"]
  show ?thesis using p
    by (fastforce simp: demo_greeting_def list_all2_Cons1 demo_server_result demo_ipc_ops_def demo_duplex_ops_def)
qed

section \<open>A notification from server to client\<close>

text \<open>C21: what a server sends to a typed sink arrives at the subscriber's stream. The client task
  that reads the text of the notification and has a subscription active under the sink's
  subscription id and notification name sends the value (or the error) to that subscription's
  stream, and to nothing else; its own state does not change while the stream is open.\<close>

theorem notification_reaches_subscriber:
  assumes "\<And>x. as_u64 (from_u64 x) = Some x" and "\<And>x. as_i64 (from_i64 x) = Some x" and "wire_stable v"
    and "text = sink_params_to_string (\<lambda>n. write (se_call from_u64 (Notification n))) (ty_sink k)
           (val_to_params from_u64 val_json (se_error from_i64) k v)"
    and "read_as client_read (de_client_response as_u64 as_i64) write (se_call from_u64 (Notification
           \<lparr>nt_jsonrpc = Some V2, nt_method = sink_notification (ty_sink k),
            nt_params = val_to_params from_u64 val_json (se_error from_i64) k v\<rparr>))"
    and "do_parse ops = parse_response as_u64 as_i64 client_read"
    and "dx_incoming d = []" and "map_of (dx_pending_requests d) IdNull = None"
    and "map_of (dx_subscriptions d) (ty_id k, sink_notification (ty_sink k)) = Some sub" and "sub_id sub = Some (ty_id k)"
    and "do_stream_send ops (sub_channel sub) (map_err JsonRpcError (map_ok val_json v)) u = (True, u')"
  shows "case handle_stream ops [text] False d of (r, d1) \<Rightarrow>
    r = DuplexContinue \<and> handle_incoming ops (dx_incoming d1) d1 u = (DuplexContinue, d, u')"
proof -
  let ?n = "sink_notification (ty_sink k)"
  let ?m = "(IdNull, map_err JsonRpcError (map_ok val_json v), Some ?n, Some (ty_id k))"
  have "do_parse ops text = Ok ?m"
    unfolding assms(4,6) using note_parsed [OF assms(1-3), of client_read "write" val_json k] assms(5) by (simp add: note_of_def note_text_def)
  moreover have "handle_response ops ?m (d\<lparr>dx_incoming := [?m]\<rparr>) u = (DuplexContinue, d\<lparr>dx_incoming := [?m]\<rparr>, u')"
    using handle_notification_active [of "d\<lparr>dx_incoming := [?m]\<rparr>" "ty_id k" ?n sub ops] assms(8-11) by simp
  moreover have "d\<lparr>dx_incoming := []\<rparr> = d" using assms(7) by simp
  ultimately show ?thesis using assms(7) by simp
qed

definition demo_sink :: "unit typed_sink" where
  "demo_sink = \<lparr>ty_sink = \<lparr>sink_notification = ''tick'', sink_transport = ()\<rparr>, ty_id = SubNumber 5\<rparr>"

definition demo_note :: "u64 notification" where
  "demo_note = \<lparr>nt_jsonrpc = Some V2, nt_method = ''tick'',
     nt_params = val_to_params (\<lambda>x. x) VBool (se_error (\<lambda>x. x)) demo_sink (Ok True)\<rparr>"

definition demo_note_ops :: "(u64, nat, nat, (nat \<times> (u64 json, u64, unit) client_result) list, unit) duplex_ops" where
  "demo_note_ops = demo_duplex_ops\<lparr>do_parse := parse_response Some Some (\<lambda>s. Ok (ClientNotification demo_note))\<rparr>"

definition demo_subscribed :: "(u64, nat, nat, unit) duplex" where
  "demo_subscribed = duplex_new\<lparr>dx_subscriptions :=
     [((SubNumber 5, ''tick''), (subscription_new 3 ''tick'' ''stop'')\<lparr>sub_id := Some (SubNumber 5)\<rparr>)]\<rparr>"

theorem notification_reaches_subscriber_witness:
  "case handle_stream demo_note_ops [''note''] False demo_subscribed of (r, d1) \<Rightarrow>
     r = DuplexContinue \<and>
     handle_incoming demo_note_ops (dx_incoming d1) d1 [] = (DuplexContinue, demo_subscribed, [(3, Ok (VBool True))])"
  by (rule notification_reaches_subscriber [of Some "\<lambda>x. x" Some "\<lambda>x. x" "Ok True" _ "\<lambda>_. ''note''" demo_sink VBool
        "\<lambda>s. Ok (ClientNotification demo_note)" demo_note_ops demo_subscribed
        "(subscription_new 3 ''tick'' ''stop'')\<lparr>sub_id := Some (SubNumber 5)\<rparr>" "[]"])
    (simp_all add: read_as_def de_notification_se sink_params_to_string_def demo_note_ops_def demo_duplex_ops_def
      demo_subscribed_def duplex_new_def subscription_new_def demo_sink_def demo_note_def del: se_call.simps)

end
